(* ===== verification/Prelude.thy ===== *)
theory Prelude
  imports Main "HOL-Library.Word" "HOL-Library.Stream"
begin

text \<open>
  Shared vocabulary of the development: machine words and byte strings, the result type of
  fallible Rust code, the big-endian integer codecs of the standard library, the text
  operations of the standard library that the crate uses, and the world (entropy and wall
  clock) that stateful operations thread. The lemmas are facts about lists, words and maps
  that several components need.
\<close>

section \<open>Words, bytes and text\<close>

type_synonym u8 = "8 word"
type_synonym u32 = "32 word"
type_synonym u64 = "64 word"
type_synonym bytes = "8 word list"

text \<open>
  A Rust \<open>str\<close> is a sequence of Unicode scalar values; it is kept as the list of its code
  points, and \<open>lit\<close> embeds an ASCII literal. A byte-string literal \<open>b"..."\<close> is \<open>blit\<close>.
\<close>

type_synonym rstr = "nat list"

definition lit :: "string \<Rightarrow> rstr" where
  "lit s = map of_char s"

definition blit :: "string \<Rightarrow> bytes" where
  "blit s = map of_char s"

definition scalar_value :: "nat \<Rightarrow> bool" where
  "scalar_value c \<longleftrightarrow> c < 0xD800 \<or> (0xE000 \<le> c \<and> c \<le> 0x10FFFF)"

definition valid_str :: "rstr \<Rightarrow> bool" where
  "valid_str s \<longleftrightarrow> list_all scalar_value s"

lemma unat_of_nat_small: "n < 2 ^ LENGTH('a) \<Longrightarrow> unat (of_nat n :: 'a::len word) = n"
  by (simp add: unat_of_nat)

lemma unat_word_less: "unat (w :: 'a::len word) < 2 ^ LENGTH('a)"
  by (rule unsigned_less)

named_theorems key_labels \<open>definitions of the labels that separate the derived keys\<close>

lemma of_char_nat_less: "(of_char c :: nat) < 256"
  by (cases c) (simp add: of_char_def split: bool.split)

lemma of_char_word_inj [simp]: "(of_char c :: u8) = of_char d \<longleftrightarrow> c = d"
proof
  assume eq: "(of_char c :: u8) = of_char d"
  have "unat (of_char x :: u8) = of_char x" for x :: char
  proof -
    have "unat (of_nat (of_char x) :: u8) = of_char x"
      using of_char_nat_less [of x] by (simp add: unat_of_nat_small)
    then show ?thesis by (simp only: of_nat_of_char)
  qed
  with eq have "(of_char c :: nat) = of_char d" by metis
  then show "c = d" by simp
qed simp

lemma lit_Nil [simp]: "lit [] = []"
  by (simp add: lit_def)

lemma lit_inject [simp]: "lit s = lit t \<longleftrightarrow> s = t"
  by (simp add: lit_def inj_map_eq_map inj_of_char)

lemma lit_append: "lit (s @ t) = lit s @ lit t"
  by (simp add: lit_def)

lemma length_lit [simp]: "length (lit s) = length s"
  by (simp add: lit_def)

lemma length_blit [simp]: "length (blit s) = length s"
  by (simp add: blit_def)

lemma blit_inject [simp]: "blit s = blit t \<longleftrightarrow> s = t"
  by (auto simp: blit_def inj_def intro!: map_injective)

lemma lit_eq_Nil [simp]: "lit s = [] \<longleftrightarrow> s = []"
  by (simp add: lit_def)

lemma blit_eq_Nil [simp]: "blit s = [] \<longleftrightarrow> s = []"
  by (simp add: blit_def)

lemma lit_less_256: "c \<in> set (lit s) \<Longrightarrow> c < 256"
  by (auto simp: lit_def of_char_nat_less)

section \<open>Results\<close>

text \<open>
  A fallible Rust function returns \<open>Ok\<close> or \<open>Err\<close>; a call that unwinds (a failed
  \<open>assert!\<close> or \<open>expect\<close>, an out-of-range slice, an overflow under overflow checks) is the
  third outcome \<open>Panic\<close>.
\<close>

datatype ('e, 'a) res = Ok 'a | Err 'e | Panic

fun is_ok :: "('e, 'a) res \<Rightarrow> bool" where
  "is_ok (Ok _) = True"
| "is_ok (Err _) = False"
| "is_ok Panic = False"

fun map_err :: "('e \<Rightarrow> 'f) \<Rightarrow> ('e, 'a) res \<Rightarrow> ('f, 'a) res" where
  "map_err f (Ok a) = Ok a"
| "map_err f (Err e) = Err (f e)"
| "map_err f Panic = Panic"

fun map_ok :: "('a \<Rightarrow> 'b) \<Rightarrow> ('e, 'a) res \<Rightarrow> ('e, 'b) res" where
  "map_ok f (Ok a) = Ok (f a)"
| "map_ok f (Err e) = Err e"
| "map_ok f Panic = Panic"

fun and_then :: "('e, 'a) res \<Rightarrow> ('a \<Rightarrow> ('e, 'b) res) \<Rightarrow> ('e, 'b) res" where
  "and_then (Ok a) f = f a"
| "and_then (Err e) f = Err e"
| "and_then Panic f = Panic"

fun ok_or :: "'e \<Rightarrow> 'a option \<Rightarrow> ('e, 'a) res" where
  "ok_or e (Some a) = Ok a"
| "ok_or e None = Err e"

lemma is_ok_iff: "is_ok r \<longleftrightarrow> (\<exists>a. r = Ok a)"
  by (cases r) auto

lemma map_err_eq_Ok [simp]: "map_err f r = Ok a \<longleftrightarrow> r = Ok a"
  by (cases r) auto

lemma map_err_eq_Panic [simp]: "map_err f r = Panic \<longleftrightarrow> r = Panic"
  by (cases r) auto

lemma map_err_eq_Err: "map_err f r = Err e \<longleftrightarrow> (\<exists>e'. r = Err e' \<and> e = f e')"
  by (cases r) auto

lemma map_ok_eq_Panic [simp]: "map_ok f r = Panic \<longleftrightarrow> r = Panic"
  by (cases r) simp_all

lemma map_ok_eq_Ok: "map_ok f r = Ok b \<longleftrightarrow> (\<exists>a. r = Ok a \<and> b = f a)"
  by (cases r) auto

lemma and_then_eq_Ok: "and_then r f = Ok b \<longleftrightarrow> (\<exists>a. r = Ok a \<and> f a = Ok b)"
  by (cases r) auto

lemma and_then_eq_Err: "and_then r f = Err e \<longleftrightarrow> r = Err e \<or> (\<exists>a. r = Ok a \<and> f a = Err e)"
  by (cases r) auto

lemma and_then_eq_Panic: "and_then r f = Panic \<longleftrightarrow> r = Panic \<or> (\<exists>a. r = Ok a \<and> f a = Panic)"
  by (cases r) auto

lemma ok_or_eq_Ok [simp]: "ok_or e r = Ok a \<longleftrightarrow> r = Some a"
  by (cases r) auto

lemma ok_or_eq_Err [simp]: "ok_or e r = Err e' \<longleftrightarrow> r = None \<and> e' = e"
  by (cases r) auto

lemma ok_or_not_Panic [simp]: "ok_or e r \<noteq> Panic"
  by (cases r) auto

section \<open>Big-endian integers\<close>

text \<open>
  \<open>to_be_bytes\<close> of a \<open>k\<close>-byte integer and \<open>from_be_bytes\<close>, on the integer's value;
  \<open>u64_be\<close> and \<open>u32_be\<close> are the two widths the crate writes on the wire.
\<close>

fun be_bytes :: "nat \<Rightarrow> nat \<Rightarrow> bytes" where
  "be_bytes 0 x = []"
| "be_bytes (Suc k) x = be_bytes k (x div 256) @ [of_nat (x mod 256)]"

definition of_be :: "bytes \<Rightarrow> nat" where
  "of_be bs = foldl (\<lambda>acc b. acc * 256 + unat b) 0 bs"

definition u64_be :: "u64 \<Rightarrow> bytes" where
  "u64_be w = be_bytes 8 (unat w)"

definition u32_be :: "u32 \<Rightarrow> bytes" where
  "u32_be w = be_bytes 4 (unat w)"

definition u64_of_be :: "bytes \<Rightarrow> u64" where
  "u64_of_be bs = of_nat (of_be bs)"

definition u32_of_be :: "bytes \<Rightarrow> u32" where
  "u32_of_be bs = of_nat (of_be bs)"

lemma length_be_bytes [simp]: "length (be_bytes k x) = k"
  by (induction k arbitrary: x) auto

lemma of_be_Nil [simp]: "of_be [] = 0"
  by (simp add: of_be_def)

lemma of_be_snoc [simp]: "of_be (bs @ [b]) = of_be bs * 256 + unat b"
  by (simp add: of_be_def)

lemma unat_u8_less: "unat (b :: u8) < 256"
  using unat_word_less [of b] by simp

lemma of_be_be_bytes: "x < 256 ^ k \<Longrightarrow> of_be (be_bytes k x) = x"
proof (induction k arbitrary: x)
  case 0
  then show ?case by simp
next
  case (Suc k)
  from Suc.prems have "x div 256 < 256 ^ k" by (simp add: less_mult_imp_div_less mult.commute)
  then have "of_be (be_bytes k (x div 256)) = x div 256" by (rule Suc.IH)
  moreover have "unat (of_nat (x mod 256) :: u8) = x mod 256" by (simp add: unat_of_nat_small)
  ultimately show ?case by simp
qed

lemma of_be_less: "of_be bs < 256 ^ length bs"
proof (induction bs rule: rev_induct)
  case Nil
  then show ?case by simp
next
  case (snoc b bs)
  then show ?case using unat_u8_less [of b] by simp
qed

lemma be_bytes_of_be: "be_bytes (length bs) (of_be bs) = bs"
proof (induction bs rule: rev_induct)
  case Nil
  then show ?case by simp
next
  case (snoc b bs)
  have "(of_be bs * 256 + unat b) div 256 = of_be bs"
    and "(of_be bs * 256 + unat b) mod 256 = unat b"
    using unat_u8_less [of b] by simp_all
  with snoc show ?case by simp
qed

lemma be_bytes_inject:
  "x < 256 ^ k \<Longrightarrow> y < 256 ^ k \<Longrightarrow> be_bytes k x = be_bytes k y \<longleftrightarrow> x = y"
  by (metis of_be_be_bytes)

lemma length_u64_be [simp]: "length (u64_be w) = 8"
  by (simp add: u64_be_def)

lemma length_u32_be [simp]: "length (u32_be w) = 4"
  by (simp add: u32_be_def)

lemma unat_u64_less: "unat (w :: u64) < 256 ^ 8"
  using unat_word_less [of w] by simp

lemma unat_u32_less: "unat (w :: u32) < 256 ^ 4"
  using unat_word_less [of w] by simp

lemma u64_of_be_be [simp]: "u64_of_be (u64_be w) = w"
  by (simp add: u64_of_be_def u64_be_def of_be_be_bytes [OF unat_u64_less])

lemma u32_of_be_be [simp]: "u32_of_be (u32_be w) = w"
  by (simp add: u32_of_be_def u32_be_def of_be_be_bytes [OF unat_u32_less])

lemma u64_be_inject [simp]: "u64_be v = u64_be w \<longleftrightarrow> v = w"
  by (metis u64_of_be_be)

lemma u32_be_inject [simp]: "u32_be v = u32_be w \<longleftrightarrow> v = w"
  by (metis u32_of_be_be)

lemma u64_be_of_be: "length bs = 8 \<Longrightarrow> u64_be (u64_of_be bs) = bs"
  using of_be_less [of bs] be_bytes_of_be [of bs]
  by (simp add: u64_be_def u64_of_be_def unat_of_nat_small)

lemma u32_be_of_be: "length bs = 4 \<Longrightarrow> u32_be (u32_of_be bs) = bs"
  using of_be_less [of bs] be_bytes_of_be [of bs]
  by (simp add: u32_be_def u32_of_be_def unat_of_nat_small)

text \<open>\<open>len as u32\<close> keeps the low 32 bits of a length.\<close>

definition len_u32 :: "'a list \<Rightarrow> u32" where
  "len_u32 xs = of_nat (length xs)"

lemma unat_len_u32: "unat (len_u32 xs) = length xs mod 2 ^ 32"
  by (simp add: len_u32_def unat_of_nat)

lemma unat_len_u32_small: "length xs < 2 ^ 32 \<Longrightarrow> unat (len_u32 xs) = length xs"
  by (simp add: unat_len_u32)

section \<open>Text operations of the standard library\<close>

text \<open>\<open>str::strip_prefix\<close> and \<open>str::split_once\<close> (at the first occurrence of a character).\<close>

definition strip_prefix :: "rstr \<Rightarrow> rstr \<Rightarrow> rstr option" where
  "strip_prefix p s = (if take (length p) s = p then Some (drop (length p) s) else None)"

definition split_once :: "nat \<Rightarrow> rstr \<Rightarrow> (rstr \<times> rstr) option" where
  "split_once c s =
     (if c \<in> set s then Some (takeWhile (\<lambda>x. x \<noteq> c) s, tl (dropWhile (\<lambda>x. x \<noteq> c) s))
      else None)"

text \<open>\<open>str::contains\<close> with a string pattern, \<open>to_ascii_lowercase\<close> and \<open>to_ascii_uppercase\<close>.\<close>

fun str_contains :: "rstr \<Rightarrow> rstr \<Rightarrow> bool" where
  "str_contains w [] = (w = [])"
| "str_contains w (c # s) = (take (length w) (c # s) = w \<or> str_contains w s)"

definition ascii_lower :: "nat \<Rightarrow> nat" where
  "ascii_lower c = (if 65 \<le> c \<and> c \<le> 90 then c + 32 else c)"

definition ascii_upper :: "nat \<Rightarrow> nat" where
  "ascii_upper c = (if 97 \<le> c \<and> c \<le> 122 then c - 32 else c)"

definition to_ascii_lowercase :: "rstr \<Rightarrow> rstr" where
  "to_ascii_lowercase s = map ascii_lower s"

definition to_ascii_uppercase :: "rstr \<Rightarrow> rstr" where
  "to_ascii_uppercase s = map ascii_upper s"

text \<open>\<open>u64::to_string\<close> (decimal) and \<open>str::parse::<u64>\<close>, which accepts one leading \<open>+\<close>.\<close>

fun dec :: "nat \<Rightarrow> rstr" where
  "dec n = (if n < 10 then [48 + n] else dec (n div 10) @ [48 + n mod 10])"

declare dec.simps [simp del]

definition undec :: "rstr \<Rightarrow> nat" where
  "undec s = foldl (\<lambda>acc c. acc * 10 + (c - 48)) 0 s"

definition is_digit :: "nat \<Rightarrow> bool" where
  "is_digit c \<longleftrightarrow> 48 \<le> c \<and> c \<le> 57"

definition parse_u64 :: "rstr \<Rightarrow> u64 option" where
  "parse_u64 s =
     (let ds = (case s of [] \<Rightarrow> [] | c # r \<Rightarrow> if c = 43 \<and> r \<noteq> [] then r else s)
      in if ds = [] \<or> \<not> list_all is_digit ds then None
         else if undec ds < 2 ^ 64 then Some (of_nat (undec ds)) else None)"

lemma strip_prefix_append [simp]: "strip_prefix p (p @ s) = Some s"
  by (simp add: strip_prefix_def)

lemma strip_prefix_eq_Some: "strip_prefix p s = Some r \<longleftrightarrow> s = p @ r"
  by (auto simp: strip_prefix_def) (metis append_take_drop_id)

lemma split_once_append: "c \<notin> set a \<Longrightarrow> split_once c (a @ c # b) = Some (a, b)"
  by (induction a) (auto simp: split_once_def)

lemma split_once_eq_Some:
  "split_once c s = Some (a, b) \<longleftrightarrow> s = a @ c # b \<and> c \<notin> set a"
proof
  assume eq: "split_once c s = Some (a, b)"
  then have c: "c \<in> set s" by (simp add: split_once_def split: if_splits)
  then obtain u v where "s = u @ c # v" "c \<notin> set u" by (metis split_list_first)
  with eq show "s = a @ c # b \<and> c \<notin> set a" by (simp add: split_once_append)
qed (auto simp: split_once_append)

lemma str_contains_iff: "str_contains w s \<longleftrightarrow> (\<exists>a b. s = a @ w @ b)"
proof (induction s)
  case Nil
  then show ?case by auto
next
  case (Cons c s)
  show ?case
  proof
    assume "str_contains w (c # s)"
    then consider "take (length w) (c # s) = w" | "str_contains w s" by auto
    then show "\<exists>a b. c # s = a @ w @ b"
    proof cases
      case 1
      then have "c # s = [] @ w @ drop (length w) (c # s)" by (metis append_Nil append_take_drop_id)
      then show ?thesis by blast
    next
      case 2
      with Cons.IH obtain a b where "s = a @ w @ b" by blast
      then have "c # s = (c # a) @ w @ b" by simp
      then show ?thesis by blast
    qed
  next
    assume "\<exists>a b. c # s = a @ w @ b"
    then obtain a b where ab: "c # s = a @ w @ b" by blast
    show "str_contains w (c # s)"
    proof (cases a)
      case Nil
      with ab have "take (length w) (c # s) = w" by simp
      then show ?thesis by simp
    next
      case (Cons x a')
      with ab have "s = a' @ w @ b" by simp
      with \<open>str_contains w s \<longleftrightarrow> (\<exists>a b. s = a @ w @ b)\<close> show ?thesis by auto
    qed
  qed
qed

lemma undec_snoc [simp]: "undec (s @ [c]) = undec s * 10 + (c - 48)"
  by (simp add: undec_def)

lemma undec_single: "undec [c] = c - 48"
  by (simp add: undec_def)

lemma undec_dec [simp]: "undec (dec n) = n"
proof (induction n rule: dec.induct)
  case (1 n)
  then show ?case by (subst dec.simps) (auto simp: undec_single)
qed

lemma dec_digits: "list_all is_digit (dec n)"
proof (induction n rule: dec.induct)
  case (1 n)
  show ?case
  proof (cases "n < 10")
    case True
    then show ?thesis by (subst dec.simps) (simp add: is_digit_def)
  next
    case False
    have "is_digit (48 + n mod 10)" by (simp add: is_digit_def)
    with False 1 show ?thesis by (subst dec.simps) simp
  qed
qed

lemma dec_not_Nil [simp]: "dec n \<noteq> []"
  by (subst dec.simps) simp

lemma dec_inject [simp]: "dec m = dec n \<longleftrightarrow> m = n"
  by (metis undec_dec)

lemma parse_u64_dec [simp]: "parse_u64 (dec (unat w)) = Some w"
proof -
  obtain c r where cr: "dec (unat w) = c # r" by (cases "dec (unat w)") auto
  have "is_digit c" using dec_digits [of "unat w"] cr by simp
  then have "c \<noteq> 43" by (simp add: is_digit_def)
  moreover have "undec (c # r) = unat w" using cr by (metis undec_dec)
  moreover have "list_all is_digit (c # r)" using dec_digits [of "unat w"] cr by simp
  ultimately show ?thesis using cr unat_word_less [of w] by (simp add: parse_u64_def)
qed

section \<open>A flipped bit\<close>

text \<open>\<open>bytes[last] ^= 0x01\<close>, as the tests of the crate tamper with a message.\<close>

definition flip_last :: "bytes \<Rightarrow> bytes" where
  "flip_last xs = xs[length xs - 1 := xor (last xs) 1]"

lemma flip_last_differs: "xs \<noteq> [] \<Longrightarrow> flip_last xs \<noteq> xs"
proof
  assume "xs \<noteq> []" "flip_last xs = xs"
  then have "xor (last xs) 1 = last xs"
    unfolding flip_last_def
    by (metis diff_less last_conv_nth length_greater_0_conv nth_list_update_eq zero_less_one)
  then have "xor (last xs) (xor (last xs) 1) = 0" by simp
  then show False by (simp add: xor.assoc [symmetric])
qed

end
