(* ===== verification/Float64.thy ===== *)
theory Float64
  imports Complex_Main "HOL-Library.Log_Nat" Prelude
begin

text \<open>
  The part of IEEE 754 binary64 (Rust's \<open>f64\<close>) that the re-key clock uses: conversion of an
  unsigned integer, subtraction, addition and \<open>>=\<close>, each rounding its exact rational result
  to nearest, ties to even. A finite value is kept as the rational number it denotes; the sign
  of a zero and the payload of a NaN are not represented, as no operation used here observes
  them. The lemmas show that rounding is monotone and exact on the integers up to
  \<open>2 ^ 53\<close>.
\<close>

section \<open>Rounding\<close>

datatype f64 = Fin rat | PosInf | NegInf | NaN

text \<open>The exponent of a positive rational: \<open>2 powi ilog2 x \<le> x < 2 powi (ilog2 x + 1)\<close>.\<close>

definition ilog2 :: "rat \<Rightarrow> int" where
  "ilog2 x = (if 1 \<le> x then int (floorlog 2 (nat \<lfloor>x\<rfloor>)) - 1
              else - int (floorlog 2 (nat (\<lceil>1 / x\<rceil> - 1))))"

definition round_even :: "rat \<Rightarrow> int" where
  "round_even y =
     (let f = \<lfloor>y\<rfloor>; d = y - of_int f
      in if d < 1 / 2 then f else if 1 / 2 < d then f + 1 else if even f then f else f + 1)"

definition quantum :: "rat \<Rightarrow> rat" where
  "quantum x = 2 powi (max (ilog2 \<bar>x\<bar>) (-1022) - 52)"

definition round_rat :: "rat \<Rightarrow> rat" where
  "round_rat x = (if x = 0 then 0 else of_int (round_even (x / quantum x)) * quantum x)"

definition round64 :: "rat \<Rightarrow> f64" where
  "round64 x = (let r = round_rat x in
     if 2 ^ 1024 \<le> r then PosInf else if r \<le> - (2 ^ 1024) then NegInf else Fin r)"

section \<open>The operations\<close>

text \<open>\<open>n as f64\<close> for an unsigned integer \<open>n\<close>.\<close>

definition f64_of_nat :: "nat \<Rightarrow> f64" where
  "f64_of_nat n = round64 (of_nat n)"

fun f64_add :: "f64 \<Rightarrow> f64 \<Rightarrow> f64" where
  "f64_add (Fin a) (Fin b) = round64 (a + b)"
| "f64_add NaN y = NaN"
| "f64_add x NaN = NaN"
| "f64_add PosInf NegInf = NaN"
| "f64_add NegInf PosInf = NaN"
| "f64_add PosInf y = PosInf"
| "f64_add NegInf y = NegInf"
| "f64_add x y = y"

fun f64_neg :: "f64 \<Rightarrow> f64" where
  "f64_neg (Fin a) = Fin (- a)"
| "f64_neg PosInf = NegInf"
| "f64_neg NegInf = PosInf"
| "f64_neg NaN = NaN"

definition f64_sub :: "f64 \<Rightarrow> f64 \<Rightarrow> f64" where
  "f64_sub x y = f64_add x (f64_neg y)"

fun f64_ge :: "f64 \<Rightarrow> f64 \<Rightarrow> bool" where
  "f64_ge NaN y = False"
| "f64_ge x NaN = False"
| "f64_ge (Fin a) (Fin b) = (b \<le> a)"
| "f64_ge PosInf y = True"
| "f64_ge x NegInf = True"
| "f64_ge x y = False"

fun f64_finite :: "f64 \<Rightarrow> bool" where
  "f64_finite (Fin _) = True"
| "f64_finite _ = False"

text \<open>
  \<open>Duration::as_secs_f64\<close>: the whole seconds, plus the nanoseconds divided by \<open>1e9\<close> (both
  operands of the division are exact, so it rounds the exact quotient).
\<close>

definition as_secs_f64 :: "u64 \<Rightarrow> u32 \<Rightarrow> f64" where
  "as_secs_f64 secs nanos =
     f64_add (f64_of_nat (unat secs)) (round64 (of_nat (unat nanos) / 10 ^ 9))"

section \<open>Exponents\<close>

lemma ilog2_bounds:
  assumes "0 < x"
  shows "2 powi ilog2 x \<le> x \<and> x < 2 powi (ilog2 x + 1)"
proof (cases "1 \<le> x")
  case True
  define n where "n = nat \<lfloor>x\<rfloor>"
  have n: "0 < n" "of_nat n \<le> x" "x < of_nat n + 1"
    using True by (simp_all add: n_def) linarith+
  have b: "2 ^ (floorlog 2 n - 1) \<le> n" "n < 2 ^ floorlog 2 n"
    using floorlog_bounds [of n 2] n(1) by simp_all
  have pos: "0 < floorlog 2 n" using n(1) b(2) by (cases "floorlog 2 n") auto
  have "(2::rat) ^ (floorlog 2 n - 1) \<le> of_nat n"
    using b(1) by (metis of_nat_le_iff of_nat_numeral of_nat_power)
  moreover have "of_nat n + 1 \<le> (2::rat) ^ floorlog 2 n"
    using b(2) by (metis Suc_leI of_nat_Suc of_nat_le_iff of_nat_numeral of_nat_power add.commute)
  moreover have "ilog2 x = int (floorlog 2 n - 1)" "ilog2 x + 1 = int (floorlog 2 n)"
    using True pos by (simp_all add: ilog2_def n_def of_nat_diff)
  ultimately show ?thesis using n by (simp only: power_int_of_nat) linarith
next
  case False
  define y where "y = 1 / x"
  define m where "m = nat (\<lceil>y\<rceil> - 1)"
  have y: "1 < y" "x = 1 / y" using False assms by (simp_all add: y_def)
  have "1 < \<lceil>y\<rceil>" using y(1) by (simp add: less_ceiling_iff)
  then have m: "0 < m" "of_nat m < y" "y \<le> of_nat m + 1"
    unfolding m_def by (simp_all, linarith+)
  have b: "2 ^ (floorlog 2 m - 1) \<le> m" "m < 2 ^ floorlog 2 m"
    using floorlog_bounds [of m 2] m(1) by simp_all
  have pos: "0 < floorlog 2 m" using m(1) b(2) by (cases "floorlog 2 m") auto
  have lo: "(2::rat) ^ (floorlog 2 m - 1) < y"
    using b(1) m(2) by (metis le_less_trans of_nat_le_iff of_nat_numeral of_nat_power)
  have "m + 1 \<le> 2 ^ floorlog 2 m" using b(2) by simp
  then have "(of_nat (m + 1) :: rat) \<le> of_nat (2 ^ floorlog 2 m)" by (simp only: of_nat_le_iff)
  then have hi: "y \<le> (2::rat) ^ floorlog 2 m" using m(3) by simp
  have e: "ilog2 x = - int (floorlog 2 m)" "ilog2 x + 1 = - int (floorlog 2 m - 1)"
    using False pos by (simp_all add: ilog2_def m_def y_def of_nat_diff)
  have "1 / (2::rat) ^ floorlog 2 m \<le> x"
    unfolding y(2) using hi y(1) by (intro divide_left_mono) auto
  moreover have "x < 1 / (2::rat) ^ (floorlog 2 m - 1)"
    unfolding y(2) using lo y(1) by (intro divide_strict_left_mono) auto
  ultimately show ?thesis
    unfolding e(2) by (simp only: e(1) power_int_minus power_int_of_nat inverse_eq_divide)
qed

lemma ilog2_mono:
  assumes "0 < x" "x \<le> y"
  shows "ilog2 x \<le> ilog2 y"
proof (rule ccontr)
  assume "\<not> ilog2 x \<le> ilog2 y"
  then have "ilog2 y + 1 \<le> ilog2 x" by simp
  then have "(2::rat) powi (ilog2 y + 1) \<le> 2 powi ilog2 x" by (simp add: power_int_increasing)
  moreover have "y < 2 powi (ilog2 y + 1)" "2 powi ilog2 x \<le> x"
    using ilog2_bounds [of x] ilog2_bounds [of y] assms by auto
  ultimately show False using assms(2) by linarith
qed

lemma quantum_pos [simp]: "0 < quantum x"
  by (simp add: quantum_def)

lemma quantum_neq_0 [simp]: "quantum x \<noteq> 0"
  using quantum_pos [of x] by linarith

lemma quantum_minus [simp]: "quantum (- x) = quantum x"
  by (simp add: quantum_def)

section \<open>Rounding is monotone and exact where it should be\<close>

lemma round_even_of_int [simp]: "round_even (of_int k) = k"
  by (simp add: round_even_def)

lemma round_even_bounds: "\<lfloor>y\<rfloor> \<le> round_even y \<and> round_even y \<le> \<lfloor>y\<rfloor> + 1"
  by (simp add: round_even_def Let_def)

lemma round_even_mono:
  assumes "x \<le> y"
  shows "round_even x \<le> round_even y"
proof (cases "\<lfloor>x\<rfloor> = \<lfloor>y\<rfloor>")
  case True
  with assms show ?thesis by (auto simp: round_even_def Let_def)
next
  case False
  with assms have "\<lfloor>x\<rfloor> + 1 \<le> \<lfloor>y\<rfloor>" using floor_mono [OF assms] by linarith
  with round_even_bounds [of x] round_even_bounds [of y] show ?thesis by linarith
qed

lemma round_even_minus: "round_even (- y) = - round_even y"
proof (cases "y \<in> \<int>")
  case True
  then obtain k where "y = of_int k" by (auto elim: Ints_cases)
  then show ?thesis by (metis of_int_minus round_even_of_int)
next
  case False
  then have fl: "\<lfloor>- y\<rfloor> = - \<lfloor>y\<rfloor> - 1"
    using floor_minus [of y] ceiling_altdef [of y] by (metis Ints_of_int diff_minus_eq_add
        minus_diff_eq add.commute diff_conv_add_uminus)
  have "- y - of_int \<lfloor>- y\<rfloor> = 1 - (y - of_int \<lfloor>y\<rfloor>)" by (simp add: fl)
  then show ?thesis unfolding round_even_def Let_def by (simp add: fl)
qed

lemma round_rat_minus: "round_rat (- x) = - round_rat x"
  by (simp add: round_rat_def round_even_minus)

lemma round_rat_nonneg: "0 \<le> x \<Longrightarrow> 0 \<le> round_rat x"
  using round_even_mono [of 0 "x / quantum x"] round_even_of_int [of 0] quantum_pos [of x]
  by (simp add: round_rat_def less_imp_le)

lemma round_rat_grid:
  assumes "x \<noteq> 0" "x = of_int k * quantum x"
  shows "round_rat x = x"
proof -
  have "x / quantum x = of_int k" using assms by (metis nonzero_mult_div_cancel_right quantum_neq_0)
  then show ?thesis using assms by (simp add: round_rat_def)
qed

lemma quantum_eq: "quantum x * 2 ^ k = 2 powi (max (ilog2 \<bar>x\<bar>) (-1022) - 52 + int k)"
  by (simp add: quantum_def power_int_add)

text \<open>The two ends of a binade: rounding never leaves \<open>2 powi e .. 2 powi (e + 1)\<close>.\<close>

lemma round_rat_le_binade:
  assumes "0 < x"
  shows "round_rat x \<le> 2 powi (max (ilog2 x) (-1022) + 1)"
proof -
  have "x < 2 powi (ilog2 x + 1)" using ilog2_bounds [OF assms] by simp
  also have "\<dots> \<le> 2 powi (max (ilog2 x) (-1022) + 1)" by (simp add: power_int_increasing)
  also have "\<dots> = quantum x * 2 ^ 53" using quantum_eq [of x 53] assms by (simp add: add_ac)
  finally have "x / quantum x \<le> of_int (2 ^ 53)"
    by (simp add: pos_divide_le_eq mult.commute)
  then have "round_even (x / quantum x) \<le> 2 ^ 53"
    using round_even_mono round_even_of_int by metis
  then have "rat_of_int (round_even (x / quantum x)) \<le> 2 ^ 53"
    by (metis of_int_le_iff of_int_numeral of_int_power)
  then have "round_rat x \<le> 2 ^ 53 * quantum x"
    using assms by (simp add: round_rat_def mult_right_mono less_imp_le)
  then show ?thesis using quantum_eq [of x 53] assms by (simp add: mult.commute add_ac)
qed

lemma round_rat_ge_binade:
  assumes "0 < x" "-1022 \<le> ilog2 x"
  shows "2 powi ilog2 x \<le> round_rat x"
proof -
  have "quantum x * 2 ^ 52 = 2 powi ilog2 x" using quantum_eq [of x 52] assms by simp
  also have "\<dots> \<le> x" using ilog2_bounds [OF assms(1)] by simp
  finally have "of_int (2 ^ 52) \<le> x / quantum x"
    by (simp add: pos_le_divide_eq mult.commute)
  then have "2 ^ 52 \<le> round_even (x / quantum x)"
    using round_even_mono round_even_of_int by metis
  then have "2 ^ 52 \<le> rat_of_int (round_even (x / quantum x))"
    by (metis of_int_le_iff of_int_numeral of_int_power)
  then have "2 ^ 52 * quantum x \<le> round_rat x"
    using assms by (simp add: round_rat_def mult_right_mono less_imp_le)
  then show ?thesis using quantum_eq [of x 52] assms by (simp add: mult.commute)
qed

lemma round_rat_mono_pos:
  assumes "0 < x" "x \<le> y"
  shows "round_rat x \<le> round_rat y"
proof (cases "max (ilog2 x) (-1022) = max (ilog2 y) (-1022)")
  case True
  with assms have q: "quantum x = quantum y" by (simp add: quantum_def)
  have "x / quantum x \<le> y / quantum x" using assms by (simp add: divide_right_mono less_imp_le)
  then have "round_even (x / quantum x) \<le> round_even (y / quantum x)" by (rule round_even_mono)
  with q assms show ?thesis by (simp add: round_rat_def mult_right_mono less_imp_le)
next
  case False
  have le: "ilog2 x \<le> ilog2 y" using assms by (rule ilog2_mono)
  with False assms have less: "max (ilog2 x) (-1022) < ilog2 y" "-1022 \<le> ilog2 y"
    by (auto simp: max_def split: if_splits)
  have "round_rat x \<le> 2 powi (max (ilog2 x) (-1022) + 1)" using assms by (intro round_rat_le_binade)
  also have "\<dots> \<le> 2 powi ilog2 y" using less by (intro power_int_increasing) auto
  also have "\<dots> \<le> round_rat y" using assms less by (intro round_rat_ge_binade) auto
  finally show ?thesis .
qed

lemma round_rat_mono:
  assumes "x \<le> y"
  shows "round_rat x \<le> round_rat y"
proof -
  consider "0 < x" | "x \<le> 0" "0 \<le> y" | "y < 0" by linarith
  then show ?thesis
  proof cases
    case 1
    with assms show ?thesis by (intro round_rat_mono_pos)
  next
    case 2
    then show ?thesis
      using round_rat_nonneg [of "- x"] round_rat_nonneg [of y] round_rat_minus [of x] by simp
  next
    case 3
    with assms have "round_rat (- y) \<le> round_rat (- x)" by (intro round_rat_mono_pos) auto
    then show ?thesis by (simp add: round_rat_minus)
  qed
qed

lemma f64_ge_refl [simp]: "f64_ge (Fin x) (Fin x)"
  by simp

lemma round64_cases:
  obtains "round64 x = PosInf" "2 ^ 1024 \<le> round_rat x"
  | "round64 x = NegInf" "round_rat x \<le> - (2 ^ 1024)"
  | "round64 x = Fin (round_rat x)" "- (2 ^ 1024) < round_rat x" "round_rat x < 2 ^ 1024"
  by (cases "2 ^ 1024 \<le> round_rat x"; cases "round_rat x \<le> - (2 ^ 1024)")
     (simp_all add: round64_def Let_def)

lemma round64_mono:
  assumes "x \<le> y"
  shows "f64_ge (round64 y) (round64 x)"
proof -
  have big: "- (2 ^ 1024) < (2 ^ 1024 :: rat)" by simp
  have le: "round_rat x \<le> round_rat y" using assms by (rule round_rat_mono)
  show ?thesis
    by (cases rule: round64_cases [of x]; cases rule: round64_cases [of y])
       (use le big in \<open>simp_all\<close>)
qed

lemma round_rat_of_int:
  assumes "\<bar>n\<bar> < 2 ^ 53"
  shows "round_rat (of_int n) = of_int n"
proof (cases "n = 0")
  case True
  then show ?thesis by (simp add: round_rat_def)
next
  case False
  define x :: rat where "x = \<bar>of_int n\<bar>"
  have x: "1 \<le> x" "x < 2 ^ 53"
    using False assms by (simp_all add: x_def flip: of_int_abs)
  have b: "2 powi ilog2 x \<le> x" "x < 2 powi (ilog2 x + 1)" using ilog2_bounds [of x] x(1) by auto
  have lo: "0 \<le> ilog2 x"
  proof (rule ccontr)
    assume "\<not> 0 \<le> ilog2 x"
    then have "(2::rat) powi (ilog2 x + 1) \<le> 2 powi 0" by (intro power_int_increasing) auto
    with b x(1) show False by simp
  qed
  have "ilog2 x < 53"
  proof (rule ccontr)
    assume "\<not> ilog2 x < 53"
    then have "(2::rat) powi 53 \<le> 2 powi ilog2 x" by (intro power_int_increasing) auto
    with b x(2) show False by simp
  qed
  define k where "k = nat (52 - ilog2 x)"
  have k: "ilog2 x = 52 - int k" using \<open>ilog2 x < 53\<close> by (simp add: k_def)
  have q: "quantum (of_int n) = 2 powi (- int k)"
    using lo by (simp add: quantum_def k flip: x_def)
  have "of_int n = of_int (n * 2 ^ k) * quantum (of_int n)"
    by (simp add: q power_int_minus)
  with False show ?thesis by (intro round_rat_grid [of _ "n * 2 ^ k"]) simp_all
qed

lemma round64_of_int: "\<bar>n\<bar> < 2 ^ 53 \<Longrightarrow> round64 (of_int n) = Fin (of_int n)"
proof -
  assume n: "\<bar>n\<bar> < 2 ^ 53"
  have "(2::int) ^ 53 \<le> 2 ^ 1024" by (rule power_increasing) auto
  with n have "n < 2 ^ 1024" "- (2 ^ 1024) < n" by linarith+
  then have "(of_int n :: rat) < of_int (2 ^ 1024)" "of_int (- (2 ^ 1024)) < (of_int n :: rat)"
    by (simp_all only: of_int_less_iff)
  then have "\<not> 2 ^ 1024 \<le> (of_int n :: rat)" "\<not> of_int n \<le> - ((2::rat) ^ 1024)" by auto
  then show ?thesis by (simp only: round64_def Let_def round_rat_of_int [OF n] if_False)
qed

lemma f64_of_nat_exact: "n < 2 ^ 53 \<Longrightarrow> f64_of_nat n = Fin (of_nat n)"
  using round64_of_int [of "int n"] by (simp add: f64_of_nat_def)

lemma f64_ge_trans: "f64_ge x y \<Longrightarrow> f64_ge y z \<Longrightarrow> f64_ge x z"
  by (cases x; cases y; cases z) auto

lemma round64_not_NaN [simp]: "round64 x \<noteq> NaN"
  by (simp add: round64_def Let_def)

lemma f64_ge_extremes [simp]:
  "f64_ge PosInf x \<longleftrightarrow> x \<noteq> NaN" "f64_ge x NegInf \<longleftrightarrow> x \<noteq> NaN"
  by (cases x; simp)+

lemma f64_of_nat_ge_0: "f64_ge (f64_of_nat n) (Fin 0)"
proof -
  have "f64_ge (round64 (of_nat n)) (round64 0)" by (intro round64_mono) simp
  moreover have "round64 0 = Fin 0" using round64_of_int [of 0] by simp
  ultimately show ?thesis by (simp add: f64_of_nat_def)
qed

text \<open>Subtracting the same instant keeps the order of two later ones, where it is defined.\<close>

lemma f64_sub_mono:
  assumes "f64_ge y x" "f64_ge (f64_sub x s) a" "a \<noteq> NegInf"
  shows "f64_ge (f64_sub y s) a"
proof -
  have "f64_ge (f64_sub y s) (f64_sub x s)"
    using assms
    by (cases s; cases x; cases y; cases a) (auto simp: f64_sub_def intro: round64_mono)
  then show ?thesis using assms(2) by (rule f64_ge_trans)
qed

lemma f64_sub_nat_exact:
  assumes "m < 2 ^ 53" "n < 2 ^ 53"
  shows "f64_sub (Fin (of_nat m)) (Fin (of_nat n)) = Fin (of_nat m - of_nat n)"
  using round64_of_int [of "int m - int n"] assms by (simp add: f64_sub_def)

end
