(* ===== verification/World.thy ===== *)
theory World
  imports Prelude Float64
begin

text \<open>
  What the crate reads from outside: the operating system's entropy (\<open>OsRng\<close>), an infinite
  byte stream that every draw consumes from the front; the wall clock, a stream of readings;
  and the third-party cryptographic crates, a record of functions that every model function
  takes as its argument \<open>P\<close>. The laws of those crates that theorems rely on are the named
  predicates of the last section; no definition of the model assumes any of them.
\<close>

section \<open>Entropy and the clock\<close>

text \<open>
  A clock reading is \<open>SystemTime::now().duration_since(UNIX_EPOCH)\<close>: seconds and
  nanoseconds, or \<open>None\<close> for a clock before the epoch.
\<close>

record world =
  entropy :: "u8 stream"
  clock :: "(u64 \<times> u32) option stream"

definition fill_bytes :: "nat \<Rightarrow> world \<Rightarrow> bytes \<times> world" where
  "fill_bytes n w = (stake n (entropy w), w\<lparr>entropy := sdrop n (entropy w)\<rparr>)"

text \<open>A third-party sampler run on the entropy of the world.\<close>

definition draw :: "(u8 stream \<Rightarrow> 'a \<times> u8 stream) \<Rightarrow> world \<Rightarrow> 'a \<times> world" where
  "draw f w = (let (x, e) = f (entropy w) in (x, w\<lparr>entropy := e\<rparr>))"

definition now_seconds :: "world \<Rightarrow> f64 \<times> world" where
  "now_seconds w =
     ((case shd (clock w) of Some (s, n) \<Rightarrow> as_secs_f64 s n | None \<Rightarrow> Fin 0),
      w\<lparr>clock := stl (clock w)\<rparr>)"

lemma fill_bytes_length: "fill_bytes n w = (bs, w') \<Longrightarrow> length bs = n"
  by (auto simp: fill_bytes_def)

lemma fill_bytes_clock: "fill_bytes n w = (bs, w') \<Longrightarrow> clock w' = clock w"
  by (auto simp: fill_bytes_def)

section \<open>The third-party primitives\<close>

text \<open>
  \<^item> \<open>x25519_random\<close>, \<open>x25519_pub\<close>, \<open>x25519_dh\<close>: \<open>x25519_dalek\<close>'s
    \<open>StaticSecret::random_from_rng\<close> (as the bytes of \<open>to_bytes\<close>), \<open>PublicKey::from\<close> and
    \<open>diffie_hellman\<close> (secret first).
  \<^item> \<open>mlkem_generate\<close>, \<open>mlkem_encap\<close>, \<open>mlkem_decap\<close>: \<open>ml_kem\<close>'s \<open>MlKem768::generate\<close>
    (decapsulation key, encapsulation key), \<open>encapsulate\<close> (ciphertext, secret) and
    \<open>decapsulate\<close>, \<open>None\<close> being their error.
  \<^item> \<open>hkdf_sha256\<close> salt, input key material, info: the 32-byte output of \<open>Hkdf::<Sha256>\<close>. The
    crate asks for exactly 32 bytes everywhere, a length \<open>expand\<close> accepts.
  \<^item> \<open>gcm_encrypt\<close>, \<open>gcm_decrypt\<close> key, nonce, associated data, text: \<open>aes_gcm\<close>'s
    \<open>Aes256Gcm\<close>; an absent payload is the empty associated data.
  \<^item> \<open>hmac_sha256\<close> key, message: the \<open>hmac\<close> crate, over everything fed to \<open>update\<close>.
  \<^item> \<open>ct_eq\<close>: the \<open>subtle\<close> crate's constant-time comparison of two slices.
\<close>

record prims =
  x25519_random :: "u8 stream \<Rightarrow> bytes \<times> u8 stream"
  x25519_pub :: "bytes \<Rightarrow> bytes"
  x25519_dh :: "bytes \<Rightarrow> bytes \<Rightarrow> bytes"
  mlkem_generate :: "u8 stream \<Rightarrow> (bytes \<times> bytes) \<times> u8 stream"
  mlkem_encap :: "bytes \<Rightarrow> u8 stream \<Rightarrow> (bytes \<times> bytes) option \<times> u8 stream"
  mlkem_decap :: "bytes \<Rightarrow> bytes \<Rightarrow> bytes option"
  hkdf_sha256 :: "bytes \<Rightarrow> bytes \<Rightarrow> bytes \<Rightarrow> bytes"
  gcm_encrypt :: "bytes \<Rightarrow> bytes \<Rightarrow> bytes \<Rightarrow> bytes \<Rightarrow> bytes option"
  gcm_decrypt :: "bytes \<Rightarrow> bytes \<Rightarrow> bytes \<Rightarrow> bytes \<Rightarrow> bytes option"
  hmac_sha256 :: "bytes \<Rightarrow> bytes \<Rightarrow> bytes"
  ct_eq :: "bytes \<Rightarrow> bytes \<Rightarrow> bool"

section \<open>Their documented laws\<close>

text \<open>X25519: sizes, and the agreement of the two parties' secrets.\<close>

definition x25519_laws :: "prims \<Rightarrow> bool" where
  "x25519_laws P \<longleftrightarrow>
     (\<forall>e. length (fst (x25519_random P e)) = 32) \<and>
     (\<forall>a. length (x25519_pub P a) = 32) \<and>
     (\<forall>a b. length (x25519_dh P a b) = 32) \<and>
     (\<forall>a b. length a = 32 \<longrightarrow> length b = 32 \<longrightarrow>
        x25519_dh P a (x25519_pub P b) = x25519_dh P b (x25519_pub P a))"

text \<open>
  ML-KEM-768: sizes, no error on inputs of the right size (a tampered ciphertext is implicitly
  rejected, not reported), and correctness of a key pair: what was encapsulated to the
  encapsulation key is decapsulated by the decapsulation key. FIPS 203 documents a failure rate
  below \<open>2 powr - 164\<close> for the last one; the law idealises it to none, so a property that has it
  as a hypothesis speaks of the keys and encapsulations that do not fail.
\<close>

definition mlkem_sizes :: "prims \<Rightarrow> bool" where
  "mlkem_sizes P \<longleftrightarrow>
     (\<forall>e dk ek e'. mlkem_generate P e = ((dk, ek), e') \<longrightarrow> length dk = 2400 \<and> length ek = 1184) \<and>
     (\<forall>ek e ct ss e'. mlkem_encap P ek e = (Some (ct, ss), e') \<longrightarrow>
        length ct = 1088 \<and> length ss = 32)"

definition mlkem_total :: "prims \<Rightarrow> bool" where
  "mlkem_total P \<longleftrightarrow>
     (\<forall>ek e. length ek = 1184 \<longrightarrow> fst (mlkem_encap P ek e) \<noteq> None) \<and>
     (\<forall>dk ct. length dk = 2400 \<longrightarrow> length ct = 1088 \<longrightarrow> mlkem_decap P dk ct \<noteq> None)"

definition mlkem_pair :: "prims \<Rightarrow> bytes \<Rightarrow> bytes \<Rightarrow> bool" where
  "mlkem_pair P ek dk \<longleftrightarrow>
     (\<forall>e ct ss e'. mlkem_encap P ek e = (Some (ct, ss), e') \<longrightarrow> mlkem_decap P dk ct = Some ss)"

definition mlkem_correct :: "prims \<Rightarrow> bool" where
  "mlkem_correct P \<longleftrightarrow>
     (\<forall>e dk ek e'. mlkem_generate P e = ((dk, ek), e') \<longrightarrow> mlkem_pair P ek dk)"

text \<open>HKDF-SHA256 and HMAC-SHA256 outputs have 32 bytes.\<close>

definition kdf_sizes :: "prims \<Rightarrow> bool" where
  "kdf_sizes P \<longleftrightarrow>
     (\<forall>salt ikm info. length (hkdf_sha256 P salt ikm info) = 32) \<and>
     (\<forall>k m. length (hmac_sha256 P k m) = 32)"

text \<open>\<open>subtle\<close> compares by value: slices of different length, or with a different byte, differ.\<close>

definition ct_eq_law :: "prims \<Rightarrow> bool" where
  "ct_eq_law P \<longleftrightarrow> (\<forall>a b. ct_eq P a b \<longleftrightarrow> a = b)"

lemma ct_eq_iff: "ct_eq_law P \<Longrightarrow> ct_eq P a b \<longleftrightarrow> a = b"
  by (simp add: ct_eq_law_def)

text \<open>
  AES-256-GCM: encryption of a message below the GCM length limit succeeds and appends a
  16-byte tag; decryption under the same key, nonce and associated data gives the message
  back; a text shorter than a tag is refused.
\<close>

definition gcm_laws :: "prims \<Rightarrow> bool" where
  "gcm_laws P \<longleftrightarrow>
     (\<forall>k n aad m. length k = 32 \<longrightarrow> length n = 12 \<longrightarrow> length m < 2 ^ 32 \<longrightarrow> length aad < 2 ^ 32 \<longrightarrow>
        gcm_encrypt P k n aad m \<noteq> None) \<and>
     (\<forall>k n aad m c. length k = 32 \<longrightarrow> length n = 12 \<longrightarrow> gcm_encrypt P k n aad m = Some c \<longrightarrow>
        length c = length m + 16 \<and> gcm_decrypt P k n aad c = Some m) \<and>
     (\<forall>k n aad c. length c < 16 \<longrightarrow> gcm_decrypt P k n aad c = None)"

lemma gcm_encrypt_length:
  "\<lbrakk>gcm_laws P; length k = 32; length n = 12; gcm_encrypt P k n aad m = Some c\<rbrakk>
   \<Longrightarrow> length c = length m + 16"
  unfolding gcm_laws_def by blast

lemma gcm_decrypt_encrypt:
  "\<lbrakk>gcm_laws P; length k = 32; length n = 12; gcm_encrypt P k n aad m = Some c\<rbrakk>
   \<Longrightarrow> gcm_decrypt P k n aad c = Some m"
  unfolding gcm_laws_def by blast

lemma gcm_encrypt_total:
  "\<lbrakk>gcm_laws P; length k = 32; length n = 12; length m < 2 ^ 32; length aad < 2 ^ 32\<rbrakk>
   \<Longrightarrow> \<exists>c. gcm_encrypt P k n aad m = Some c"
  unfolding gcm_laws_def by blast

lemma kdf_length [simp]: "kdf_sizes P \<Longrightarrow> length (hkdf_sha256 P salt ikm info) = 32"
  by (simp add: kdf_sizes_def)

lemma hmac_length [simp]: "kdf_sizes P \<Longrightarrow> length (hmac_sha256 P k m) = 32"
  by (simp add: kdf_sizes_def)

lemma x25519_length [simp]:
  "x25519_laws P \<Longrightarrow> length (x25519_pub P a) = 32"
  "x25519_laws P \<Longrightarrow> length (x25519_dh P a b) = 32"
  "x25519_laws P \<Longrightarrow> x25519_random P e = (s, e') \<Longrightarrow> length s = 32"
  unfolding x25519_laws_def by (blast, blast, metis fst_conv)

lemma x25519_agree:
  "\<lbrakk>x25519_laws P; length a = 32; length b = 32\<rbrakk>
   \<Longrightarrow> x25519_dh P a (x25519_pub P b) = x25519_dh P b (x25519_pub P a)"
  unfolding x25519_laws_def by blast

text \<open>All of them together: what a correct set of crates provides.\<close>

definition prims_laws :: "prims \<Rightarrow> bool" where
  "prims_laws P \<longleftrightarrow> x25519_laws P \<and> mlkem_sizes P \<and> mlkem_total P \<and> mlkem_correct P \<and>
     kdf_sizes P \<and> gcm_laws P"

lemma prims_lawsD:
  assumes "prims_laws P"
  shows "x25519_laws P" "mlkem_sizes P" "mlkem_total P" "mlkem_correct P" "kdf_sizes P"
    "gcm_laws P"
  using assms by (simp_all add: prims_laws_def)

end
