(* ===== verification/Kem.thy ===== *)
theory Kem
  imports World
begin

text \<open>
  The hybrid KEM of \<open>src/src/kem.rs\<close>: wire lengths, \<open>KemError\<close>, the concat-then-KDF combiner
  and the three operations. The interface the other components rely on is the locale
  \<open>hybrid_kem\<close>; its interpretation \<open>kem\<close> rests on the laws of the third-party crates only
  through the key-pair predicate \<open>kem_pair\<close>.
\<close>

section \<open>Constants and errors\<close>

definition SUITE_ID :: rstr where
  "SUITE_ID = lit ''x25519-mlkem768''"

definition HKDF_INFO :: bytes where
  "HKDF_INFO = blit ''sk_pqc/x25519-mlkem768/v1''"

declare HKDF_INFO_def [key_labels]

definition X25519_PUB_LEN :: nat where "X25519_PUB_LEN = 32"
definition X25519_SEED_LEN :: nat where "X25519_SEED_LEN = 32"
definition MLKEM_PUB_LEN :: nat where "MLKEM_PUB_LEN = 1184"
definition MLKEM_SECRET_LEN :: nat where "MLKEM_SECRET_LEN = 2400"
definition MLKEM_CT_LEN :: nat where "MLKEM_CT_LEN = 1088"

definition PUBLIC_KEY_LEN :: nat where
  "PUBLIC_KEY_LEN = X25519_PUB_LEN + MLKEM_PUB_LEN"
definition PRIVATE_KEY_LEN :: nat where
  "PRIVATE_KEY_LEN = X25519_SEED_LEN + MLKEM_SECRET_LEN"
definition CIPHERTEXT_LEN :: nat where
  "CIPHERTEXT_LEN = X25519_PUB_LEN + MLKEM_CT_LEN"
definition SHARED_SECRET_LEN :: nat where "SHARED_SECRET_LEN = 32"

lemma kem_lengths [simp]:
  "X25519_PUB_LEN = 32" "X25519_SEED_LEN = 32" "MLKEM_PUB_LEN = 1184" "MLKEM_SECRET_LEN = 2400"
  "MLKEM_CT_LEN = 1088" "PUBLIC_KEY_LEN = 1216" "PRIVATE_KEY_LEN = 2432"
  "CIPHERTEXT_LEN = 1120" "SHARED_SECRET_LEN = 32"
  by (simp_all add: X25519_PUB_LEN_def X25519_SEED_LEN_def MLKEM_PUB_LEN_def
      MLKEM_SECRET_LEN_def MLKEM_CT_LEN_def PUBLIC_KEY_LEN_def PRIVATE_KEY_LEN_def
      CIPHERTEXT_LEN_def SHARED_SECRET_LEN_def)

datatype kem_error = BadLength rstr nat nat | MlKem rstr

fun kem_error_display :: "kem_error \<Rightarrow> rstr" where
  "kem_error_display (BadLength what ex got) =
     what @ lit '' must be '' @ dec ex @ lit '' bytes, got '' @ dec got"
| "kem_error_display (MlKem msg) = lit ''ML-KEM error: '' @ msg"

definition expect_len :: "rstr \<Rightarrow> bytes \<Rightarrow> nat \<Rightarrow> (kem_error, unit) res" where
  "expect_len what value expected =
     (if length value \<noteq> expected then Err (BadLength what expected (length value)) else Ok ())"

section \<open>Operations\<close>

record HybridKeyPair =
  public_key :: bytes
  private_key :: bytes

definition combine :: "prims \<Rightarrow> bytes \<Rightarrow> bytes \<Rightarrow> bytes" where
  "combine P x25519_ss mlkem_ss =
     (let ikm = x25519_ss @ mlkem_ss in hkdf_sha256 P [] ikm HKDF_INFO)"

definition hybrid_keypair :: "prims \<Rightarrow> world \<Rightarrow> HybridKeyPair \<times> world" where
  "hybrid_keypair P w =
     (let (x_seed, w1) = draw (x25519_random P) w;
          x_pub = x25519_pub P x_seed;
          ((dk, ek), w2) = draw (mlkem_generate P) w1
      in (\<lparr>public_key = x_pub @ ek, private_key = x_seed @ dk\<rparr>, w2))"

text \<open>
  The slice conversions into the fixed-size ML-KEM arrays fail on a wrong length only; after
  the first check their error branches cannot be taken (\<open>hybrid_encap_eq\<close>, \<open>hybrid_decap_eq\<close>).
\<close>

definition hybrid_encap :: "prims \<Rightarrow> bytes \<Rightarrow> world \<Rightarrow> (kem_error, bytes \<times> bytes) res \<times> world" where
  "hybrid_encap P peer_public_key w =
     (case expect_len (lit ''hybrid public key'') peer_public_key PUBLIC_KEY_LEN of
        Err e \<Rightarrow> (Err e, w)
      | Panic \<Rightarrow> (Panic, w)
      | Ok _ \<Rightarrow>
        (let x_peer = take X25519_PUB_LEN peer_public_key;
             mlkem_pub = drop X25519_PUB_LEN peer_public_key
         in if length mlkem_pub \<noteq> MLKEM_PUB_LEN
            then (Err (BadLength (lit ''ML-KEM public key'') MLKEM_PUB_LEN (length mlkem_pub)), w)
            else
             (let (x_eph, w1) = draw (x25519_random P) w;
                  x_eph_pub = x25519_pub P x_eph;
                  x_ss = x25519_dh P x_eph x_peer;
                  (enc, w2) = draw (mlkem_encap P mlkem_pub) w1
              in (case enc of
                    None \<Rightarrow> (Err (MlKem (lit ''encapsulation failed'')), w2)
                  | Some (ct, mlkem_ss) \<Rightarrow> (Ok (x_eph_pub @ ct, combine P x_ss mlkem_ss), w2)))))"

definition hybrid_decap :: "prims \<Rightarrow> bytes \<Rightarrow> bytes \<Rightarrow> (kem_error, bytes) res" where
  "hybrid_decap P ciphertext priv =
     and_then (expect_len (lit ''hybrid ciphertext'') ciphertext CIPHERTEXT_LEN) (\<lambda>_.
     and_then (expect_len (lit ''hybrid private key'') priv PRIVATE_KEY_LEN) (\<lambda>_.
       let x_eph_pub = take X25519_PUB_LEN ciphertext;
           mlkem_ct = drop X25519_PUB_LEN ciphertext;
           x_seed = take X25519_SEED_LEN priv;
           mlkem_dk = drop X25519_SEED_LEN priv;
           x_ss = x25519_dh P x_seed x_eph_pub
       in if length mlkem_dk \<noteq> MLKEM_SECRET_LEN
          then Err (BadLength (lit ''ML-KEM secret key'') MLKEM_SECRET_LEN (length mlkem_dk))
          else if length mlkem_ct \<noteq> MLKEM_CT_LEN
          then Err (BadLength (lit ''ML-KEM ciphertext'') MLKEM_CT_LEN (length mlkem_ct))
          else (case mlkem_decap P mlkem_dk mlkem_ct of
                  None \<Rightarrow> Err (MlKem (lit ''decapsulation failed''))
                | Some mlkem_ss \<Rightarrow> Ok (combine P x_ss mlkem_ss))))"

section \<open>Branch behaviour\<close>

lemma expect_len_Ok [simp]: "length v = n \<Longrightarrow> expect_len what v n = Ok ()"
  by (simp add: expect_len_def)

lemma expect_len_Err [simp]: "length v \<noteq> n \<Longrightarrow> expect_len what v n = Err (BadLength what n (length v))"
  by (simp add: expect_len_def)

lemma hybrid_encap_bad_length:
  "length pk \<noteq> 1216 \<Longrightarrow>
   hybrid_encap P pk w = (Err (BadLength (lit ''hybrid public key'') 1216 (length pk)), w)"
  by (simp add: hybrid_encap_def)

lemma hybrid_encap_eq:
  assumes "length pk = 1216"
  shows "hybrid_encap P pk w =
     (let (x_eph, w1) = draw (x25519_random P) w; (enc, w2) = draw (mlkem_encap P (drop 32 pk)) w1
      in case enc of
           None \<Rightarrow> (Err (MlKem (lit ''encapsulation failed'')), w2)
         | Some (ct, ss) \<Rightarrow>
             (Ok (x25519_pub P x_eph @ ct, combine P (x25519_dh P x_eph (take 32 pk)) ss), w2))"
  using assms by (simp add: hybrid_encap_def)

lemma hybrid_decap_eq:
  assumes "length ct = 1120" "length sk = 2432"
  shows "hybrid_decap P ct sk =
     (case mlkem_decap P (drop 32 sk) (drop 32 ct) of
        None \<Rightarrow> Err (MlKem (lit ''decapsulation failed''))
      | Some ss \<Rightarrow> Ok (combine P (x25519_dh P (take 32 sk) (take 32 ct)) ss))"
  using assms by (simp add: hybrid_decap_def)

lemma hybrid_decap_bad_length:
  "length ct \<noteq> 1120 \<Longrightarrow>
     hybrid_decap P ct sk = Err (BadLength (lit ''hybrid ciphertext'') 1120 (length ct))"
  "length ct = 1120 \<Longrightarrow> length sk \<noteq> 2432 \<Longrightarrow>
     hybrid_decap P ct sk = Err (BadLength (lit ''hybrid private key'') 2432 (length sk))"
  by (simp_all add: hybrid_decap_def)

lemma hybrid_encap_not_Panic: "fst (hybrid_encap P pk w) \<noteq> Panic"
  by (cases "length pk = 1216")
     (auto simp: hybrid_encap_eq hybrid_encap_bad_length split: option.split prod.split)

lemma hybrid_decap_not_Panic: "hybrid_decap P ct sk \<noteq> Panic"
  by (cases "length ct = 1120"; cases "length sk = 2432")
     (auto simp: hybrid_decap_eq hybrid_decap_bad_length split: option.split)

lemma draw_clock [simp]: "draw f w = (x, w') \<Longrightarrow> clock w' = clock w"
  by (auto simp: draw_def split: prod.splits)

lemma hybrid_encap_clock: "hybrid_encap P pk w = (r, w') \<Longrightarrow> clock w' = clock w"
  by (cases "length pk = 1216")
     (auto simp: hybrid_encap_eq hybrid_encap_bad_length Let_def
       split: option.splits prod.splits dest!: draw_clock)

section \<open>The KEM as an interface\<close>

text \<open>
  What the sealing components use of the KEM: a pair of matching keys, encapsulation that
  succeeds on the public one, and a ciphertext that the private one opens to the same secret.
\<close>

locale hybrid_kem =
  fixes encap :: "bytes \<Rightarrow> world \<Rightarrow> (kem_error, bytes \<times> bytes) res \<times> world"
    and decap :: "bytes \<Rightarrow> bytes \<Rightarrow> (kem_error, bytes) res"
    and keys :: "bytes \<Rightarrow> bytes \<Rightarrow> bool"
  assumes encap_total:
      "keys pk sk \<Longrightarrow> \<exists>ct ss w'. encap pk w = (Ok (ct, ss), w')"
    and encap_sizes:
      "keys pk sk \<Longrightarrow> encap pk w = (Ok (ct, ss), w') \<Longrightarrow> length ct = 1120 \<and> length ss = 32"
    and encap_decap:
      "keys pk sk \<Longrightarrow> encap pk w = (Ok (ct, ss), w') \<Longrightarrow> decap ct sk = Ok ss"
    and keys_sizes: "keys pk sk \<Longrightarrow> length pk = 1216 \<and> length sk = 2432"
    and encap_bad_key: "length pk \<noteq> 1216 \<Longrightarrow> \<exists>e. encap pk w = (Err e, w)"
    and encap_no_panic: "fst (encap pk w) \<noteq> Panic"
    and decap_no_panic: "decap ct sk \<noteq> Panic"
begin

lemma encapE:
  assumes "keys pk sk"
  obtains ct ss w' where "encap pk w = (Ok (ct, ss), w')" "length ct = 1120" "length ss = 32"
    "decap ct sk = Ok ss"
proof -
  obtain ct ss w' where e: "encap pk w = (Ok (ct, ss), w')" using encap_total [OF assms] by blast
  with encap_sizes [OF assms e] encap_decap [OF assms e] show ?thesis using that by blast
qed

lemma encap_key_size: "encap pk w = (Ok r, w') \<Longrightarrow> length pk = 1216"
  using encap_bad_key by (metis fst_conv res.distinct(1))

end

text \<open>A matching pair of composite keys, for primitives that satisfy the crates' laws.\<close>

definition kem_pair :: "prims \<Rightarrow> bytes \<Rightarrow> bytes \<Rightarrow> bool" where
  "kem_pair P pk sk \<longleftrightarrow>
     x25519_laws P \<and> mlkem_sizes P \<and> mlkem_total P \<and> kdf_sizes P \<and>
     length pk = 1216 \<and> length sk = 2432 \<and>
     take 32 pk = x25519_pub P (take 32 sk) \<and> mlkem_pair P (drop 32 pk) (drop 32 sk)"

lemma hybrid_keypair_kem_pair:
  assumes laws: "prims_laws P" and kp: "hybrid_keypair P w = (kp, w')"
  shows "kem_pair P (public_key kp) (private_key kp)"
proof -
  note L = prims_lawsD [OF laws]
  obtain xs e1 where x: "x25519_random P (entropy w) = (xs, e1)" by fastforce
  obtain dk ek e2 where m: "mlkem_generate P e1 = ((dk, ek), e2)" by (metis prod.collapse)
  have kp_eq: "kp = \<lparr>public_key = x25519_pub P xs @ ek, private_key = xs @ dk\<rparr>"
    using kp x m by (simp add: hybrid_keypair_def draw_def)
  have "length xs = 32" using L(1) x by simp
  moreover have "length dk = 2400 \<and> length ek = 1184" using L(2) m unfolding mlkem_sizes_def by blast
  moreover have "mlkem_pair P ek dk" using L(4) m unfolding mlkem_correct_def by blast
  ultimately show ?thesis using L by (simp add: kem_pair_def kp_eq)
qed

lemma kem_pair_encap:
  assumes "kem_pair P pk sk"
  shows "\<exists>ct ss w'. hybrid_encap P pk w = (Ok (ct, ss), w')"
proof -
  have sz: "length pk = 1216" "length (drop 32 pk) = 1184" using assms by (simp_all add: kem_pair_def)
  obtain xs e1 where x: "x25519_random P (entropy w) = (xs, e1)" by fastforce
  have "fst (mlkem_encap P (drop 32 pk) e1) \<noteq> None"
    using assms sz(2) unfolding kem_pair_def mlkem_total_def by blast
  then obtain c s e2 where "mlkem_encap P (drop 32 pk) e1 = (Some (c, s), e2)"
    by (metis not_None_eq prod.collapse)
  then show ?thesis using x by (simp add: hybrid_encap_eq [OF sz(1)] draw_def)
qed

lemma hybrid_encap_OkE:
  assumes "hybrid_encap P pk w = (Ok (ct, ss), w')"
  obtains xs e1 c s e2 where
    "length pk = 1216" "x25519_random P (entropy w) = (xs, e1)"
    "mlkem_encap P (drop 32 pk) e1 = (Some (c, s), e2)"
    "ct = x25519_pub P xs @ c" "ss = combine P (x25519_dh P xs (take 32 pk)) s"
    "w' = w\<lparr>entropy := e2\<rparr>"
proof -
  have sz: "length pk = 1216" using assms hybrid_encap_bad_length [of pk P w] by (cases "length pk = 1216") auto
  obtain xs e1 where x: "x25519_random P (entropy w) = (xs, e1)" by fastforce
  obtain enc e2 where m: "mlkem_encap P (drop 32 pk) e1 = (enc, e2)" by fastforce
  from assms show ?thesis
    using that sz x m by (auto simp: hybrid_encap_eq [OF sz] draw_def split: option.splits)
qed

lemma kem_pair_roundtrip:
  assumes pair: "kem_pair P pk sk" and enc: "hybrid_encap P pk w = (Ok (ct, ss), w')"
  shows "length ct = 1120 \<and> length ss = 32 \<and> hybrid_decap P ct sk = Ok ss"
proof -
  have laws: "x25519_laws P" "mlkem_sizes P" "kdf_sizes P" and sk: "length sk = 2432"
    and pub: "take 32 pk = x25519_pub P (take 32 sk)" and mp: "mlkem_pair P (drop 32 pk) (drop 32 sk)"
    using pair by (simp_all add: kem_pair_def)
  obtain xs e1 c s e2 where x: "x25519_random P (entropy w) = (xs, e1)"
    and m: "mlkem_encap P (drop 32 pk) e1 = (Some (c, s), e2)"
    and ct: "ct = x25519_pub P xs @ c" and ss: "ss = combine P (x25519_dh P xs (take 32 pk)) s"
    using enc by (rule hybrid_encap_OkE)
  have c: "length c = 1088" using laws(2) m unfolding mlkem_sizes_def by blast
  have xs: "length xs = 32" using laws(1) x by simp
  have ctl: "length ct = 1120" using laws c by (simp add: ct)
  have "x25519_dh P xs (x25519_pub P (take 32 sk)) = x25519_dh P (take 32 sk) (x25519_pub P xs)"
    using laws(1) xs sk by (intro x25519_agree) simp_all
  moreover have "mlkem_decap P (drop 32 sk) c = Some s" using mp m unfolding mlkem_pair_def by blast
  moreover have "take 32 ct = x25519_pub P xs" "drop 32 ct = c" using laws by (simp_all add: ct)
  ultimately have "hybrid_decap P ct sk = Ok ss"
    by (simp add: hybrid_decap_eq [OF ctl sk] ss pub)
  then show ?thesis using ctl laws by (simp add: ss combine_def)
qed

interpretation kem: hybrid_kem "hybrid_encap P" "hybrid_decap P" "kem_pair P" for P
proof
  fix pk sk w ct ss w'
  show "kem_pair P pk sk \<Longrightarrow> \<exists>ct ss w'. hybrid_encap P pk w = (Ok (ct, ss), w')"
    by (rule kem_pair_encap)
  show "kem_pair P pk sk \<Longrightarrow> hybrid_encap P pk w = (Ok (ct, ss), w') \<Longrightarrow>
      length ct = 1120 \<and> length ss = 32"
    using kem_pair_roundtrip by blast
  show "kem_pair P pk sk \<Longrightarrow> hybrid_encap P pk w = (Ok (ct, ss), w') \<Longrightarrow> hybrid_decap P ct sk = Ok ss"
    using kem_pair_roundtrip by blast
  show "kem_pair P pk sk \<Longrightarrow> length pk = 1216 \<and> length sk = 2432"
    by (simp add: kem_pair_def)
  show "length pk \<noteq> 1216 \<Longrightarrow> \<exists>e. hybrid_encap P pk w = (Err e, w)"
    by (simp add: hybrid_encap_bad_length)
qed (simp_all add: hybrid_encap_not_Panic hybrid_decap_not_Panic)

end
