(* ===== verification/Sealing.thy ===== *)
theory Sealing
  imports Kem
begin

text \<open>
  The construction that four modules of the crate share: encapsulate to the peer, derive a wrap
  key from the shared secret, encrypt with AES-256-GCM, and send
  \<open>ciphertext(1120) || nonce(12) || body\<close>. The locale \<open>kem_dem\<close> states it over any KEM, key
  derivation and AEAD that keep their laws, so that each module proves its round trip once it
  has interpreted the locale with its own key derivation.
\<close>

section \<open>Cutting a sealed blob\<close>

text \<open>The three slices \<open>blob[..1120]\<close>, \<open>blob[1120..1132]\<close> and \<open>blob[1132..]\<close>.\<close>

definition blob_ct :: "bytes \<Rightarrow> bytes" where
  "blob_ct blob = take CIPHERTEXT_LEN blob"

definition blob_nonce :: "bytes \<Rightarrow> bytes" where
  "blob_nonce blob = take 12 (drop CIPHERTEXT_LEN blob)"

definition blob_body :: "bytes \<Rightarrow> bytes" where
  "blob_body blob = drop (CIPHERTEXT_LEN + 12) blob"

lemma blob_parts:
  "length ct = 1120 \<Longrightarrow> length n = 12 \<Longrightarrow> blob_ct (ct @ n @ c) = ct"
  "length ct = 1120 \<Longrightarrow> length n = 12 \<Longrightarrow> blob_nonce (ct @ n @ c) = n"
  "length ct = 1120 \<Longrightarrow> length n = 12 \<Longrightarrow> blob_body (ct @ n @ c) = c"
  by (simp_all add: blob_ct_def blob_nonce_def blob_body_def)

lemma blob_join: "blob_ct b @ blob_nonce b @ blob_body b = b"
proof -
  have "drop (CIPHERTEXT_LEN + 12) b = drop 12 (drop CIPHERTEXT_LEN b)" by simp
  then show ?thesis by (simp only: blob_ct_def blob_nonce_def blob_body_def append_take_drop_id)
qed

lemma blob_lengths:
  assumes "1132 \<le> length b"
  shows "length (blob_ct b) = 1120" "length (blob_nonce b) = 12"
    "length (blob_body b) = length b - 1132"
  using assms by (simp_all add: blob_ct_def blob_nonce_def blob_body_def)

section \<open>KEM, key derivation and AEAD together\<close>

locale kem_dem = hybrid_kem encap decap keys
  for encap :: "bytes \<Rightarrow> world \<Rightarrow> (kem_error, bytes \<times> bytes) res \<times> world"
    and decap :: "bytes \<Rightarrow> bytes \<Rightarrow> (kem_error, bytes) res"
    and keys :: "bytes \<Rightarrow> bytes \<Rightarrow> bool" +
  fixes kdf :: "bytes \<Rightarrow> bytes \<Rightarrow> bytes"
    and aenc :: "bytes \<Rightarrow> bytes \<Rightarrow> bytes \<Rightarrow> bytes \<Rightarrow> bytes option"
    and adec :: "bytes \<Rightarrow> bytes \<Rightarrow> bytes \<Rightarrow> bytes \<Rightarrow> bytes option"
  assumes kdf_size: "keys pk sk \<Longrightarrow> length (kdf shared ctx) = 32"
    and aead_total: "keys pk sk \<Longrightarrow> length k = 32 \<Longrightarrow> length n = 12 \<Longrightarrow> length m < 2 ^ 32 \<Longrightarrow>
      length aad < 2 ^ 32 \<Longrightarrow> \<exists>c. aenc k n aad m = Some c"
    and aead_open: "keys pk sk \<Longrightarrow> length k = 32 \<Longrightarrow> length n = 12 \<Longrightarrow>
      aenc k n aad m = Some c \<Longrightarrow> length c = length m + 16 \<and> adec k n aad c = Some m"
begin

text \<open>A sealed blob: its three parts, and what the owner of the private key makes of them.\<close>

lemma sealed_opens:
  assumes pair: "keys pk sk" and enc: "encap pk w = (Ok (ct, ss), w')" and n: "length n = 12"
    and body: "aenc (kdf ss ctx) n aad m = Some c"
  shows "blob_ct (ct @ n @ c) = ct" "blob_nonce (ct @ n @ c) = n" "blob_body (ct @ n @ c) = c"
    "decap ct sk = Ok ss" "adec (kdf ss ctx) n aad c = Some m"
    "length (ct @ n @ c) = 1148 + length m"
proof -
  have ct: "length ct = 1120" using encap_sizes [OF pair enc] by simp
  note a = aead_open [OF pair kdf_size [OF pair] n body]
  show "blob_ct (ct @ n @ c) = ct" "blob_nonce (ct @ n @ c) = n" "blob_body (ct @ n @ c) = c"
    using ct n by (simp_all add: blob_parts)
  show "decap ct sk = Ok ss" by (rule encap_decap [OF pair enc])
  show "adec (kdf ss ctx) n aad c = Some m" using a by simp
  show "length (ct @ n @ c) = 1148 + length m" using a ct n by simp
qed

text \<open>Sealing under a matching key succeeds for a message below the AEAD limit.\<close>

lemma seal_total:
  assumes pair: "keys pk sk" and n: "length n = 12" and m: "length m < 2 ^ 32" "length aad < 2 ^ 32"
  obtains ct ss w' c where "encap pk w = (Ok (ct, ss), w')" "aenc (kdf ss ctx) n aad m = Some c"
proof -
  obtain ct ss w' where e: "encap pk w = (Ok (ct, ss), w')" using encap_total [OF pair] by blast
  obtain c where "aenc (kdf ss ctx) n aad m = Some c"
    using aead_total [OF pair kdf_size [OF pair] n m] by blast
  with e show ?thesis by (rule that)
qed

end

text \<open>Key pairs for primitives that satisfy the AEAD's laws as well.\<close>

definition seal_pair :: "prims \<Rightarrow> bytes \<Rightarrow> bytes \<Rightarrow> bool" where
  "seal_pair P pk sk \<longleftrightarrow> kem_pair P pk sk \<and> gcm_laws P"

lemma hybrid_keypair_seal_pair:
  "prims_laws P \<Longrightarrow> hybrid_keypair P w = (kp, w') \<Longrightarrow> seal_pair P (public_key kp) (private_key kp)"
  by (simp add: seal_pair_def hybrid_keypair_kem_pair prims_lawsD)

text \<open>Any key derivation with 32-byte output gives an instance over the crate's KEM.\<close>

lemma kem_dem_instance:
  assumes "\<And>shared ctx. kdf_sizes P \<Longrightarrow> length (kdf shared ctx) = 32"
  shows "kem_dem (hybrid_encap P) (hybrid_decap P) (seal_pair P) kdf (gcm_encrypt P) (gcm_decrypt P)"
proof
  fix pk sk w ct ss w' shared ctx k n aad m c
  show "seal_pair P pk sk \<Longrightarrow> \<exists>ct ss w'. hybrid_encap P pk w = (Ok (ct, ss), w')"
    unfolding seal_pair_def by (blast intro: kem.encap_total)
  show "seal_pair P pk sk \<Longrightarrow> hybrid_encap P pk w = (Ok (ct, ss), w') \<Longrightarrow>
      length ct = 1120 \<and> length ss = 32"
    unfolding seal_pair_def by (blast dest: kem.encap_sizes)
  show "seal_pair P pk sk \<Longrightarrow> hybrid_encap P pk w = (Ok (ct, ss), w') \<Longrightarrow> hybrid_decap P ct sk = Ok ss"
    unfolding seal_pair_def by (blast intro: kem.encap_decap)
  show "seal_pair P pk sk \<Longrightarrow> length pk = 1216 \<and> length sk = 2432"
    unfolding seal_pair_def by (blast dest: kem.keys_sizes)
  show "length pk \<noteq> 1216 \<Longrightarrow> \<exists>e. hybrid_encap P pk w = (Err e, w)" by (rule kem.encap_bad_key)
  show "fst (hybrid_encap P pk w) \<noteq> Panic" by (rule kem.encap_no_panic)
  show "hybrid_decap P ct sk \<noteq> Panic" by (rule kem.decap_no_panic)
  show "seal_pair P pk sk \<Longrightarrow> length (kdf shared ctx) = 32"
    using assms by (simp add: seal_pair_def kem_pair_def)
  show "seal_pair P pk sk \<Longrightarrow> length k = 32 \<Longrightarrow> length n = 12 \<Longrightarrow> length m < 2 ^ 32 \<Longrightarrow>
      length aad < 2 ^ 32 \<Longrightarrow> \<exists>c. gcm_encrypt P k n aad m = Some c"
    unfolding seal_pair_def by (blast intro: gcm_encrypt_total)
  show "seal_pair P pk sk \<Longrightarrow> length k = 32 \<Longrightarrow> length n = 12 \<Longrightarrow>
      gcm_encrypt P k n aad m = Some c \<Longrightarrow> length c = length m + 16 \<and> gcm_decrypt P k n aad c = Some m"
    unfolding seal_pair_def by (blast intro: gcm_encrypt_length gcm_decrypt_encrypt)
qed

end
