(* ===== verification/Epoch_Keys.thy ===== *)
theory Epoch_Keys
  imports World
begin

text \<open>
  What the direct-message ratchet and the group ratchet promise their callers: message keys are
  addressed by index, and drawing the next outbound key returns the current index with its key
  and advances the counter by one. The client lemmas, proved once, describe any number of
  draws. Also here: the \<open>+= 1\<close> of a \<open>u64\<close> counter in its two build profiles.
\<close>

section \<open>Counters\<close>

text \<open>
  \<open>x + 1\<close> on a \<open>u64\<close>: with overflow checks on (a debug build) the maximum panics, with
  overflow checks off (a release build) it wraps to 0.
\<close>

definition u64_succ :: "bool \<Rightarrow> u64 \<Rightarrow> u64 option" where
  "u64_succ overflow_checks x = (if overflow_checks \<and> x = - 1 then None else Some (x + 1))"

lemma u64_succ_below [simp]: "x \<noteq> - 1 \<Longrightarrow> u64_succ chk x = Some (x + 1)"
  by (simp add: u64_succ_def)

lemma unat_u64_max: "unat (- 1 :: u64) = 2 ^ 64 - 1"
  by (simp add: unsigned_minus_1_eq_mask mask_eq_exp_minus_1)

lemma u64_less_not_max: "x < (y :: u64) \<Longrightarrow> x \<noteq> - 1"
  by (metis leD word_n1_ge)

lemma unat_succ: "x \<noteq> - 1 \<Longrightarrow> unat (x + 1 :: u64) = Suc (unat x)"
  by (metis add.commute add.right_inverse unatSuc minus_equation_iff add_eq_0_iff)

section \<open>Drawing several keys\<close>

text \<open>\<open>n\<close> successive calls of a ratchet's \<open>next_outbound_key\<close>.\<close>

fun draws :: "('r \<Rightarrow> (unit, u64 \<times> bytes) res \<times> 'r) \<Rightarrow> nat \<Rightarrow> 'r \<Rightarrow>
    (unit, (u64 \<times> bytes) list) res \<times> 'r" where
  "draws f 0 r = (Ok [], r)"
| "draws f (Suc n) r =
     (case f r of
        (Ok x, r1) \<Rightarrow> (case draws f n r1 of (rest, r2) \<Rightarrow> (map_ok ((#) x) rest, r2))
      | (_, r1) \<Rightarrow> (Panic, r1))"

section \<open>The interface\<close>

locale epoch_keys =
  fixes ready :: "'r \<Rightarrow> bool"
    and index :: "'r \<Rightarrow> u64"
    and key_at :: "'r \<Rightarrow> u64 \<Rightarrow> bytes"
    and draw_next :: "'r \<Rightarrow> (unit, u64 \<times> bytes) res \<times> 'r"
  assumes draw_ready: "ready r \<Longrightarrow> index r \<noteq> - 1 \<Longrightarrow>
      \<exists>r'. draw_next r = (Ok (index r, key_at r (index r)), r') \<and> ready r' \<and>
           index r' = index r + 1 \<and> key_at r' = key_at r"
begin

lemma draws_spec:
  assumes "ready r" "unat (index r) + n < 2 ^ 64"
  shows "\<exists>r'. draws draw_next n r =
      (Ok (map (\<lambda>j. (index r + of_nat j, key_at r (index r + of_nat j))) [0..<n]), r') \<and>
      ready r' \<and> index r' = index r + of_nat n \<and> key_at r' = key_at r"
  using assms
proof (induction n arbitrary: r)
  case 0
  then show ?case by simp
next
  case (Suc n)
  have "unat (index r) \<noteq> unat (- 1 :: u64)" using Suc.prems(2) by (simp add: unat_u64_max)
  then have ne: "index r \<noteq> - 1" by metis
  obtain r1 where r1: "draw_next r = (Ok (index r, key_at r (index r)), r1)" "ready r1"
    "index r1 = index r + 1" "key_at r1 = key_at r"
    using draw_ready [OF Suc.prems(1) ne] by blast
  have "unat (index r1) + n < 2 ^ 64" using Suc.prems(2) unat_succ [OF ne] by (simp add: r1(3))
  from Suc.IH [OF r1(2) this] obtain r2 where r2: "draws draw_next n r1 =
      (Ok (map (\<lambda>j. (index r1 + of_nat j, key_at r1 (index r1 + of_nat j))) [0..<n]), r2)"
      "ready r2" "index r2 = index r1 + of_nat n" "key_at r2 = key_at r1" by blast
  have "map (\<lambda>j. (index r + of_nat j, key_at r (index r + of_nat j))) [0..<Suc n] =
      (index r, key_at r (index r)) #
      map (\<lambda>j. (index r1 + of_nat j, key_at r1 (index r1 + of_nat j))) [0..<n]"
    by (simp add: map_upt_Suc r1 add_ac del: upt_Suc)
  then show ?case using r1 r2 by (simp add: add_ac del: upt_Suc)
qed

end

end
