(* ===== verification/Ratchet.thy ===== *)
theory Ratchet
  imports Sealing Epoch_Keys
begin

text \<open>
  The direct-message epoch ratchet of \<open>src/src/ratchet.rs\<close>: the per-message key schedule, the
  hybrid wrap of an epoch secret, the re-key bound and the in-memory ratchet state.
\<close>

section \<open>Constants and errors\<close>

definition EPOCH_SECRET_LEN :: nat where "EPOCH_SECRET_LEN = 32"
definition MESSAGE_KEY_LEN :: nat where "MESSAGE_KEY_LEN = 32"
definition DEFAULT_REKEY_MSG_BOUND :: u64 where "DEFAULT_REKEY_MSG_BOUND = 50"
definition DEFAULT_REKEY_AGE_SECONDS :: u64 where "DEFAULT_REKEY_AGE_SECONDS = 7 * 24 * 3600"

definition EPOCH_SALT_PREFIX :: bytes where "EPOCH_SALT_PREFIX = blit ''skchat/dm-epoch/''"
definition MSG_INFO_PREFIX :: bytes where "MSG_INFO_PREFIX = blit ''skchat/dm-ratchet/msg/v1/''"
definition INFO_DM_WRAP :: bytes where "INFO_DM_WRAP = blit ''skchat/dm-ratchet/epoch-wrap/v1''"

declare EPOCH_SALT_PREFIX_def [key_labels] MSG_INFO_PREFIX_def [key_labels] INFO_DM_WRAP_def [key_labels]

definition WRAP_NONCE_LEN :: nat where "WRAP_NONCE_LEN = 12"
definition WRAPPED_SECRET_LEN :: nat where "WRAPPED_SECRET_LEN = EPOCH_SECRET_LEN + 16"
definition WRAPPED_PAYLOAD_LEN :: nat where
  "WRAPPED_PAYLOAD_LEN = CIPHERTEXT_LEN + WRAP_NONCE_LEN + WRAPPED_SECRET_LEN"

lemma ratchet_lengths [simp]:
  "EPOCH_SECRET_LEN = 32" "MESSAGE_KEY_LEN = 32" "WRAP_NONCE_LEN = 12"
  "WRAPPED_SECRET_LEN = 48" "WRAPPED_PAYLOAD_LEN = 1180"
  by (simp_all add: EPOCH_SECRET_LEN_def MESSAGE_KEY_LEN_def WRAP_NONCE_LEN_def
      WRAPPED_SECRET_LEN_def WRAPPED_PAYLOAD_LEN_def)

datatype ratchet_error =
  BadSecretLen nat | BadPublicKeyLen nat | BadPayloadLen nat | RatchetKem kem_error | UnwrapFailed

fun ratchet_error_display :: "ratchet_error \<Rightarrow> rstr" where
  "ratchet_error_display (BadSecretLen got) =
     lit ''epoch_secret must be '' @ dec EPOCH_SECRET_LEN @ lit '' bytes, got '' @ dec got"
| "ratchet_error_display (BadPublicKeyLen got) =
     lit ''peer hybrid public key must be '' @ dec PUBLIC_KEY_LEN @ lit '' bytes, got '' @ dec got"
| "ratchet_error_display (BadPayloadLen got) =
     lit ''wrapped epoch payload must be '' @ dec WRAPPED_PAYLOAD_LEN @ lit '' bytes, got '' @ dec got"
| "ratchet_error_display (RatchetKem e) = lit ''hybrid KEM error: '' @ kem_error_display e"
| "ratchet_error_display UnwrapFailed = lit ''dm epoch-secret unwrap failed''"

section \<open>Key schedule\<close>

definition derive_dm_message_key :: "prims \<Rightarrow> bytes \<Rightarrow> u64 \<Rightarrow> u64 \<Rightarrow> (ratchet_error, bytes) res" where
  "derive_dm_message_key P epoch_secret epoch index =
     (if length epoch_secret \<noteq> EPOCH_SECRET_LEN then Err (BadSecretLen (length epoch_secret))
      else let salt = EPOCH_SALT_PREFIX @ u64_be epoch;
               info = MSG_INFO_PREFIX @ u64_be index
           in Ok (hkdf_sha256 P salt epoch_secret info))"

definition should_rekey :: "u64 \<Rightarrow> f64 \<Rightarrow> f64 \<Rightarrow> u64 \<Rightarrow> u64 \<Rightarrow> bool" where
  "should_rekey message_index epoch_started_at now rekey_msg_bound rekey_age_seconds =
     (if rekey_msg_bound \<le> message_index then True
      else f64_ge (f64_sub now epoch_started_at) (f64_of_nat (unat rekey_age_seconds)))"

definition dm_wrap_key :: "prims \<Rightarrow> bytes \<Rightarrow> bytes" where
  "dm_wrap_key P shared = hkdf_sha256 P [] shared INFO_DM_WRAP"

definition new_epoch_secret :: "world \<Rightarrow> bytes \<times> world" where
  "new_epoch_secret w = fill_bytes EPOCH_SECRET_LEN w"

section \<open>Wrapping an epoch secret\<close>

definition wrap_dm_epoch_secret ::
  "prims \<Rightarrow> bytes \<Rightarrow> bytes \<Rightarrow> world \<Rightarrow> (ratchet_error, bytes) res \<times> world" where
  "wrap_dm_epoch_secret P epoch_secret peer_hybrid_pub w =
     (if length epoch_secret \<noteq> EPOCH_SECRET_LEN then (Err (BadSecretLen (length epoch_secret)), w)
      else if length peer_hybrid_pub \<noteq> PUBLIC_KEY_LEN
      then (Err (BadPublicKeyLen (length peer_hybrid_pub)), w)
      else case hybrid_encap P peer_hybrid_pub w of
        (Err e, w1) \<Rightarrow> (Err (RatchetKem e), w1)
      | (Panic, w1) \<Rightarrow> (Panic, w1)
      | (Ok (ciphertext, shared), w1) \<Rightarrow>
          (let wrap_key = dm_wrap_key P shared;
               (nonce_bytes, w2) = fill_bytes WRAP_NONCE_LEN w1
           in case gcm_encrypt P wrap_key nonce_bytes [] epoch_secret of
                None \<Rightarrow> (Err UnwrapFailed, w2)
              | Some wrapped \<Rightarrow> (Ok (ciphertext @ nonce_bytes @ wrapped), w2)))"

definition unwrap_dm_epoch_secret :: "prims \<Rightarrow> bytes \<Rightarrow> bytes \<Rightarrow> (ratchet_error, bytes) res" where
  "unwrap_dm_epoch_secret P payload peer_hybrid_priv =
     (if length payload \<noteq> WRAPPED_PAYLOAD_LEN then Err (BadPayloadLen (length payload))
      else let ciphertext = blob_ct payload;
               nonce_bytes = blob_nonce payload;
               wrapped = blob_body payload
           in and_then (map_err RatchetKem (hybrid_decap P ciphertext peer_hybrid_priv)) (\<lambda>shared.
                let wrap_key = dm_wrap_key P shared
                in and_then (ok_or UnwrapFailed (gcm_decrypt P wrap_key nonce_bytes [] wrapped))
                     (\<lambda>plain. if length plain \<noteq> EPOCH_SECRET_LEN then Err UnwrapFailed
                              else Ok plain)))"

section \<open>Ratchet state\<close>

record DmRatchet =
  dr_epoch :: u64
  dr_epoch_secret :: bytes
  dr_message_index :: u64
  dr_rekey_msg_bound :: u64
  dr_rekey_age_seconds :: u64
  dr_epoch_started_at :: f64

definition DmRatchet_with_bounds :: "u64 \<Rightarrow> bytes \<Rightarrow> u64 \<Rightarrow> u64 \<Rightarrow> world \<Rightarrow> DmRatchet \<times> world" where
  "DmRatchet_with_bounds epoch epoch_secret rekey_msg_bound rekey_age_seconds w =
     (let (t, w1) = now_seconds w
      in (\<lparr>dr_epoch = epoch, dr_epoch_secret = epoch_secret, dr_message_index = 0,
           dr_rekey_msg_bound = rekey_msg_bound, dr_rekey_age_seconds = rekey_age_seconds,
           dr_epoch_started_at = t\<rparr>, w1))"

definition DmRatchet_new :: "u64 \<Rightarrow> bytes \<Rightarrow> world \<Rightarrow> DmRatchet \<times> world" where
  "DmRatchet_new epoch epoch_secret w =
     DmRatchet_with_bounds epoch epoch_secret DEFAULT_REKEY_MSG_BOUND DEFAULT_REKEY_AGE_SECONDS w"

definition DmRatchet_message_key ::
  "prims \<Rightarrow> DmRatchet \<Rightarrow> u64 option \<Rightarrow> (ratchet_error, bytes) res" where
  "DmRatchet_message_key P r index =
     (let idx = (case index of Some i \<Rightarrow> i | None \<Rightarrow> dr_message_index r)
      in derive_dm_message_key P (dr_epoch_secret r) (dr_epoch r) idx)"

text \<open>The key is derived, and its \<open>expect\<close> taken, before the counter is advanced.\<close>

definition DmRatchet_next_outbound_key ::
  "prims \<Rightarrow> bool \<Rightarrow> DmRatchet \<Rightarrow> (unit, u64 \<times> bytes) res \<times> DmRatchet" where
  "DmRatchet_next_outbound_key P chk r =
     (let idx = dr_message_index r
      in case derive_dm_message_key P (dr_epoch_secret r) (dr_epoch r) idx of
           Ok key \<Rightarrow>
             (case u64_succ chk (dr_message_index r) of
                None \<Rightarrow> (Panic, r)
              | Some i \<Rightarrow> (Ok (idx, key), r\<lparr>dr_message_index := i\<rparr>))
         | _ \<Rightarrow> (Panic, r))"

definition DmRatchet_should_rekey :: "DmRatchet \<Rightarrow> f64 option \<Rightarrow> world \<Rightarrow> bool \<times> world" where
  "DmRatchet_should_rekey r now w =
     (let (t, w1) = (case now of Some t \<Rightarrow> (t, w) | None \<Rightarrow> now_seconds w)
      in (should_rekey (dr_message_index r) (dr_epoch_started_at r) t
            (dr_rekey_msg_bound r) (dr_rekey_age_seconds r), w1))"

section \<open>The key schedule's inputs\<close>

text \<open>What a message key is derived from: HKDF salt, input key material and info.\<close>

definition dm_message_kdf_input :: "bytes \<Rightarrow> u64 \<Rightarrow> u64 \<Rightarrow> bytes \<times> bytes \<times> bytes" where
  "dm_message_kdf_input es epoch index =
     (EPOCH_SALT_PREFIX @ u64_be epoch, es, MSG_INFO_PREFIX @ u64_be index)"

lemma derive_dm_message_key_eq:
  "length es = 32 \<Longrightarrow> derive_dm_message_key P es epoch index =
     Ok (case dm_message_kdf_input es epoch index of (salt, ikm, info) \<Rightarrow> hkdf_sha256 P salt ikm info)"
  by (simp add: derive_dm_message_key_def dm_message_kdf_input_def)

lemma derive_dm_message_key_bad_len:
  "length es \<noteq> 32 \<Longrightarrow> derive_dm_message_key P es epoch index = Err (BadSecretLen (length es))"
  by (simp add: derive_dm_message_key_def)

lemma dm_message_kdf_input_inject [simp]:
  "dm_message_kdf_input es e i = dm_message_kdf_input es' e' i' \<longleftrightarrow> es = es' \<and> e = e' \<and> i = i'"
  by (auto simp: dm_message_kdf_input_def)

lemma derive_dm_message_key_OkD:
  "derive_dm_message_key P es e i = Ok k \<Longrightarrow> length es = 32"
  by (auto simp: derive_dm_message_key_def split: if_splits)

section \<open>Wrap and unwrap\<close>

interpretation dm_wrap: kem_dem "hybrid_encap P" "hybrid_decap P" "seal_pair P"
  "\<lambda>shared ctx. dm_wrap_key P shared" "gcm_encrypt P" "gcm_decrypt P" for P
  by (rule kem_dem_instance) (simp add: dm_wrap_key_def)

lemma wrap_dm_bad_input:
  "length es \<noteq> 32 \<Longrightarrow> wrap_dm_epoch_secret P es pk w = (Err (BadSecretLen (length es)), w)"
  "length es = 32 \<Longrightarrow> length pk \<noteq> 1216 \<Longrightarrow>
     wrap_dm_epoch_secret P es pk w = (Err (BadPublicKeyLen (length pk)), w)"
  by (simp_all add: wrap_dm_epoch_secret_def)

lemma wrap_dm_OkE:
  assumes "wrap_dm_epoch_secret P es pk w = (Ok payload, w')"
  obtains ct shared w1 nonce c where
    "length es = 32" "length pk = 1216" "hybrid_encap P pk w = (Ok (ct, shared), w1)"
    "fill_bytes 12 w1 = (nonce, w')" "gcm_encrypt P (dm_wrap_key P shared) nonce [] es = Some c"
    "payload = ct @ nonce @ c" "length nonce = 12"
  using assms unfolding wrap_dm_epoch_secret_def
  by (auto simp: Let_def dest: fill_bytes_length
      split: if_splits res.splits prod.splits option.splits)

lemma wrap_dm_not_Panic: "fst (wrap_dm_epoch_secret P es pk w) \<noteq> Panic"
  using hybrid_encap_not_Panic [of P pk w]
  by (auto simp: wrap_dm_epoch_secret_def Let_def split: res.split prod.split option.split)

lemma wrap_dm_total:
  assumes "seal_pair P pk sk" "length es = 32"
  obtains payload w' where "wrap_dm_epoch_secret P es pk w = (Ok payload, w')"
proof -
  obtain ct ss w1 where e: "hybrid_encap P pk w = (Ok (ct, ss), w1)"
    using dm_wrap.encap_total [OF assms(1)] by blast
  obtain n w2 where n: "fill_bytes 12 w1 = (n, w2)" by fastforce
  obtain c where "gcm_encrypt P (dm_wrap_key P ss) n [] es = Some c"
    using dm_wrap.aead_total [OF assms(1) dm_wrap.kdf_size [OF assms(1), of ss] fill_bytes_length [OF n]]
      assms(2) by fastforce
  with e n show ?thesis
    using that assms(2) dm_wrap.keys_sizes [OF assms(1)] by (simp add: wrap_dm_epoch_secret_def)
qed

lemma wrap_dm_opens:
  assumes pair: "seal_pair P pk sk" and wrap: "wrap_dm_epoch_secret P es pk w = (Ok payload, w')"
  shows "length payload = 1180" "unwrap_dm_epoch_secret P payload sk = Ok es"
proof -
  obtain ct ss w1 n c where es: "length es = 32" and e: "hybrid_encap P pk w = (Ok (ct, ss), w1)"
    and c: "gcm_encrypt P (dm_wrap_key P ss) n [] es = Some c" and p: "payload = ct @ n @ c"
    and n: "length n = 12"
    using wrap by (rule wrap_dm_OkE)
  note o = dm_wrap.sealed_opens [OF pair e n c]
  show len: "length payload = 1180" using o(6) es by (simp add: p)
  show "unwrap_dm_epoch_secret P payload sk = Ok es"
    using len o es by (simp add: unwrap_dm_epoch_secret_def p)
qed

text \<open>Every branch of \<open>unwrap_dm_epoch_secret\<close>, from its inputs.\<close>

lemma unwrap_dm_bad_payload:
  "length payload \<noteq> 1180 \<Longrightarrow>
     unwrap_dm_epoch_secret P payload sk = Err (BadPayloadLen (length payload))"
  by (simp add: unwrap_dm_epoch_secret_def)

lemma unwrap_dm_bad_key:
  assumes "length payload = 1180" "length sk \<noteq> 2432"
  shows "unwrap_dm_epoch_secret P payload sk =
    Err (RatchetKem (BadLength (lit ''hybrid private key'') 2432 (length sk)))"
  using assms blob_lengths(1) [of payload]
  by (simp add: unwrap_dm_epoch_secret_def hybrid_decap_bad_length)

lemma unwrap_dm_not_Panic: "unwrap_dm_epoch_secret P payload sk \<noteq> Panic"
  using hybrid_decap_not_Panic [of P "blob_ct payload" sk]
  by (auto simp: unwrap_dm_epoch_secret_def Let_def and_then_eq_Panic)

lemma unwrap_dm_OkD:
  "unwrap_dm_epoch_secret P payload sk = Ok es \<Longrightarrow> length payload = 1180 \<and> length es = 32"
  by (auto simp: unwrap_dm_epoch_secret_def Let_def and_then_eq_Ok split: if_splits)

lemma unwrap_dm_ErrD:
  assumes "length payload = 1180" "length sk = 2432" "mlkem_total P"
    and "unwrap_dm_epoch_secret P payload sk = Err e"
  shows "e = UnwrapFailed"
proof -
  have ct: "length (blob_ct payload) = 1120" using blob_lengths(1) assms(1) by simp
  have "mlkem_decap P (drop 32 sk) (drop 32 (blob_ct payload)) \<noteq> None"
    using assms(2,3) ct unfolding mlkem_total_def by simp
  then show ?thesis
    using assms ct
    by (auto simp: unwrap_dm_epoch_secret_def hybrid_decap_eq Let_def and_then_eq_Err split: if_splits)
qed

section \<open>The re-key bound and the outbound counter\<close>

lemma should_rekey_msg: "bound \<le> i \<Longrightarrow> should_rekey i started now bound age"
  by (simp add: should_rekey_def)

lemma should_rekey_not_msg: "\<not> should_rekey i started now bound age \<Longrightarrow> i < bound"
  by (auto simp: should_rekey_def split: if_splits)

definition dm_ready :: "DmRatchet \<Rightarrow> bool" where
  "dm_ready r \<longleftrightarrow> length (dr_epoch_secret r) = 32"

definition dm_key_at :: "prims \<Rightarrow> DmRatchet \<Rightarrow> u64 \<Rightarrow> bytes" where
  "dm_key_at P r i =
     (case dm_message_kdf_input (dr_epoch_secret r) (dr_epoch r) i of
        (salt, ikm, info) \<Rightarrow> hkdf_sha256 P salt ikm info)"

lemma dm_next_outbound:
  assumes "dm_ready r"
  shows "DmRatchet_next_outbound_key P chk r =
    (case u64_succ chk (dr_message_index r) of
       None \<Rightarrow> (Panic, r)
     | Some i \<Rightarrow> (Ok (dr_message_index r, dm_key_at P r (dr_message_index r)),
                  r\<lparr>dr_message_index := i\<rparr>))"
  using assms
  by (simp add: DmRatchet_next_outbound_key_def dm_ready_def derive_dm_message_key_eq dm_key_at_def
      Let_def split: option.split)

lemma dm_key_at_update [simp]: "dm_key_at P (r\<lparr>dr_message_index := i\<rparr>) = dm_key_at P r"
  by (rule ext) (simp add: dm_key_at_def)

interpretation dm_keys: epoch_keys dm_ready dr_message_index "dm_key_at P"
  "DmRatchet_next_outbound_key P chk" for P chk
  by unfold_locales (auto simp: dm_next_outbound, simp add: dm_ready_def)

end
