(* ===== verification/Group_Ratchet.thy ===== *)
theory Group_Ratchet
  imports Ratchet
begin

text \<open>
  The group epoch ratchet of \<open>src/src/group_ratchet.rs\<close>: key schedule, hybrid distribution of
  an epoch secret to each member, and the in-memory ratchet state. Its labels differ from
  those of the direct-message ratchet, and it checks the private key's length itself.
\<close>

section \<open>Constants and errors\<close>

definition HYBRID_KEM_SUITE :: rstr where "HYBRID_KEM_SUITE = lit ''x25519-mlkem768''"
definition GROUP_EPOCH_SECRET_LEN :: nat where "GROUP_EPOCH_SECRET_LEN = 32"
definition EPOCH_WRAP_INFO :: bytes where "EPOCH_WRAP_INFO = blit ''skchat/group-ratchet/epoch-wrap/v1''"
definition GROUP_SALT_PREFIX :: bytes where "GROUP_SALT_PREFIX = blit ''skchat/epoch/''"
definition GROUP_INFO_PREFIX :: bytes where "GROUP_INFO_PREFIX = blit ''skchat/group-ratchet/msg/v1/''"
declare EPOCH_WRAP_INFO_def [key_labels] GROUP_SALT_PREFIX_def [key_labels] GROUP_INFO_PREFIX_def [key_labels]

definition GROUP_NONCE_LEN :: nat where "GROUP_NONCE_LEN = 12"
definition GROUP_SECRET_WRAPPED_LEN :: nat where
  "GROUP_SECRET_WRAPPED_LEN = GROUP_EPOCH_SECRET_LEN + 16"
definition GROUP_PAYLOAD_LEN :: nat where
  "GROUP_PAYLOAD_LEN = CIPHERTEXT_LEN + GROUP_NONCE_LEN + GROUP_SECRET_WRAPPED_LEN"
definition GROUP_REKEY_MSG_BOUND :: u64 where "GROUP_REKEY_MSG_BOUND = 50"
definition GROUP_REKEY_AGE_SECONDS :: u64 where "GROUP_REKEY_AGE_SECONDS = 7 * 24 * 3600"

lemma group_lengths [simp]:
  "GROUP_EPOCH_SECRET_LEN = 32" "GROUP_NONCE_LEN = 12" "GROUP_SECRET_WRAPPED_LEN = 48"
  "GROUP_PAYLOAD_LEN = 1180"
  by (simp_all add: GROUP_EPOCH_SECRET_LEN_def GROUP_NONCE_LEN_def GROUP_SECRET_WRAPPED_LEN_def
      GROUP_PAYLOAD_LEN_def)

datatype group_ratchet_error =
  GBadSecretLen nat | GBadPublicKeyLen nat | GBadPrivateKeyLen nat | GBadPayloadLen nat |
  GKem kem_error | GUnwrapFailed

fun group_ratchet_error_display :: "group_ratchet_error \<Rightarrow> rstr" where
  "group_ratchet_error_display (GBadSecretLen got) =
     lit ''epoch_secret must be '' @ dec GROUP_EPOCH_SECRET_LEN @ lit '' bytes, got '' @ dec got"
| "group_ratchet_error_display (GBadPublicKeyLen got) =
     lit ''member hybrid public key must be '' @ dec PUBLIC_KEY_LEN @ lit '' bytes, got '' @ dec got"
| "group_ratchet_error_display (GBadPrivateKeyLen got) =
     lit ''member hybrid private key must be '' @ dec PRIVATE_KEY_LEN @ lit '' bytes, got '' @ dec got"
| "group_ratchet_error_display (GBadPayloadLen got) =
     lit ''wrapped epoch payload must be '' @ dec GROUP_PAYLOAD_LEN @ lit '' bytes, got '' @ dec got"
| "group_ratchet_error_display (GKem e) = lit ''hybrid KEM error: '' @ kem_error_display e"
| "group_ratchet_error_display GUnwrapFailed =
     lit ''epoch-secret unwrap failed (auth tag mismatch)''"

section \<open>Key schedule\<close>

definition derive_message_key_arr :: "prims \<Rightarrow> bytes \<Rightarrow> u64 \<Rightarrow> u64 \<Rightarrow> bytes" where
  "derive_message_key_arr P epoch_secret epoch index =
     (let salt = GROUP_SALT_PREFIX @ u64_be epoch;
          info = GROUP_INFO_PREFIX @ u64_be index
      in hkdf_sha256 P salt epoch_secret info)"

definition derive_message_key :: "prims \<Rightarrow> bytes \<Rightarrow> u64 \<Rightarrow> u64 \<Rightarrow> (group_ratchet_error, bytes) res" where
  "derive_message_key P epoch_secret epoch index =
     (if length epoch_secret \<noteq> GROUP_EPOCH_SECRET_LEN then Err (GBadSecretLen (length epoch_secret))
      else Ok (derive_message_key_arr P epoch_secret epoch index))"

section \<open>Wrapping an epoch secret\<close>

definition group_new_epoch_secret :: "world \<Rightarrow> bytes \<times> world" where
  "group_new_epoch_secret w = fill_bytes GROUP_EPOCH_SECRET_LEN w"

definition group_wrap_key :: "prims \<Rightarrow> bytes \<Rightarrow> bytes" where
  "group_wrap_key P shared = hkdf_sha256 P [] shared EPOCH_WRAP_INFO"

definition wrap_epoch_secret ::
  "prims \<Rightarrow> bytes \<Rightarrow> bytes \<Rightarrow> world \<Rightarrow> (group_ratchet_error, bytes) res \<times> world" where
  "wrap_epoch_secret P epoch_secret member_hybrid_pub w =
     (if length epoch_secret \<noteq> GROUP_EPOCH_SECRET_LEN
      then (Err (GBadSecretLen (length epoch_secret)), w)
      else if length member_hybrid_pub \<noteq> PUBLIC_KEY_LEN
      then (Err (GBadPublicKeyLen (length member_hybrid_pub)), w)
      else case hybrid_encap P member_hybrid_pub w of
        (Err e, w1) \<Rightarrow> (Err (GKem e), w1)
      | (Panic, w1) \<Rightarrow> (Panic, w1)
      | (Ok (ciphertext, shared), w1) \<Rightarrow>
          (let wrap_key = group_wrap_key P shared;
               (nonce_bytes, w2) = fill_bytes GROUP_NONCE_LEN w1
           in case gcm_encrypt P wrap_key nonce_bytes [] epoch_secret of
                None \<Rightarrow> (Err GUnwrapFailed, w2)
              | Some wrapped \<Rightarrow> (Ok (ciphertext @ nonce_bytes @ wrapped), w2)))"

definition unwrap_epoch_secret :: "prims \<Rightarrow> bytes \<Rightarrow> bytes \<Rightarrow> (group_ratchet_error, bytes) res" where
  "unwrap_epoch_secret P payload member_hybrid_priv =
     (if length payload \<noteq> GROUP_PAYLOAD_LEN then Err (GBadPayloadLen (length payload))
      else if length member_hybrid_priv \<noteq> PRIVATE_KEY_LEN
      then Err (GBadPrivateKeyLen (length member_hybrid_priv))
      else let ciphertext = blob_ct payload;
               nonce = blob_nonce payload;
               wrapped = blob_body payload
           in and_then (map_err GKem (hybrid_decap P ciphertext member_hybrid_priv)) (\<lambda>shared.
                let wrap_key = group_wrap_key P shared
                in and_then (ok_or GUnwrapFailed (gcm_decrypt P wrap_key nonce [] wrapped))
                     (\<lambda>plaintext. if length plaintext = GROUP_EPOCH_SECRET_LEN then Ok plaintext
                                  else Err (GBadSecretLen (length plaintext)))))"

section \<open>Ratchet state\<close>

record EpochRatchet =
  er_epoch :: u64
  er_epoch_secret :: bytes
  er_message_index :: u64
  er_rekey_msg_bound :: u64
  er_rekey_age_seconds :: u64
  er_epoch_started_at :: f64

definition now_unix :: "world \<Rightarrow> f64 \<times> world" where
  "now_unix w =
     ((case shd (clock w) of Some (s, n) \<Rightarrow> as_secs_f64 s n | None \<Rightarrow> Fin 0),
      w\<lparr>clock := stl (clock w)\<rparr>)"

definition EpochRatchet_new_with_started_at :: "u64 \<Rightarrow> bytes \<Rightarrow> f64 \<Rightarrow> EpochRatchet" where
  "EpochRatchet_new_with_started_at epoch epoch_secret epoch_started_at =
     \<lparr>er_epoch = epoch, er_epoch_secret = epoch_secret, er_message_index = 0,
      er_rekey_msg_bound = GROUP_REKEY_MSG_BOUND, er_rekey_age_seconds = GROUP_REKEY_AGE_SECONDS,
      er_epoch_started_at = epoch_started_at\<rparr>"

definition EpochRatchet_new :: "u64 \<Rightarrow> bytes \<Rightarrow> world \<Rightarrow> EpochRatchet \<times> world" where
  "EpochRatchet_new epoch epoch_secret w =
     (let (t, w1) = now_unix w
      in (\<lparr>er_epoch = epoch, er_epoch_secret = epoch_secret, er_message_index = 0,
           er_rekey_msg_bound = GROUP_REKEY_MSG_BOUND,
           er_rekey_age_seconds = GROUP_REKEY_AGE_SECONDS, er_epoch_started_at = t\<rparr>, w1))"

definition EpochRatchet_message_key :: "prims \<Rightarrow> EpochRatchet \<Rightarrow> u64 \<Rightarrow> bytes" where
  "EpochRatchet_message_key P r index =
     derive_message_key_arr P (er_epoch_secret r) (er_epoch r) index"

definition EpochRatchet_next_outbound_key ::
  "prims \<Rightarrow> bool \<Rightarrow> EpochRatchet \<Rightarrow> (unit, u64 \<times> bytes) res \<times> EpochRatchet" where
  "EpochRatchet_next_outbound_key P chk r =
     (let idx = er_message_index r;
          key = derive_message_key_arr P (er_epoch_secret r) (er_epoch r) idx
      in case u64_succ chk (er_message_index r) of
           None \<Rightarrow> (Panic, r)
         | Some i \<Rightarrow> (Ok (idx, key), r\<lparr>er_message_index := i\<rparr>))"

definition EpochRatchet_should_rekey :: "EpochRatchet \<Rightarrow> f64 \<Rightarrow> bool" where
  "EpochRatchet_should_rekey r now =
     (if er_rekey_msg_bound r \<le> er_message_index r then True
      else f64_ge (f64_sub now (er_epoch_started_at r)) (f64_of_nat (unat (er_rekey_age_seconds r))))"

section \<open>The interfaces the group ratchet provides\<close>

interpretation group_wrap: kem_dem "hybrid_encap P" "hybrid_decap P" "seal_pair P"
  "\<lambda>shared ctx. group_wrap_key P shared" "gcm_encrypt P" "gcm_decrypt P" for P
  by (rule kem_dem_instance) (simp add: group_wrap_key_def)

definition er_key_at :: "prims \<Rightarrow> EpochRatchet \<Rightarrow> u64 \<Rightarrow> bytes" where
  "er_key_at P r = EpochRatchet_message_key P r"

interpretation group_keys: epoch_keys "\<lambda>r. True" er_message_index "er_key_at P"
  "EpochRatchet_next_outbound_key P chk" for P chk
  by unfold_locales
    (auto simp: EpochRatchet_next_outbound_key_def er_key_at_def EpochRatchet_message_key_def
      fun_eq_iff Let_def)

section \<open>Wrap and unwrap\<close>

lemma wrap_group_OkE:
  assumes "wrap_epoch_secret P es pk w = (Ok payload, w')"
  obtains ct shared w1 nonce c where
    "length es = 32" "length pk = 1216" "hybrid_encap P pk w = (Ok (ct, shared), w1)"
    "fill_bytes 12 w1 = (nonce, w')" "gcm_encrypt P (group_wrap_key P shared) nonce [] es = Some c"
    "payload = ct @ nonce @ c" "length nonce = 12"
  using assms unfolding wrap_epoch_secret_def
  by (auto simp: Let_def dest: fill_bytes_length
      split: if_splits res.splits prod.splits option.splits)

lemma wrap_group_not_Panic: "fst (wrap_epoch_secret P es pk w) \<noteq> Panic"
  using hybrid_encap_not_Panic [of P pk w]
  by (auto simp: wrap_epoch_secret_def Let_def split: res.split prod.split option.split)

lemma wrap_group_total:
  assumes "seal_pair P pk sk" "length es = 32"
  obtains payload w' where "wrap_epoch_secret P es pk w = (Ok payload, w')"
proof -
  obtain ct ss w1 where e: "hybrid_encap P pk w = (Ok (ct, ss), w1)"
    using dm_wrap.encap_total [OF assms(1)] by blast
  obtain n w2 where n: "fill_bytes 12 w1 = (n, w2)" by fastforce
  obtain c where "gcm_encrypt P (group_wrap_key P ss) n [] es = Some c"
    using group_wrap.aead_total [OF assms(1) group_wrap.kdf_size [OF assms(1), of ss]
        fill_bytes_length [OF n]] assms(2) by fastforce
  with e n show ?thesis
    using that assms(2) dm_wrap.keys_sizes [OF assms(1)] by (simp add: wrap_epoch_secret_def)
qed

lemma wrap_group_opens:
  assumes pair: "seal_pair P pk sk" and wrap: "wrap_epoch_secret P es pk w = (Ok payload, w')"
  shows "length payload = 1180" "unwrap_epoch_secret P payload sk = Ok es"
proof -
  obtain ct ss w1 n c where es: "length es = 32" and e: "hybrid_encap P pk w = (Ok (ct, ss), w1)"
    and c: "gcm_encrypt P (group_wrap_key P ss) n [] es = Some c" and p: "payload = ct @ n @ c"
    and n: "length n = 12"
    using wrap by (rule wrap_group_OkE)
  note o = group_wrap.sealed_opens [OF pair e n c]
  show len: "length payload = 1180" using o(6) es by (simp add: p)
  show "unwrap_epoch_secret P payload sk = Ok es"
    using len o es dm_wrap.keys_sizes [OF pair] by (simp add: unwrap_epoch_secret_def p)
qed

lemma unwrap_group_not_Panic: "unwrap_epoch_secret P payload sk \<noteq> Panic"
  using hybrid_decap_not_Panic [of P "blob_ct payload" sk]
  by (auto simp: unwrap_epoch_secret_def Let_def and_then_eq_Panic)

lemma unwrap_group_OkD:
  "unwrap_epoch_secret P payload sk = Ok es \<Longrightarrow>
   length payload = 1180 \<and> length sk = 2432 \<and> length es = 32"
  by (auto simp: unwrap_epoch_secret_def Let_def and_then_eq_Ok split: if_splits)

text \<open>
  The key schedules of the two ratchets never feed the same input to HKDF, whatever the
  secret, epoch and index.
\<close>

definition group_message_kdf_input :: "bytes \<Rightarrow> u64 \<Rightarrow> u64 \<Rightarrow> bytes \<times> bytes \<times> bytes" where
  "group_message_kdf_input es epoch index =
     (GROUP_SALT_PREFIX @ u64_be epoch, es, GROUP_INFO_PREFIX @ u64_be index)"

lemma group_kdf_input_inject [simp]:
  "group_message_kdf_input es e i = group_message_kdf_input es' e' i' \<longleftrightarrow> es = es' \<and> e = e' \<and> i = i'"
  by (auto simp: group_message_kdf_input_def)

lemma group_key_eq:
  "derive_message_key_arr P es e i =
     (case group_message_kdf_input es e i of (salt, ikm, info) \<Rightarrow> hkdf_sha256 P salt ikm info)"
  by (simp add: derive_message_key_arr_def group_message_kdf_input_def Let_def)

section \<open>Distribution to a group\<close>

text \<open>
  The module wraps to one member; a group is reached by a caller that wraps one epoch secret to the
  members in turn. \<open>distribute\<close> is such a caller, to state what the wraps amount to: the payloads in
  order, stopping at the first failure.
\<close>

fun distribute ::
  "prims \<Rightarrow> bytes \<Rightarrow> bytes list \<Rightarrow> world \<Rightarrow> (group_ratchet_error, bytes list) res \<times> world" where
  "distribute P es [] w = (Ok [], w)"
| "distribute P es (pk # pks) w =
     (case wrap_epoch_secret P es pk w of
        (Ok payload, w1) \<Rightarrow>
          (case distribute P es pks w1 of (r, w2) \<Rightarrow> (map_ok ((#) payload) r, w2))
      | (Err e, w1) \<Rightarrow> (Err e, w1)
      | (Panic, w1) \<Rightarrow> (Panic, w1))"

lemma distribute_members:
  assumes "\<forall>(pk, sk) \<in> set members. seal_pair P pk sk" "length es = 32"
  shows "\<exists>payloads w'. distribute P es (map fst members) w = (Ok payloads, w') \<and>
    length payloads = length members \<and>
    (\<forall>j < length members. unwrap_epoch_secret P (payloads ! j) (snd (members ! j)) = Ok es)"
  using assms(1)
proof (induction members arbitrary: w)
  case Nil
  then show ?case by simp
next
  case (Cons m members)
  obtain pk sk where m: "m = (pk, sk)" by fastforce
  with Cons.prems have pair: "seal_pair P pk sk" by simp
  obtain payload w1 where wr: "wrap_epoch_secret P es pk w = (Ok payload, w1)"
    using wrap_group_total [OF pair assms(2)] by blast
  have "\<exists>payloads w'. distribute P es (map fst members) w1 = (Ok payloads, w') \<and>
    length payloads = length members \<and>
    (\<forall>j < length members. unwrap_epoch_secret P (payloads ! j) (snd (members ! j)) = Ok es)"
    by (rule Cons.IH) (use Cons.prems in auto)
  then obtain payloads w' where d: "distribute P es (map fst members) w1 = (Ok payloads, w')"
    "length payloads = length members"
    "\<forall>j < length members. unwrap_epoch_secret P (payloads ! j) (snd (members ! j)) = Ok es" by blast
  have "unwrap_epoch_secret P ((payload # payloads) ! j) (snd ((m # members) ! j)) = Ok es"
    if "j < length (m # members)" for j
    using that d(3) wrap_group_opens(2) [OF pair wr] m by (cases j) auto
  then show ?case using wr d m by simp
qed

lemma group_key_separated:
  "group_message_kdf_input es e i \<noteq> dm_message_kdf_input es' e' i'"
  by (simp add: group_message_kdf_input_def dm_message_kdf_input_def key_labels
      blit_def)

end
