(* ===== verification/Sample_Prims.thy ===== *)
theory Sample_Prims
  imports Kem
begin

text \<open>
  A concrete, executable set of primitives that satisfies every law of the third-party crates
  (it is no cryptography: keys are read off the wire). The witnesses of the development apply
  their theorems to it, which shows that the hypotheses can hold together.
\<close>

unbundle bit_operations_syntax

definition fit :: "nat \<Rightarrow> bytes \<Rightarrow> bytes" where
  "fit n xs = take n (xs @ replicate n 0)"

definition xor_bytes :: "bytes \<Rightarrow> bytes \<Rightarrow> bytes" where
  "xor_bytes a b = map2 (XOR) a b"

definition digest :: "bytes \<Rightarrow> u8" where
  "digest bs = foldl (\<lambda>a b. 3 * a + b + 1) 7 bs"

definition sample_encrypt :: "bytes \<Rightarrow> bytes \<Rightarrow> bytes \<Rightarrow> bytes \<Rightarrow> bytes option" where
  "sample_encrypt k n aad m = Some (m @ replicate 16 (digest (k @ n @ aad @ m)))"

definition sample_decrypt :: "bytes \<Rightarrow> bytes \<Rightarrow> bytes \<Rightarrow> bytes \<Rightarrow> bytes option" where
  "sample_decrypt k n aad c =
     (if length c < 16 then None
      else let m = take (length c - 16) c
           in if drop (length c - 16) c = replicate 16 (digest (k @ n @ aad @ m)) then Some m
              else None)"

definition sample_prims :: prims where
  "sample_prims = \<lparr>
     x25519_random = (\<lambda>e. (stake 32 e, sdrop 32 e)),
     x25519_pub = fit 32,
     x25519_dh = (\<lambda>a b. xor_bytes (fit 32 a) (fit 32 b)),
     mlkem_generate = (\<lambda>e. ((fit 2400 (stake 32 e), fit 1184 (stake 32 e)), sdrop 32 e)),
     mlkem_encap = (\<lambda>ek e. (Some (fit 1088 (xor_bytes (fit 32 ek) (stake 32 e)), stake 32 e), sdrop 32 e)),
     mlkem_decap = (\<lambda>dk ct. Some (xor_bytes (fit 32 dk) (fit 32 ct))),
     hkdf_sha256 = (\<lambda>salt ikm info. replicate 32 (digest (salt @ ikm @ info))),
     gcm_encrypt = sample_encrypt,
     gcm_decrypt = sample_decrypt,
     hmac_sha256 = (\<lambda>k m. replicate 32 (digest (k @ m))),
     ct_eq = (=)\<rparr>"

lemma length_fit [simp]: "length (fit n xs) = n"
  by (simp add: fit_def)

lemma fit_same [simp]: "length xs = n \<Longrightarrow> fit n xs = xs"
  by (simp add: fit_def)

lemma fit_fit [simp]: "m \<le> n \<Longrightarrow> fit m (fit n xs) = fit m xs"
  by (auto simp: fit_def min_def)

lemma length_xor_bytes [simp]: "length (xor_bytes a b) = min (length a) (length b)"
  by (simp add: xor_bytes_def)

lemma xor_bytes_commute: "xor_bytes a b = xor_bytes b a"
  by (rule nth_equalityI) (simp_all add: xor_bytes_def xor.commute min.commute)

lemma xor_cancel: "x XOR (x XOR y) = (y :: u8)"
  by (simp only: xor.assoc [symmetric] xor_self_eq xor.left_neutral)

lemma xor_bytes_cancel: "length a = length b \<Longrightarrow> xor_bytes a (xor_bytes a b) = b"
  unfolding xor_bytes_def
  by (induction a b rule: list_induct2)
     (simp_all only: zip_Cons_Cons list.map prod.case xor_cancel zip.simps list.case)

lemma sample_x25519: "x25519_laws sample_prims"
  unfolding x25519_laws_def by (simp add: sample_prims_def xor_bytes_commute)

lemma sample_mlkem_sizes: "mlkem_sizes sample_prims"
  unfolding mlkem_sizes_def by (auto simp: sample_prims_def)

lemma sample_mlkem_total: "mlkem_total sample_prims"
  unfolding mlkem_total_def by (simp add: sample_prims_def)

lemma sample_mlkem_correct: "mlkem_correct sample_prims"
  unfolding mlkem_correct_def mlkem_pair_def by (auto simp: sample_prims_def xor_bytes_cancel)

lemma sample_kdf: "kdf_sizes sample_prims"
  unfolding kdf_sizes_def by (simp add: sample_prims_def)

lemma sample_gcm: "gcm_laws sample_prims"
  unfolding gcm_laws_def
  by (auto simp: sample_prims_def sample_encrypt_def sample_decrypt_def Let_def)

lemma sample_prims_laws: "prims_laws sample_prims"
  by (simp add: prims_laws_def sample_x25519 sample_mlkem_sizes sample_mlkem_total
      sample_mlkem_correct sample_kdf sample_gcm)

lemma sample_ct_eq: "ct_eq_law sample_prims"
  by (simp add: ct_eq_law_def sample_prims_def)

text \<open>A world whose entropy is constant and whose clock shows a fixed second.\<close>

definition sample_world :: "u8 \<Rightarrow> u64 \<Rightarrow> world" where
  "sample_world b t = \<lparr>entropy = sconst b, clock = sconst (Some (t, 0))\<rparr>"

definition sample_keys :: HybridKeyPair where
  "sample_keys = fst (hybrid_keypair sample_prims (sample_world 1 0))"

lemma sample_kem_pair: "kem_pair sample_prims (public_key sample_keys) (private_key sample_keys)"
  unfolding sample_keys_def
  by (metis hybrid_keypair_kem_pair sample_prims_laws prod.collapse)

lemma sample_keys_length [simp]:
  "length (public_key sample_keys) = 1216" "length (private_key sample_keys) = 2432"
  using sample_kem_pair by (simp_all add: kem_pair_def)

section \<open>Refusals of the sample primitives\<close>

text \<open>
  The sample tag is a digest modulo 256. A key of 32 equal bytes (every sample HKDF output)
  changes it by a multiple of 64 only, so that texts whose digests differ modulo 64 are told
  apart under any keys.
\<close>

lemma digest_shift: "foldl (\<lambda>a b. 3 * a + b + 1) (x + y) bs =
    foldl (\<lambda>a b. 3 * a + b + 1) x bs + 3 ^ length bs * (y :: u8)"
proof (induction bs arbitrary: x y)
  case (Cons b bs)
  have "3 * (x + y) + b + 1 = (3 * x + b + 1) + 3 * y" by (simp add: algebra_simps)
  then show ?case using Cons.IH [of "3 * x + b + 1" "3 * y"] by (simp add: algebra_simps)
qed simp

lemma digest_key: "4 * digest (replicate 32 d @ bs) = 4 * digest bs"
proof -
  have "foldl (\<lambda>a b. 3 * a + b + 1) 7 (replicate 32 d) = 926510094425920 * d + 13897651416388807"
    by (simp add: numeral_eq_Suc algebra_simps)
  also have "(926510094425920 :: u8) = 64" by simp
  also have "(13897651416388807 :: u8) = 7 + 64 * 3" by simp
  finally have "foldl (\<lambda>a b. 3 * a + b + 1) 7 (replicate 32 d) = 7 + 64 * (d + 3)" by (simp add: algebra_simps)
  then have "digest (replicate 32 d @ bs) = digest bs + 3 ^ length bs * (64 * (d + 3))"
    by (simp only: digest_def foldl_append digest_shift)
  moreover have "4 * (p * (64 * x)) = (0 :: u8)" for p x
  proof -
    have "4 * (p * (64 * x)) = p * ((4 * 64) * x)" by (simp only: ac_simps)
    also have "(4 * 64 :: u8) = 0" by simp
    finally show ?thesis by simp
  qed
  ultimately show ?thesis by (simp only: distrib_left add_0_right)
qed

lemma sample_refuses:
  assumes "sample_encrypt (replicate 32 d) n aad m = Some body"
    and "4 * digest (n @ aad @ m) \<noteq> 4 * digest (n @ aad' @ m)"
  shows "sample_decrypt (replicate 32 d') n aad' body = None"
proof -
  have "digest (replicate 32 d @ n @ aad @ m) \<noteq> digest (replicate 32 d' @ n @ aad' @ m)"
    using assms(2) digest_key [of d "n @ aad @ m"] digest_key [of d' "n @ aad' @ m"] by metis
  then show ?thesis
    using assms(1) by (auto simp: sample_encrypt_def sample_decrypt_def Let_def)
qed

end
