(* ===== verification/Keys_Correct.thy ===== *)
theory Keys_Correct
  imports Group_Ratchet Sample_Prims
begin

text \<open>
  Correctness of the hybrid KEM, of the epoch-secret wraps and of the two key schedules, each
  property with a witness over the sample primitives.
\<close>

lemma sample_seal_pair: "seal_pair sample_prims (public_key sample_keys) (private_key sample_keys)"
  by (simp add: seal_pair_def sample_kem_pair sample_gcm)

definition sample_secret :: bytes where
  "sample_secret = replicate 32 5"

lemma length_sample_secret [simp]: "length sample_secret = 32"
  by (simp add: sample_secret_def)

section \<open>The hybrid KEM\<close>

text \<open>
  C8: for any key pair that \<open>hybrid_keypair\<close> generates, \<open>hybrid_encap\<close> on its public key
  succeeds with a 1120-byte ciphertext and a 32-byte secret, and \<open>hybrid_decap\<close> with its
  private key recovers that secret.
\<close>
theorem kem_roundtrip:
  assumes "prims_laws P" "hybrid_keypair P w0 = (kp, w1)"
  shows "\<exists>ct ss w'. hybrid_encap P (public_key kp) w = (Ok (ct, ss), w') \<and>
    length ct = 1120 \<and> length ss = 32 \<and> hybrid_decap P ct (private_key kp) = Ok ss"
  using hybrid_keypair_kem_pair [OF assms] kem.encapE by metis

theorem kem_roundtrip_witness:
  "\<exists>ct ss w'. hybrid_encap sample_prims (public_key sample_keys) (sample_world 9 0) = (Ok (ct, ss), w') \<and>
    length ct = 1120 \<and> length ss = 32 \<and> hybrid_decap sample_prims ct (private_key sample_keys) = Ok ss"
  unfolding sample_keys_def by (rule kem_roundtrip [OF sample_prims_laws]) (rule prod.collapse [symmetric])

text \<open>
  C31: \<open>hybrid_decap\<close> fails on a wrong length only, with the length it names; on inputs of the
  right lengths, tampered or not, it yields the combination of the two legs' secrets (ML-KEM
  rejects implicitly), and it never panics.
\<close>
theorem kem_decap_total:
  assumes "mlkem_total P"
  shows "hybrid_decap P ct sk =
    (if length ct \<noteq> 1120 then Err (BadLength (lit ''hybrid ciphertext'') 1120 (length ct))
     else if length sk \<noteq> 2432 then Err (BadLength (lit ''hybrid private key'') 2432 (length sk))
     else Ok (combine P (x25519_dh P (take 32 sk) (take 32 ct))
                (the (mlkem_decap P (drop 32 sk) (drop 32 ct)))))"
proof (cases "length ct = 1120 \<and> length sk = 2432")
  case True
  then have "mlkem_decap P (drop 32 sk) (drop 32 ct) \<noteq> None"
    using assms unfolding mlkem_total_def by simp
  then show ?thesis using True by (auto simp: hybrid_decap_eq)
next
  case False
  then show ?thesis by (auto simp: hybrid_decap_bad_length)
qed

theorem kem_decap_total_witness:
  "hybrid_decap sample_prims (replicate 1119 0) (replicate 2432 0) =
     Err (BadLength (lit ''hybrid ciphertext'') 1120 1119)"
  using kem_decap_total [OF sample_mlkem_total, of "replicate 1119 0" "replicate 2432 0"] by simp

section \<open>Wrapping an epoch secret to a peer\<close>

text \<open>
  Wrapping any 32-byte epoch secret to a generated public key succeeds with a 1180-byte
  payload, and unwrapping that payload with the private key gives the secret back.
\<close>

lemma dm_wrap_roundtrip:
  assumes "prims_laws P" "hybrid_keypair P w0 = (kp, w1)" "length es = 32"
  shows "\<exists>payload w'. wrap_dm_epoch_secret P es (public_key kp) w = (Ok payload, w') \<and>
    length payload = 1180 \<and> unwrap_dm_epoch_secret P payload (private_key kp) = Ok es"
proof -
  note pair = hybrid_keypair_seal_pair [OF assms(1,2)]
  obtain payload w' where "wrap_dm_epoch_secret P es (public_key kp) w = (Ok payload, w')"
    using wrap_dm_total [OF pair assms(3)] by blast
  then show ?thesis using wrap_dm_opens [OF pair] by blast
qed

text \<open>
  Unwrapping never panics and has four outcomes only: a payload of the wrong length and a
  private key of the wrong length are reported as such, in that order; otherwise the result is
  a 32-byte secret or \<open>UnwrapFailed\<close>.
\<close>

lemma dm_unwrap_outcomes:
  assumes "mlkem_total P"
  shows "case unwrap_dm_epoch_secret P payload sk of
      Ok es \<Rightarrow> length payload = 1180 \<and> length sk = 2432 \<and> length es = 32
    | Err e \<Rightarrow>
        if length payload \<noteq> 1180 then e = BadPayloadLen (length payload)
        else if length sk \<noteq> 2432
        then e = RatchetKem (BadLength (lit ''hybrid private key'') 2432 (length sk))
        else e = UnwrapFailed
    | Panic \<Rightarrow> False"
proof (cases "length payload = 1180 \<and> length sk = 2432")
  case True
  then show ?thesis
    using unwrap_dm_not_Panic [of P payload sk] unwrap_dm_ErrD [OF _ _ assms]
    by (auto split: res.split dest: unwrap_dm_OkD)
next
  case False
  then show ?thesis
    using unwrap_dm_bad_payload unwrap_dm_bad_key by (cases "length payload = 1180") auto
qed

section \<open>Message keys\<close>

text \<open>
  C22: as long as the counter does not run out, \<open>n\<close> successive calls of \<open>next_outbound_key\<close>
  return the consecutive indices from the counter on, each with the key of its index, advance
  the counter by \<open>n\<close>, and no two of these keys are derived from the same HKDF input.
\<close>
theorem dm_outbound_keys:
  assumes "length (dr_epoch_secret r) = 32" "unat (dr_message_index r) + n < 2 ^ 64"
  shows "\<exists>r'. draws (DmRatchet_next_outbound_key P chk) n r =
      (Ok (map (\<lambda>j. (dr_message_index r + of_nat j, dm_key_at P r (dr_message_index r + of_nat j)))
               [0..<n]), r') \<and>
    dr_message_index r' = dr_message_index r + of_nat n \<and>
    distinct (map (\<lambda>j. dm_message_kdf_input (dr_epoch_secret r) (dr_epoch r)
                         (dr_message_index r + of_nat j)) [0..<n])"
proof -
  have "(of_nat i :: u64) \<noteq> of_nat j" if "i < n" "j < n" "i \<noteq> j" for i j
    using that assms(2) by (simp add: word_unat_eq_iff unat_of_nat_small)
  then have "inj_on (\<lambda>j. dm_message_kdf_input (dr_epoch_secret r) (dr_epoch r)
      (dr_message_index r + of_nat j)) {0..<n}" by (fastforce simp: inj_on_def)
  then show ?thesis
    using dm_keys.draws_spec [of r n P chk] assms by (auto simp: dm_ready_def distinct_map)
qed

theorem dm_outbound_keys_witness:
  "\<exists>r'. draws (DmRatchet_next_outbound_key sample_prims True) 2
      (fst (DmRatchet_new 4 sample_secret (sample_world 0 100))) =
      (Ok [(0, dm_key_at sample_prims (fst (DmRatchet_new 4 sample_secret (sample_world 0 100))) 0),
           (1, dm_key_at sample_prims (fst (DmRatchet_new 4 sample_secret (sample_world 0 100))) 1)], r')"
  using dm_outbound_keys [of "fst (DmRatchet_new 4 sample_secret (sample_world 0 100))" 2 sample_prims True]
  by (auto simp: DmRatchet_new_def DmRatchet_with_bounds_def now_seconds_def sample_world_def upt_rec
      as_secs_f64_def)

text \<open>
  C30: the counter's \<open>+= 1\<close> at the largest index: a build with overflow checks panics and keeps
  the ratchet; a build without them returns the key of the last index and restarts the counter
  at 0, so that the next call returns a key already given out.
\<close>
theorem dm_counter_overflow:
  assumes "length (dr_epoch_secret r) = 32" "dr_message_index r = - 1"
  shows "DmRatchet_next_outbound_key P True r = (Panic, r) \<and>
    DmRatchet_next_outbound_key P False r =
      (Ok (- 1, dm_key_at P r (- 1)), r\<lparr>dr_message_index := 0\<rparr>) \<and>
    fst (DmRatchet_next_outbound_key P False (r\<lparr>dr_message_index := 0\<rparr>)) = Ok (0, dm_key_at P r 0)"
  using assms by (simp add: dm_next_outbound dm_ready_def u64_succ_def)

theorem dm_counter_overflow_witness:
  "DmRatchet_next_outbound_key sample_prims True
     \<lparr>dr_epoch = 0, dr_epoch_secret = sample_secret, dr_message_index = - 1, dr_rekey_msg_bound = 50,
      dr_rekey_age_seconds = 100, dr_epoch_started_at = Fin 0\<rparr> =
   (Panic, \<lparr>dr_epoch = 0, dr_epoch_secret = sample_secret, dr_message_index = - 1,
      dr_rekey_msg_bound = 50, dr_rekey_age_seconds = 100, dr_epoch_started_at = Fin 0\<rparr>)"
  by (rule conjunct1 [OF dm_counter_overflow]) simp_all

section \<open>The re-key bound\<close>

text \<open>
  C25: on clocks of whole seconds below \<open>2 ^ 53\<close> the floating-point comparison is exact:
  \<open>should_rekey\<close> holds just when the message bound is reached or the epoch is at least
  \<open>rekey_age_seconds\<close> old. A clock that went backwards never triggers it by age.
\<close>
theorem should_rekey_exact:
  assumes "started < 2 ^ 53" "now < 2 ^ 53" "unat age < 2 ^ 53"
  shows "should_rekey i (f64_of_nat started) (f64_of_nat now) bound age \<longleftrightarrow>
    bound \<le> i \<or> started + unat age \<le> now"
proof -
  have "(of_nat (unat age) :: rat) \<le> of_nat now - of_nat started \<longleftrightarrow>
      (of_nat (started + unat age) :: rat) \<le> of_nat now" by (auto simp: algebra_simps)
  also have "\<dots> \<longleftrightarrow> started + unat age \<le> now" by (simp only: of_nat_le_iff)
  finally show ?thesis
    using assms by (simp add: should_rekey_def f64_of_nat_exact f64_sub_nat_exact)
qed

theorem should_rekey_exact_witness:
  "should_rekey 3 (f64_of_nat 1000) (f64_of_nat 605800) 50 604800 \<and>
   \<not> should_rekey 3 (f64_of_nat 1000) (f64_of_nat 605799) 50 604800"
  using should_rekey_exact [of 1000 605800 604800 3 50] should_rekey_exact [of 1000 605799 604800 3 50]
  by simp

text \<open>
  The re-key decision is monotone: once it holds it keeps holding as messages are sent and
  time passes, whatever finite or infinite times the clock shows.
\<close>

lemma should_rekey_monotone:
  assumes "should_rekey i started now bound age" "i \<le> j" "f64_ge later now"
  shows "should_rekey j started later bound age"
proof -
  have "f64_of_nat (unat age) \<noteq> NegInf"
    using f64_of_nat_ge_0 [of "unat age"] by (cases "f64_of_nat (unat age)") auto
  then show ?thesis
    using assms f64_sub_mono [OF assms(3)] by (auto simp: should_rekey_def split: if_splits)
qed

section \<open>Group distribution\<close>

text \<open>
  C28: an epoch secret wrapped to each member of a group in turn reaches every member: no wrap
  fails, every payload unwraps with its member's private key to the secret, and so every
  member derives the sender's key of any message from the epoch and index on the wire, whenever it joined.
\<close>
theorem group_members_agree:
  assumes "\<forall>(pk, sk) \<in> set members. seal_pair P pk sk" "length es = 32"
  shows "\<exists>payloads w'. distribute P es (map fst members) w = (Ok payloads, w') \<and>
    length payloads = length members \<and>
    (\<forall>j < length members. case unwrap_epoch_secret P (payloads ! j) (snd (members ! j)) of
       Ok es' \<Rightarrow> \<forall>index.
         EpochRatchet_message_key P (EpochRatchet_new_with_started_at epoch es' joined) index =
         EpochRatchet_message_key P (EpochRatchet_new_with_started_at epoch es started) index
     | _ \<Rightarrow> False)"
  using distribute_members [OF assms, of w]
  by (auto simp: EpochRatchet_message_key_def EpochRatchet_new_with_started_at_def)

theorem group_members_agree_witness:
  "\<exists>payload w'. distribute sample_prims sample_secret [public_key sample_keys] (sample_world 1 0) =
     (Ok [payload], w')"
proof -
  have "\<exists>payloads w'. distribute sample_prims sample_secret
      (map fst [(public_key sample_keys, private_key sample_keys)]) (sample_world 1 0) = (Ok payloads, w') \<and>
      length payloads = length [(public_key sample_keys, private_key sample_keys)]"
    by (rule group_members_agree [where members = "[(public_key sample_keys, private_key sample_keys)]"
          and P = sample_prims and es = sample_secret and w = "sample_world 1 0" and epoch = 0
          and joined = "Fin 5" and started = "Fin 0", THEN exE])
       (use sample_seal_pair in auto)
  then show ?thesis by (auto simp: length_Suc_conv)
qed

text \<open>
  Unwrapping a group payload never panics, and its outcome is determined by the lengths of
  payload and private key, both checked before any decapsulation.
\<close>

lemma group_unwrap_outcomes:
  assumes "mlkem_total P"
  shows "case unwrap_epoch_secret P payload sk of
      Ok es \<Rightarrow> length payload = 1180 \<and> length sk = 2432 \<and> length es = 32
    | Err e \<Rightarrow>
        if length payload \<noteq> 1180 then e = GBadPayloadLen (length payload)
        else if length sk \<noteq> 2432 then e = GBadPrivateKeyLen (length sk)
        else e = GUnwrapFailed \<or> (\<exists>got. got \<noteq> 32 \<and> e = GBadSecretLen got)
    | Panic \<Rightarrow> False"
proof (cases "length payload = 1180 \<and> length sk = 2432")
  case True
  have "length (blob_ct payload) = 1120" using blob_lengths(1) True by simp
  moreover have "mlkem_decap P (drop 32 sk) (drop 32 (blob_ct payload)) \<noteq> None"
    using assms True calculation unfolding mlkem_total_def by simp
  ultimately show ?thesis
    using True unwrap_group_not_Panic [of P payload sk]
    by (auto simp: unwrap_epoch_secret_def hybrid_decap_eq Let_def and_then_eq_Err and_then_eq_Ok
        split: res.split if_splits)
next
  case False
  then show ?thesis by (auto simp: unwrap_epoch_secret_def)
qed

end
