(* ===== verification/Codecs.thy ===== *)
theory Codecs
  imports Prelude
begin

text \<open>
  The third-party text codecs (\<open>base64\<close>, standard and URL-safe, and \<open>hex\<close>) as a record of
  functions that the model takes as its argument \<open>C\<close>, with their documented laws and a
  concrete instance for the witnesses.
\<close>

section \<open>The codecs and their laws\<close>

text \<open>
  A decoder returns \<open>Inl\<close> of the text its error displays as, or \<open>Inr\<close> of the bytes.
\<close>

record codecs =
  b64_encode :: "bytes \<Rightarrow> rstr"
  b64_decode :: "rstr \<Rightarrow> rstr + bytes"
  b64url_encode :: "bytes \<Rightarrow> rstr"
  b64url_decode :: "rstr \<Rightarrow> rstr + bytes"
  hex_encode :: "bytes \<Rightarrow> rstr"
  hex_decode :: "rstr \<Rightarrow> rstr + bytes"

definition b64_laws :: "codecs \<Rightarrow> bool" where
  "b64_laws C \<longleftrightarrow> (\<forall>bs. b64_decode C (b64_encode C bs) = Inr bs)"

text \<open>Unpadded URL-safe base64 writes letters, digits, \<open>-\<close> and \<open>_\<close>; only nothing encodes to nothing.\<close>

definition b64url_laws :: "codecs \<Rightarrow> bool" where
  "b64url_laws C \<longleftrightarrow> (\<forall>bs. b64url_decode C (b64url_encode C bs) = Inr bs) \<and>
     (\<forall>bs. b64url_encode C bs = [] \<longleftrightarrow> bs = [])"

definition hex_laws :: "codecs \<Rightarrow> bool" where
  "hex_laws C \<longleftrightarrow> (\<forall>bs. hex_decode C (hex_encode C bs) = Inr bs)"

lemma b64_roundtrip: "b64_laws C \<Longrightarrow> b64_decode C (b64_encode C bs) = Inr bs"
  by (simp add: b64_laws_def)

lemma b64url_roundtrip: "b64url_laws C \<Longrightarrow> b64url_decode C (b64url_encode C bs) = Inr bs"
  by (simp add: b64url_laws_def)

lemma hex_roundtrip: "hex_laws C \<Longrightarrow> hex_decode C (hex_encode C bs) = Inr bs"
  by (simp add: hex_laws_def)

section \<open>A concrete instance\<close>

text \<open>Two hexadecimal digits per byte, for all three codecs.\<close>

definition hex_digit :: "nat \<Rightarrow> nat" where
  "hex_digit n = (if n < 10 then 48 + n else 87 + n)"

definition hex_value :: "nat \<Rightarrow> nat option" where
  "hex_value c = (if 48 \<le> c \<and> c \<le> 57 then Some (c - 48)
                  else if 97 \<le> c \<and> c \<le> 102 then Some (c - 87) else None)"

definition sample_hex_encode :: "bytes \<Rightarrow> rstr" where
  "sample_hex_encode bs = concat (map (\<lambda>b. [hex_digit (unat b div 16), hex_digit (unat b mod 16)]) bs)"

fun sample_hex_decode :: "rstr \<Rightarrow> rstr + bytes" where
  "sample_hex_decode [] = Inr []"
| "sample_hex_decode [c] = Inl (lit ''odd length'')"
| "sample_hex_decode (c # d # s) =
     (case (hex_value c, hex_value d, sample_hex_decode s) of
        (Some x, Some y, Inr bs) \<Rightarrow> Inr (of_nat (16 * x + y) # bs)
      | _ \<Rightarrow> Inl (lit ''bad digit''))"

definition sample_codecs :: codecs where
  "sample_codecs = \<lparr>b64_encode = sample_hex_encode, b64_decode = sample_hex_decode,
     b64url_encode = sample_hex_encode, b64url_decode = sample_hex_decode,
     hex_encode = sample_hex_encode, hex_decode = sample_hex_decode\<rparr>"

lemma hex_value_digit: "n < 16 \<Longrightarrow> hex_value (hex_digit n) = Some n"
  by (auto simp: hex_value_def hex_digit_def)

lemma sample_hex_roundtrip: "sample_hex_decode (sample_hex_encode bs) = Inr bs"
proof (induction bs)
  case Nil
  then show ?case by (simp add: sample_hex_encode_def)
next
  case (Cons b bs)
  have "unat b div 16 < 16" using unat_u8_less [of b] by simp
  moreover have "of_nat (16 * (unat b div 16) + unat b mod 16) = b" by (simp del: of_nat_add of_nat_mult)
  ultimately show ?case
    using Cons.IH by (simp add: sample_hex_encode_def hex_value_digit del: of_nat_add of_nat_mult)
qed

lemma sample_codecs_laws:
  "b64_laws sample_codecs" "b64url_laws sample_codecs" "hex_laws sample_codecs"
  by (auto simp: b64_laws_def b64url_laws_def hex_laws_def sample_codecs_def sample_hex_roundtrip)
     (auto simp: sample_hex_encode_def)

end
