(* ===== verification/Dm_Token.thy ===== *)
theory Dm_Token
  imports Ratchet Codecs
begin

text \<open>
  Sealed frames of \<open>src/src/dm_session.rs\<close>: the associated data of a frame, the errors of the
  session driver, and the \<open>pqdr1:\<close> token codec. The lemmas show that the codec is an exact
  round trip on frames whose fields fit their 32-bit length prefixes, and that the parser
  accepts no second binary form of a frame.
\<close>

section \<open>Constants, frame associated data, errors\<close>

definition FRAME_NONCE_LEN :: nat where "FRAME_NONCE_LEN = 12"
definition AAD_PREFIX :: bytes where "AAD_PREFIX = blit ''skchat/dm-frame/v1''"
definition KAM_REPEAT :: u64 where "KAM_REPEAT = 3"
definition PQDR_SCHEME :: rstr where "PQDR_SCHEME = lit ''pqdr1:''"

definition frame_aad :: "u64 \<Rightarrow> u64 \<Rightarrow> bytes" where
  "frame_aad epoch index = AAD_PREFIX @ blit ''|'' @ u64_be epoch @ u64_be index"

datatype dm_session_error =
  BadToken rstr | OpenFailed | MissingEpochSecret u64 | SessionRatchet ratchet_error

fun dm_session_error_display :: "dm_session_error \<Rightarrow> rstr" where
  "dm_session_error_display (BadToken why) =
     lit ''invalid '' @ PQDR_SCHEME @ lit '' token: '' @ why"
| "dm_session_error_display OpenFailed = lit ''dm frame open failed (tamper or wrong key)''"
| "dm_session_error_display (MissingEpochSecret e) =
     lit ''no epoch secret for epoch '' @ dec (unat e) @ lit '' (missing key-agreement message)''"
| "dm_session_error_display (SessionRatchet e) = lit ''ratchet error: '' @ ratchet_error_display e"

section \<open>Frames and tokens\<close>

record SealedDmFrame =
  fr_epoch :: u64
  fr_index :: u64
  fr_nonce :: bytes
  fr_body :: bytes
  fr_kam :: "bytes option"

text \<open>The binary under the base64 of \<open>to_token\<close>.\<close>

definition frame_blob :: "SealedDmFrame \<Rightarrow> bytes" where
  "frame_blob f =
     u64_be (fr_epoch f) @ u64_be (fr_index f) @
     u32_be (len_u32 (fr_nonce f)) @ fr_nonce f @
     u32_be (len_u32 (fr_body f)) @ fr_body f @
     (case fr_kam f of
        None \<Rightarrow> [0]
      | Some kam \<Rightarrow> 1 # u32_be (len_u32 kam) @ kam)"

definition to_token :: "codecs \<Rightarrow> SealedDmFrame \<Rightarrow> rstr" where
  "to_token C f = PQDR_SCHEME @ b64_encode C (frame_blob f)"

text \<open>The cursor macro \<open>take!\<close>: the next \<open>n\<close> bytes at offset \<open>off\<close>, and the new offset.\<close>

definition take_at :: "bytes \<Rightarrow> nat \<Rightarrow> nat \<Rightarrow> (dm_session_error, bytes \<times> nat) res" where
  "take_at blob off n =
     (if off + n > length blob then Err (BadToken (lit ''truncated frame''))
      else Ok (take n (drop off blob), off + n))"

text \<open>
  The same step in the arithmetic of a machine whose \<open>usize\<close> has \<open>LENGTH('a)\<close> bits: \<open>off + n\<close> panics
  on overflow when the build checks it (\<open>chk\<close>) and wraps otherwise, and a slice that would start
  after its end panics. Elsewhere the model takes \<open>take_at\<close>, which is right for 64 bits.
\<close>

definition take_at_usize ::
  "bool \<Rightarrow> bytes \<Rightarrow> 'a::len word \<Rightarrow> 'a word \<Rightarrow> (dm_session_error, bytes \<times> 'a word) res" where
  "take_at_usize chk blob off n =
     (if chk \<and> off + n < off then Panic
      else if length blob < unat (off + n) then Err (BadToken (lit ''truncated frame''))
      else if off + n < off then Panic
      else Ok (take (unat (off + n) - unat off) (drop (unat off) blob), off + n))"

text \<open>The optional key-agreement message at the end of a frame, after its flag byte.\<close>

definition parse_kam :: "bytes \<Rightarrow> u8 \<Rightarrow> nat \<Rightarrow> (dm_session_error, bytes option \<times> nat) res" where
  "parse_kam blob kam_flag off =
     (if kam_flag = 0 then Ok (None, off)
      else if kam_flag = 1 then
        and_then (take_at blob off 4) (\<lambda>(len, off1).
        and_then (take_at blob off1 (unat (u32_of_be len))) (\<lambda>(kam, off2).
        Ok (Some kam, off2)))
      else Err (BadToken (lit ''invalid kam presence flag: '' @ dec (unat kam_flag))))"

definition parse_frame :: "bytes \<Rightarrow> (dm_session_error, SealedDmFrame) res" where
  "parse_frame blob =
     and_then (take_at blob 0 8) (\<lambda>(epoch, off1).
     and_then (take_at blob off1 8) (\<lambda>(index, off2).
     and_then (take_at blob off2 4) (\<lambda>(nonce_len, off3).
     and_then (take_at blob off3 (unat (u32_of_be nonce_len))) (\<lambda>(nonce, off4).
     and_then (take_at blob off4 4) (\<lambda>(body_len, off5).
     and_then (take_at blob off5 (unat (u32_of_be body_len))) (\<lambda>(frame_body, off6).
     and_then (take_at blob off6 1) (\<lambda>(flag, off7).
     and_then (parse_kam blob (hd flag) off7) (\<lambda>(kam, off8).
       if off8 \<noteq> length blob then Err (BadToken (lit ''trailing bytes after frame''))
       else Ok \<lparr>fr_epoch = u64_of_be epoch, fr_index = u64_of_be index, fr_nonce = nonce,
                fr_body = frame_body, fr_kam = kam\<rparr>))))))))"

definition from_token :: "codecs \<Rightarrow> rstr \<Rightarrow> (dm_session_error, SealedDmFrame) res" where
  "from_token C token =
     (case strip_prefix PQDR_SCHEME token of
        None \<Rightarrow> Err (BadToken (lit ''not a '' @ PQDR_SCHEME @ lit '' token''))
      | Some body \<Rightarrow>
          (case b64_decode C body of
             Inl e \<Rightarrow> Err (BadToken (lit ''invalid base64: '' @ e))
           | Inr blob \<Rightarrow> parse_frame blob))"

section \<open>The cursor\<close>

lemma take_at_OkD:
  assumes "take_at blob off n = Ok (c, off')"
  shows "c = take n (drop off blob)" "off' = off + n" "length c = n" "off' \<le> length blob"
    "drop off blob = c @ drop off' blob"
proof -
  have n: "off + n \<le> length blob" and c: "c = take n (drop off blob)" and o: "off' = off + n"
    using assms by (auto simp: take_at_def split: if_splits)
  show "c = take n (drop off blob)" "off' = off + n" "length c = n" "off' \<le> length blob"
    using n c o by auto
  have "drop off' blob = drop n (drop off blob)" by (simp add: o add.commute)
  then show "drop off blob = c @ drop off' blob" by (simp add: c del: drop_drop)
qed

lemma take_at_append:
  assumes "drop off blob = c @ rest" "length c = n" "off \<le> length blob"
  shows "take_at blob off n = Ok (c, off + n)" "drop (off + n) blob = rest"
    "off + n \<le> length blob"
proof -
  have len: "length blob - off = n + length rest"
    using arg_cong [OF assms(1), of length] assms(2) by simp
  then show "off + n \<le> length blob" using assms(3) by linarith
  then show "take_at blob off n = Ok (c, off + n)" using assms(1,2) by (simp add: take_at_def)
  have "drop (off + n) blob = drop n (drop off blob)" by (simp add: add.commute)
  then show "drop (off + n) blob = rest" using assms(1,2) by simp
qed

lemma take_at_not_Panic [simp]: "take_at blob off n \<noteq> Panic"
  by (simp add: take_at_def)

section \<open>Encoding, then decoding\<close>

text \<open>A frame whose variable-length fields fit the 32-bit prefixes.\<close>

definition frame_fits :: "SealedDmFrame \<Rightarrow> bool" where
  "frame_fits f \<longleftrightarrow> length (fr_nonce f) < 2 ^ 32 \<and> length (fr_body f) < 2 ^ 32 \<and>
     (case fr_kam f of None \<Rightarrow> True | Some kam \<Rightarrow> length kam < 2 ^ 32)"

lemma parse_kam_blob:
  assumes "drop off blob = (case k of None \<Rightarrow> [0] | Some kam \<Rightarrow> 1 # u32_be (len_u32 kam) @ kam)"
    and "off \<le> length blob" and "case k of None \<Rightarrow> True | Some kam \<Rightarrow> length kam < 2 ^ 32"
  shows "\<exists>flag. take_at blob off 1 = Ok ([flag], off + 1) \<and>
           parse_kam blob flag (off + 1) = Ok (k, length blob)"
proof (cases k)
  case None
  then have d: "drop off blob = [0] @ []" using assms(1) by simp
  have "take_at blob off 1 = Ok ([0], off + 1)" using take_at_append(1) [OF d _ assms(2)] by simp
  moreover have "off + 1 = length blob"
    using take_at_append(2,3) [OF d _ assms(2), of 1] by simp
  ultimately show ?thesis using None by (intro exI [of _ 0]) (simp add: parse_kam_def)
next
  case (Some kam)
  then have len: "unat (len_u32 kam) = length kam" using assms(3) by (simp add: unat_len_u32_small)
  have d: "drop off blob = [1] @ u32_be (len_u32 kam) @ kam" using Some assms(1) by simp
  note t1 = take_at_append [OF d _ assms(2), of 1, simplified]
  have s2: "take_at blob (off + 1) 4 = Ok (u32_be (len_u32 kam), off + 1 + 4)"
    "drop (off + 1 + 4) blob = kam @ []" "off + 1 + 4 \<le> length blob"
    using take_at_append [of "off + 1" blob "u32_be (len_u32 kam)" kam 4] t1 by simp_all
  have s3: "take_at blob (off + 1 + 4) (length kam) = Ok (kam, off + 1 + 4 + length kam)"
    "off + 1 + 4 + length kam = length blob"
    using take_at_append [OF s2(2) refl s2(3)] by simp_all
  show ?thesis
    using t1 s2 s3 len Some by (intro exI [of _ 1]) (simp add: parse_kam_def)
qed

lemma parse_frame_blob:
  assumes "frame_fits f"
  shows "parse_frame (frame_blob f) = Ok f"
proof -
  define b where "b = frame_blob f"
  define t where "t = (case fr_kam f of None \<Rightarrow> [0] | Some kam \<Rightarrow> 1 # u32_be (len_u32 kam) @ kam)"
  have n: "unat (len_u32 (fr_nonce f)) = length (fr_nonce f)"
    and m: "unat (len_u32 (fr_body f)) = length (fr_body f)"
    using assms by (simp_all add: frame_fits_def unat_len_u32_small)
  have d0: "drop 0 b = u64_be (fr_epoch f) @ u64_be (fr_index f) @ u32_be (len_u32 (fr_nonce f)) @
      fr_nonce f @ u32_be (len_u32 (fr_body f)) @ fr_body f @ t"
    by (simp add: b_def frame_blob_def t_def)
  note s1 = take_at_append [OF d0 length_u64_be le0]
  note s2 = take_at_append [OF s1(2) length_u64_be s1(3)]
  note s3 = take_at_append [OF s2(2) length_u32_be s2(3)]
  note s4 = take_at_append [OF s3(2) refl s3(3)]
  note s5 = take_at_append [OF s4(2) length_u32_be s4(3)]
  note s6 = take_at_append [OF s5(2) refl s5(3)]
  have k: "case fr_kam f of None \<Rightarrow> True | Some kam \<Rightarrow> length kam < 2 ^ 32"
    using assms by (simp add: frame_fits_def)
  obtain flag where s7: "take_at b (0 + 8 + 8 + 4 + length (fr_nonce f) + 4 + length (fr_body f)) 1 =
      Ok ([flag], 0 + 8 + 8 + 4 + length (fr_nonce f) + 4 + length (fr_body f) + 1)"
    "parse_kam b flag (0 + 8 + 8 + 4 + length (fr_nonce f) + 4 + length (fr_body f) + 1) =
      Ok (fr_kam f, length b)"
    using parse_kam_blob [OF s6(2) [unfolded t_def] s6(3) k] by blast
  have "parse_frame b = Ok f"
    unfolding parse_frame_def
    by (simp only: s1(1) and_then.simps prod.case s2(1) s3(1) s4(1) s5(1) s6(1) s7 n m u32_of_be_be
        u64_of_be_be list.sel) simp
  then show ?thesis by (simp add: b_def)
qed

text \<open>
  \<open>from_token\<close> reads back every frame that \<open>to_token\<close> writes, as long as nonce, body and
  key-agreement message are shorter than \<open>2 ^ 32\<close> bytes (their lengths travel as \<open>u32\<close>).
\<close>

lemma token_roundtrip:
  assumes "b64_laws C" "frame_fits f"
  shows "from_token C (to_token C f) = Ok f"
  using parse_frame_blob [OF assms(2)] by (simp add: from_token_def to_token_def b64_roundtrip [OF assms(1)])

section \<open>Decoding, then encoding\<close>

lemma parse_kam_OkD:
  assumes "parse_kam blob flag off = Ok (k, off')" "off \<le> length blob"
  shows "flag # drop off blob =
      (case k of None \<Rightarrow> [0] | Some kam \<Rightarrow> 1 # u32_be (len_u32 kam) @ kam) @ drop off' blob"
    "off' \<le> length blob" "case k of None \<Rightarrow> True | Some kam \<Rightarrow> length kam < 2 ^ 32"
proof -
  consider (none) "flag = 0" "k = None" "off' = off"
    | (some) len off1 kam where "flag = 1" "take_at blob off 4 = Ok (len, off1)"
        "take_at blob off1 (unat (u32_of_be len)) = Ok (kam, off')" "k = Some kam"
    using assms(1) by (auto simp: parse_kam_def and_then_eq_Ok split: if_splits)
  then have "flag # drop off blob =
      (case k of None \<Rightarrow> [0] | Some kam \<Rightarrow> 1 # u32_be (len_u32 kam) @ kam) @ drop off' blob \<and>
    off' \<le> length blob \<and> (case k of None \<Rightarrow> True | Some kam \<Rightarrow> length kam < 2 ^ 32)"
  proof cases
    case none
    then show ?thesis using assms(2) by simp
  next
    case some
    note t1 = take_at_OkD [OF some(2)] and t2 = take_at_OkD [OF some(3)]
    have "length kam < 2 ^ 32" using t2(3) unat_word_less [of "u32_of_be len"] by simp
    moreover have "u32_be (len_u32 kam) = len"
      using t1(3) t2(3) u32_be_of_be [of len] by (simp add: len_u32_def)
    ultimately show ?thesis using some t1(5) t2(4,5) by simp
  qed
  then show "flag # drop off blob =
      (case k of None \<Rightarrow> [0] | Some kam \<Rightarrow> 1 # u32_be (len_u32 kam) @ kam) @ drop off' blob"
    "off' \<le> length blob" "case k of None \<Rightarrow> True | Some kam \<Rightarrow> length kam < 2 ^ 32"
    by auto
qed

lemma parse_frame_OkD:
  assumes "parse_frame blob = Ok f"
  shows "frame_blob f = blob" "frame_fits f"
proof -
  obtain e o1 i o2 nl o3 n o4 bl o5 b o6 fl o7 k where
    s: "take_at blob 0 8 = Ok (e, o1)" "take_at blob o1 8 = Ok (i, o2)"
      "take_at blob o2 4 = Ok (nl, o3)" "take_at blob o3 (unat (u32_of_be nl)) = Ok (n, o4)"
      "take_at blob o4 4 = Ok (bl, o5)" "take_at blob o5 (unat (u32_of_be bl)) = Ok (b, o6)"
      "take_at blob o6 1 = Ok (fl, o7)" and k: "parse_kam blob (hd fl) o7 = Ok (k, length blob)"
    and f: "f = \<lparr>fr_epoch = u64_of_be e, fr_index = u64_of_be i, fr_nonce = n, fr_body = b, fr_kam = k\<rparr>"
    using assms by (auto simp: parse_frame_def and_then_eq_Ok split: if_splits)
  note t = s [THEN take_at_OkD(5)] and l = s [THEN take_at_OkD(3)]
  note kk = parse_kam_OkD [OF k take_at_OkD(4) [OF s(7)]]
  have fl: "fl @ drop o7 blob =
      (case k of None \<Rightarrow> [0] | Some kam \<Rightarrow> 1 # u32_be (len_u32 kam) @ kam)"
    using kk(1) l(7) by (cases fl) auto
  have nl: "u32_be (len_u32 n) = nl" and bl: "u32_be (len_u32 b) = bl"
    using l(3,4,5,6) u32_be_of_be [of nl] u32_be_of_be [of bl] by (simp_all add: len_u32_def)
  have "blob = e @ i @ nl @ n @ bl @ b @ fl @ drop o7 blob" using t by simp
  then show "frame_blob f = blob"
    using fl nl bl l(1,2) by (simp add: frame_blob_def f u64_be_of_be)
  show "frame_fits f"
    using kk(3) l(4,6) unat_word_less [of "u32_of_be nl"] unat_word_less [of "u32_of_be bl"]
    by (simp add: frame_fits_def f)
qed

lemma parse_frame_not_Panic: "parse_frame blob \<noteq> Panic"
  by (auto simp: parse_frame_def parse_kam_def and_then_eq_Panic split: if_splits)

section \<open>The cursor on machine words\<close>

lemma usize_sum:
  fixes off n :: "'a::len word"
  shows "off + n < off \<longleftrightarrow> 2 ^ LENGTH('a) \<le> unat off + unat n"
    "unat off + unat n < 2 ^ LENGTH('a) \<Longrightarrow> unat (off + n) = unat off + unat n"
proof -
  have w: "unat (off + n) = (unat off + unat n) mod 2 ^ LENGTH('a)" by (rule unat_word_ariths)
  have b: "unat off < 2 ^ LENGTH('a)" "unat n < 2 ^ LENGTH('a)"
    using unsigned_less [of off] unsigned_less [of n] by blast+
  show "unat off + unat n < 2 ^ LENGTH('a) \<Longrightarrow> unat (off + n) = unat off + unat n" by (simp add: w)
  show "off + n < off \<longleftrightarrow> 2 ^ LENGTH('a) \<le> unat off + unat n"
  proof (cases "unat off + unat n < 2 ^ LENGTH('a)")
    case False
    have "unat off + unat n - 2 ^ LENGTH('a) < 2 ^ LENGTH('a)" using b by linarith
    then have "unat (off + n) = unat off + unat n - 2 ^ LENGTH('a)"
      using False unfolding w by (simp only: not_less le_mod_geq mod_less)
    then have "unat (off + n) < unat off" using False b by linarith
    then show ?thesis using False by (simp only: word_less_nat_alt not_less)
  qed (simp add: word_less_nat_alt w)
qed

lemma take_at_usize_eq:
  fixes off n :: "'a::len word"
  assumes "unat off \<le> length blob" "length blob + length blob < 2 ^ LENGTH('a)"
  shows "map_ok (apsnd unat) (take_at_usize chk blob off n) =
    (if unat off + unat n < 2 ^ LENGTH('a) then take_at blob (unat off) (unat n) else Panic)"
proof (cases "unat off + unat n < 2 ^ LENGTH('a)")
  case True
  then show ?thesis by (auto simp: take_at_usize_def take_at_def usize_sum not_le)
next
  case False
  have "unat (off + n) \<le> length blob"
    using False assms(1) usize_sum(1) [of off n] by (simp add: word_less_nat_alt not_less)
  then show ?thesis using False by (simp add: take_at_usize_def usize_sum(1) not_less)
qed

end
