(* ===== verification/Dm_Session.thy ===== *)
theory Dm_Session
  imports Dm_Token "HOL-Library.Finite_Map"
begin

text \<open>
  The direct-message session of \<open>src/src/dm_session.rs\<close>: its state and its sender and receiver
  operations. Every operation returns the session it leaves behind, on its error branches too.
\<close>

section \<open>Session state\<close>

record DmSession =
  ds_peer :: rstr
  ds_rekey_msg_bound :: u64
  ds_rekey_age_seconds :: u64
  ds_ratchet :: "DmRatchet option"
  ds_epoch_secrets :: "(u64, bytes) fmap"
  ds_current_kam :: "bytes option"

definition DmSession_with_bounds :: "rstr \<Rightarrow> u64 \<Rightarrow> u64 \<Rightarrow> DmSession" where
  "DmSession_with_bounds peer rekey_msg_bound rekey_age_seconds =
     \<lparr>ds_peer = peer, ds_rekey_msg_bound = rekey_msg_bound,
      ds_rekey_age_seconds = rekey_age_seconds, ds_ratchet = None, ds_epoch_secrets = fmempty,
      ds_current_kam = None\<rparr>"

definition DmSession_new :: "rstr \<Rightarrow> DmSession" where
  "DmSession_new peer =
     DmSession_with_bounds peer DEFAULT_REKEY_MSG_BOUND DEFAULT_REKEY_AGE_SECONDS"

definition epoch_secret_for_test :: "DmSession \<Rightarrow> u64 \<Rightarrow> bytes option" where
  "epoch_secret_for_test s epoch = fmlookup (ds_epoch_secrets s) epoch"

section \<open>Sender\<close>

definition begin_epoch ::
  "prims \<Rightarrow> u64 \<Rightarrow> bytes \<Rightarrow> DmSession \<Rightarrow> world \<Rightarrow> (dm_session_error, unit) res \<times> DmSession \<times> world"
  where
  "begin_epoch P epoch peer_hybrid_pub s w =
     (let (secret, w1) = new_epoch_secret w
      in case wrap_dm_epoch_secret P secret peer_hybrid_pub w1 of
           (Err e, w2) \<Rightarrow> (Err (SessionRatchet e), s, w2)
         | (Panic, w2) \<Rightarrow> (Panic, s, w2)
         | (Ok kam, w2) \<Rightarrow>
             (let (r, w3) = DmRatchet_with_bounds epoch secret (ds_rekey_msg_bound s)
                              (ds_rekey_age_seconds s) w2
              in (Ok (),
                  s\<lparr>ds_ratchet := Some r,
                    ds_epoch_secrets := fmupd epoch secret (ds_epoch_secrets s),
                    ds_current_kam := Some kam\<rparr>,
                  w3)))"

text \<open>The epoch that a \<open>seal\<close> has to begin first, if any.\<close>

definition begin_at :: "bool \<Rightarrow> DmSession \<Rightarrow> world \<Rightarrow> (unit, u64 option) res \<times> world" where
  "begin_at chk s w =
     (case ds_ratchet s of
        None \<Rightarrow> (Ok (Some 0), w)
      | Some r \<Rightarrow>
          (case DmRatchet_should_rekey r None w of
             (True, w1) \<Rightarrow>
               (case u64_succ chk (dr_epoch r) of
                  None \<Rightarrow> (Panic, w1)
                | Some e \<Rightarrow> (Ok (Some e), w1))
           | (False, w1) \<Rightarrow> (Ok None, w1)))"

text \<open>The part of \<open>seal\<close> after the epoch has been settled.\<close>

definition seal_frame ::
  "prims \<Rightarrow> bool \<Rightarrow> bytes \<Rightarrow> DmSession \<Rightarrow> world \<Rightarrow>
    (dm_session_error, SealedDmFrame) res \<times> DmSession \<times> world" where
  "seal_frame P chk plaintext s w =
     (case ds_ratchet s of
        None \<Rightarrow> (Panic, s, w)
      | Some r \<Rightarrow>
          (case DmRatchet_next_outbound_key P chk r of
             (Ok (idx, key), r1) \<Rightarrow>
               (let s1 = s\<lparr>ds_ratchet := Some r1\<rparr>;
                    epoch = dr_epoch r1;
                    kam = (if idx < KAM_REPEAT then ds_current_kam s1 else None);
                    (nonce, w1) = fill_bytes FRAME_NONCE_LEN w;
                    aad = frame_aad epoch idx
                in case gcm_encrypt P key nonce aad plaintext of
                     None \<Rightarrow> (Err OpenFailed, s1, w1)
                   | Some body \<Rightarrow>
                       (Ok \<lparr>fr_epoch = epoch, fr_index = idx, fr_nonce = nonce,
                            fr_body = body, fr_kam = kam\<rparr>, s1, w1))
           | (_, r1) \<Rightarrow> (Panic, s\<lparr>ds_ratchet := Some r1\<rparr>, w)))"

definition DmSession_seal ::
  "prims \<Rightarrow> bool \<Rightarrow> bytes \<Rightarrow> bytes \<Rightarrow> DmSession \<Rightarrow> world \<Rightarrow>
    (dm_session_error, SealedDmFrame) res \<times> DmSession \<times> world" where
  "DmSession_seal P chk plaintext peer_hybrid_pub s w =
     (case begin_at chk s w of
        (Ok None, w1) \<Rightarrow> seal_frame P chk plaintext s w1
      | (Ok (Some epoch), w1) \<Rightarrow>
          (case begin_epoch P epoch peer_hybrid_pub s w1 of
             (Ok _, s1, w2) \<Rightarrow> seal_frame P chk plaintext s1 w2
           | (Err e, s1, w2) \<Rightarrow> (Err e, s1, w2)
           | (Panic, s1, w2) \<Rightarrow> (Panic, s1, w2))
      | (_, w1) \<Rightarrow> (Panic, s, w1))"

section \<open>Receiver\<close>

text \<open>Accepting the key-agreement message of a frame whose epoch is not known yet.\<close>

definition accept_kam ::
  "prims \<Rightarrow> SealedDmFrame \<Rightarrow> bytes \<Rightarrow> DmSession \<Rightarrow> (dm_session_error, DmSession) res" where
  "accept_kam P frame my_hybrid_priv s =
     (case fr_kam frame of
        None \<Rightarrow> Ok s
      | Some kam \<Rightarrow>
          (case fmlookup (ds_epoch_secrets s) (fr_epoch frame) of
             Some _ \<Rightarrow> Ok s
           | None \<Rightarrow>
               map_ok (\<lambda>secret.
                   s\<lparr>ds_epoch_secrets := fmupd (fr_epoch frame) secret (ds_epoch_secrets s)\<rparr>)
                 (map_err SessionRatchet (unwrap_dm_epoch_secret P kam my_hybrid_priv))))"

text \<open>
  Decryption under a known epoch secret. \<open>Nonce::from_slice\<close> panics on a slice that is not
  12 bytes long.
\<close>

definition open_frame :: "prims \<Rightarrow> SealedDmFrame \<Rightarrow> bytes \<Rightarrow> (dm_session_error, bytes) res" where
  "open_frame P frame secret =
     and_then (map_err SessionRatchet
        (derive_dm_message_key P secret (fr_epoch frame) (fr_index frame))) (\<lambda>key.
       let aad = frame_aad (fr_epoch frame) (fr_index frame)
       in if length (fr_nonce frame) \<noteq> 12 then Panic
          else ok_or OpenFailed (gcm_decrypt P key (fr_nonce frame) aad (fr_body frame)))"

definition DmSession_open ::
  "prims \<Rightarrow> SealedDmFrame \<Rightarrow> bytes \<Rightarrow> DmSession \<Rightarrow> (dm_session_error, bytes) res \<times> DmSession" where
  "DmSession_open P frame my_hybrid_priv s =
     (case accept_kam P frame my_hybrid_priv s of
        Err e \<Rightarrow> (Err e, s)
      | Panic \<Rightarrow> (Panic, s)
      | Ok s1 \<Rightarrow>
          (case fmlookup (ds_epoch_secrets s1) (fr_epoch frame) of
             None \<Rightarrow> (Err (MissingEpochSecret (fr_epoch frame)), s1)
           | Some secret \<Rightarrow> (open_frame P frame secret, s1)))"

section \<open>Well-formed sessions\<close>

text \<open>
  The session invariant: stored secrets have 32 bytes, and the outbound ratchet, when there is
  one, agrees with the session: its secret is the stored one of its epoch, its bounds are the
  session's, a key-agreement message is at hand, and its counter has not passed the bound (or
  is at the first message of an epoch, which a bound of 0 lets through).
\<close>

definition ratchet_wf :: "DmSession \<Rightarrow> DmRatchet \<Rightarrow> bool" where
  "ratchet_wf s r \<longleftrightarrow>
     fmlookup (ds_epoch_secrets s) (dr_epoch r) = Some (dr_epoch_secret r) \<and>
     dr_rekey_msg_bound r = ds_rekey_msg_bound s \<and>
     dr_rekey_age_seconds r = ds_rekey_age_seconds s \<and>
     ds_current_kam s \<noteq> None \<and>
     dr_message_index r \<le> max (ds_rekey_msg_bound s) 1"

definition session_wf :: "DmSession \<Rightarrow> bool" where
  "session_wf s \<longleftrightarrow>
     (\<forall>e secret. fmlookup (ds_epoch_secrets s) e = Some secret \<longrightarrow> length secret = 32) \<and>
     (case ds_ratchet s of None \<Rightarrow> True | Some r \<Rightarrow> ratchet_wf s r)"

lemma session_wfD:
  assumes "session_wf s"
  shows "fmlookup (ds_epoch_secrets s) e = Some secret \<Longrightarrow> length secret = 32"
    "ds_ratchet s = Some r \<Longrightarrow> ratchet_wf s r" "ds_ratchet s = Some r \<Longrightarrow> dm_ready r"
  using assms by (auto simp: session_wf_def dm_ready_def ratchet_wf_def)

lemma session_wf_new: "session_wf (DmSession_with_bounds peer bound age)"
  by (simp add: session_wf_def DmSession_with_bounds_def)

section \<open>Sealing, step by step\<close>

lemma begin_epoch_ErrD:
  "begin_epoch P e pk s w = (Err x, s', w') \<Longrightarrow> s' = s"
  by (auto simp: begin_epoch_def Let_def split: prod.splits res.splits)

lemma begin_epoch_OkE:
  assumes "begin_epoch P e pk s w = (Ok (), s', w')"
  obtains secret w1 kam w2 r where
    "fill_bytes 32 w = (secret, w1)" "length secret = 32"
    "wrap_dm_epoch_secret P secret pk w1 = (Ok kam, w2)"
    "s' = s\<lparr>ds_ratchet := Some r, ds_epoch_secrets := fmupd e secret (ds_epoch_secrets s),
            ds_current_kam := Some kam\<rparr>"
    "r = \<lparr>dr_epoch = e, dr_epoch_secret = secret, dr_message_index = 0,
          dr_rekey_msg_bound = ds_rekey_msg_bound s, dr_rekey_age_seconds = ds_rekey_age_seconds s,
          dr_epoch_started_at = fst (now_seconds w2)\<rparr>"
  using assms
  by (auto simp: begin_epoch_def new_epoch_secret_def DmRatchet_with_bounds_def Let_def
      dest: fill_bytes_length split: prod.splits res.splits)

lemma begin_epoch_not_Panic: "begin_epoch P e pk s w \<noteq> (Panic, s', w')"
  using wrap_dm_not_Panic
  by (auto simp: begin_epoch_def Let_def split: prod.splits res.splits) (metis fst_conv)

lemma begin_epoch_wf:
  assumes "begin_epoch P e pk s w = (Ok (), s', w')" "session_wf s"
  shows "session_wf s'"
  using assms(1)
proof (rule begin_epoch_OkE)
  fix secret w1 kam w2 r
  assume "length secret = 32"
    and s': "s' = s\<lparr>ds_ratchet := Some r, ds_epoch_secrets := fmupd e secret (ds_epoch_secrets s),
            ds_current_kam := Some kam\<rparr>"
    and r: "r = \<lparr>dr_epoch = e, dr_epoch_secret = secret, dr_message_index = 0,
          dr_rekey_msg_bound = ds_rekey_msg_bound s, dr_rekey_age_seconds = ds_rekey_age_seconds s,
          dr_epoch_started_at = fst (now_seconds w2)\<rparr>"
  then show ?thesis using assms(2)
    by (auto simp: session_wf_def ratchet_wf_def)
qed

text \<open>Sealing in the current epoch: the slot used, the state left, the frame sent.\<close>

lemma seal_frame_eq:
  assumes r: "ds_ratchet s = Some r" "dm_ready r"
  shows "seal_frame P chk pt s w =
    (case u64_succ chk (dr_message_index r) of
       None \<Rightarrow> (Panic, s, w)
     | Some i \<Rightarrow>
         (let s1 = s\<lparr>ds_ratchet := Some (r\<lparr>dr_message_index := i\<rparr>)\<rparr>;
              (nonce, w1) = fill_bytes 12 w
          in case gcm_encrypt P (dm_key_at P r (dr_message_index r)) nonce
                    (frame_aad (dr_epoch r) (dr_message_index r)) pt of
               None \<Rightarrow> (Err OpenFailed, s1, w1)
             | Some body \<Rightarrow>
                 (Ok \<lparr>fr_epoch = dr_epoch r, fr_index = dr_message_index r, fr_nonce = nonce,
                      fr_body = body,
                      fr_kam = (if dr_message_index r < 3 then ds_current_kam s else None)\<rparr>,
                  s1, w1)))"
proof -
  have eta: "s\<lparr>ds_ratchet := Some r\<rparr> = s" using r(1) by simp
  show ?thesis
    using r eta
    by (simp add: seal_frame_def dm_next_outbound FRAME_NONCE_LEN_def KAM_REPEAT_def Let_def
        split: option.split prod.split)
qed

text \<open>How the epoch of a \<open>seal\<close> is settled.\<close>

lemma begin_at_cases:
  obtains (first) "ds_ratchet s = None" "begin_at chk s w = (Ok (Some 0), w)"
  | (stay) r w1 where "ds_ratchet s = Some r" "DmRatchet_should_rekey r None w = (False, w1)"
      "begin_at chk s w = (Ok None, w1)"
  | (roll) r w1 e where "ds_ratchet s = Some r" "DmRatchet_should_rekey r None w = (True, w1)"
      "u64_succ chk (dr_epoch r) = Some e" "begin_at chk s w = (Ok (Some e), w1)"
  | (overflow) r w1 where "ds_ratchet s = Some r" "DmRatchet_should_rekey r None w = (True, w1)"
      "u64_succ chk (dr_epoch r) = None" "begin_at chk s w = (Panic, w1)"
proof (cases "ds_ratchet s")
  case None
  then show ?thesis by (intro first) (simp_all add: begin_at_def)
next
  case (Some r)
  obtain b w1 where b: "DmRatchet_should_rekey r None w = (b, w1)" by fastforce
  show ?thesis
  proof (cases b)
    case False
    then show ?thesis using Some b by (intro stay) (simp_all add: begin_at_def)
  next
    case True
    show ?thesis
    proof (cases "u64_succ chk (dr_epoch r)")
      case None
      then show ?thesis using Some b True by (intro overflow) (simp_all add: begin_at_def)
    next
      case (Some e)
      then show ?thesis using \<open>ds_ratchet s = Some r\<close> b True
        by (intro roll) (simp_all add: begin_at_def)
    qed
  qed
qed

lemma not_rekey_index:
  assumes "DmRatchet_should_rekey r None w = (False, w1)"
  shows "dr_message_index r < dr_rekey_msg_bound r"
  using assms
  by (auto simp: DmRatchet_should_rekey_def Let_def dest: should_rekey_not_msg split: prod.splits)

text \<open>
  A \<open>seal\<close> on a well-formed session ends in one of four ways: the epoch number overflows (in a
  checked build), beginning the epoch fails and the session is as before, or the frame is
  sealed (or its encryption fails) in a session that sits at a slot of the current or of a
  freshly begun epoch.
\<close>

inductive seal_ready :: "prims \<Rightarrow> bool \<Rightarrow> bytes \<Rightarrow> DmSession \<Rightarrow> DmSession \<Rightarrow> DmRatchet \<Rightarrow> bool"
  for P chk pk s where
  same: "\<lbrakk>ds_ratchet s = Some r; dr_message_index r < ds_rekey_msg_bound s\<rbrakk>
    \<Longrightarrow> seal_ready P chk pk s s r"
| fresh: "\<lbrakk>begin_epoch P e pk s w = (Ok (), s1, w1); ds_ratchet s1 = Some r; dr_message_index r = 0;
      dr_epoch r = e; case ds_ratchet s of None \<Rightarrow> e = 0 | Some r0 \<Rightarrow> u64_succ chk (dr_epoch r0) = Some e\<rbrakk>
    \<Longrightarrow> seal_ready P chk pk s s1 r"

inductive_cases seal_readyE: "seal_ready P chk pk s s1 r"

lemma seal_ready_wf:
  assumes "seal_ready P chk pk s s1 r" "session_wf s"
  shows "session_wf s1" "ds_ratchet s1 = Some r" "dm_ready r"
    "dr_message_index r \<noteq> - 1" "dr_message_index r < max (ds_rekey_msg_bound s) 1"
  using assms
  by (induction rule: seal_ready.induct)
     (auto dest: begin_epoch_wf session_wfD u64_less_not_max simp: less_max_iff_disj)

lemma begin_epoch_cases:
  obtains (ok) s1 w1 r where "begin_epoch P e pk s w = (Ok (), s1, w1)" "ds_ratchet s1 = Some r"
      "dr_message_index r = 0" "dr_epoch r = e"
  | (err) x w1 where "begin_epoch P e pk s w = (Err (SessionRatchet x), s, w1)"
proof (cases "begin_epoch P e pk s w")
  case (fields res s1 w1)
  show ?thesis
  proof (cases res)
    case (Ok u)
    with fields have b: "begin_epoch P e pk s w = (Ok (), s1, w1)" by simp
    then obtain r where "ds_ratchet s1 = Some r" "dr_message_index r = 0" "dr_epoch r = e"
      by (rule begin_epoch_OkE) simp
    with b show ?thesis by (rule ok)
  next
    case (Err x)
    moreover have "s1 = s" using fields Err by (auto dest: begin_epoch_ErrD)
    moreover obtain y where "x = SessionRatchet y"
      using Err fields by (auto simp: begin_epoch_def Let_def split: prod.splits res.splits)
    ultimately show ?thesis using err fields by simp
  next
    case Panic
    with fields begin_epoch_not_Panic show ?thesis by blast
  qed
qed

lemma seal_begins:
  assumes "begin_at chk s w = (Ok (Some e), w0)"
    and "case ds_ratchet s of None \<Rightarrow> e = 0 | Some r0 \<Rightarrow> u64_succ chk (dr_epoch r0) = Some e"
  obtains (no_epoch) x w1 where "DmSession_seal P chk pt pk s w = (Err (SessionRatchet x), s, w1)"
      "begin_epoch P e pk s w0 = (Err (SessionRatchet x), s, w1)"
  | (sealed) s1 r w1 where "seal_ready P chk pk s s1 r"
      "DmSession_seal P chk pt pk s w = seal_frame P chk pt s1 w1"
proof (cases rule: begin_epoch_cases [of P e pk s w0])
  case (ok s1 w1 r)
  have "seal_ready P chk pk s s1 r" by (rule seal_ready.fresh [OF ok assms(2)])
  then show ?thesis using ok(1) assms(1) by (intro sealed) (simp_all add: DmSession_seal_def)
next
  case (err x w1)
  then show ?thesis using assms(1) by (intro no_epoch) (simp_all add: DmSession_seal_def)
qed

lemma seal_cases:
  assumes wf: "session_wf s"
  obtains (overflow) w1 where "DmSession_seal P chk pt pk s w = (Panic, s, w1)" "chk"
      "\<exists>r. ds_ratchet s = Some r \<and> dr_epoch r = - 1"
  | (no_epoch) x w1 e w0 where "DmSession_seal P chk pt pk s w = (Err (SessionRatchet x), s, w1)"
      "begin_epoch P e pk s w0 = (Err (SessionRatchet x), s, w1)"
  | (sealed) s1 r w1 where "seal_ready P chk pk s s1 r"
      "DmSession_seal P chk pt pk s w = seal_frame P chk pt s1 w1"
proof (cases rule: begin_at_cases [of s chk w])
  case first
  show ?thesis
    by (rule seal_begins [OF first(2), of P pt pk]) (use first(1) no_epoch sealed in auto)
next
  case (stay r w1)
  then have "dr_message_index r < ds_rekey_msg_bound s"
    using not_rekey_index [OF stay(2)] session_wfD(2) [OF wf stay(1)] by (simp add: ratchet_wf_def)
  then have "seal_ready P chk pk s s r" using stay(1) by (intro seal_ready.same)
  then show ?thesis using stay by (intro sealed) (simp_all add: DmSession_seal_def)
next
  case (roll r w0 n)
  show ?thesis
    by (rule seal_begins [OF roll(4), of P pt pk]) (use roll(1,3) no_epoch sealed in auto)
next
  case (overflow r w1)
  then show ?thesis
    using that(1) by (auto simp: DmSession_seal_def u64_succ_def split: if_splits)
qed

text \<open>A sealed frame, and the session after it.\<close>

lemma seal_frame_ready:
  assumes "seal_ready P chk pk s s1 r" "session_wf s"
  shows "seal_frame P chk pt s1 w =
    (let s' = s1\<lparr>ds_ratchet := Some (r\<lparr>dr_message_index := dr_message_index r + 1\<rparr>)\<rparr>;
         (nonce, w1) = fill_bytes 12 w
     in case gcm_encrypt P (dm_key_at P r (dr_message_index r)) nonce
               (frame_aad (dr_epoch r) (dr_message_index r)) pt of
          None \<Rightarrow> (Err OpenFailed, s', w1)
        | Some body \<Rightarrow>
            (Ok \<lparr>fr_epoch = dr_epoch r, fr_index = dr_message_index r, fr_nonce = nonce,
                 fr_body = body,
                 fr_kam = (if dr_message_index r < 3 then ds_current_kam s1 else None)\<rparr>,
             s', w1))"
  using seal_ready_wf [OF assms] by (simp add: seal_frame_eq)

lemma seal_OkE:
  assumes "DmSession_seal P chk pt pk s w = (Ok f, s', w')" "session_wf s"
  obtains s1 r nonce body where "seal_ready P chk pk s s1 r"
    "s' = s1\<lparr>ds_ratchet := Some (r\<lparr>dr_message_index := dr_message_index r + 1\<rparr>)\<rparr>"
    "gcm_encrypt P (dm_key_at P r (dr_message_index r)) nonce
       (frame_aad (dr_epoch r) (dr_message_index r)) pt = Some body"
    "length nonce = 12"
    "f = \<lparr>fr_epoch = dr_epoch r, fr_index = dr_message_index r, fr_nonce = nonce, fr_body = body,
          fr_kam = (if dr_message_index r < 3 then ds_current_kam s1 else None)\<rparr>"
  using assms(2)
proof (cases rule: seal_cases [of s P chk pt pk w])
  case (sealed s1 r w1)
  obtain nonce w2 where n: "fill_bytes 12 w1 = (nonce, w2)" by fastforce
  show ?thesis
    using assms(1) n that [OF sealed(1)] fill_bytes_length [OF n]
    by (auto simp: sealed(2) seal_frame_ready [OF sealed(1) assms(2)] Let_def split: option.splits)
qed (use assms in auto)

lemma seal_ready_bound:
  "seal_ready P chk pk s s1 r \<Longrightarrow> ds_rekey_msg_bound s1 = ds_rekey_msg_bound s"
  by (induction rule: seal_ready.induct) (auto elim: begin_epoch_OkE)

lemma seal_advance_wf:
  assumes "seal_ready P chk pk s s1 r" "session_wf s"
  shows "session_wf (s1\<lparr>ds_ratchet := Some (r\<lparr>dr_message_index := dr_message_index r + 1\<rparr>)\<rparr>)"
proof -
  note wf = seal_ready_wf [OF assms]
  note b = seal_ready_bound [OF assms(1)]
  have "dr_message_index r + 1 \<le> max (ds_rekey_msg_bound s) 1"
    using wf(4,5) by (simp add: inc_le)
  then show ?thesis
    using wf session_wfD(2) [OF wf(1,2)] session_wfD(1) [OF wf(1)] b
    by (auto simp: session_wf_def ratchet_wf_def)
qed

lemma seal_wf:
  assumes "DmSession_seal P chk pt pk s w = (res, s', w')" "session_wf s"
  shows "session_wf s'"
  using assms(2)
proof (cases rule: seal_cases [of s P chk pt pk w])
  case (sealed s1 r w1)
  then show ?thesis
    using assms seal_advance_wf [OF sealed(1) assms(2)]
    by (auto simp: seal_frame_ready [OF sealed(1) assms(2)] Let_def split: prod.splits option.splits)
qed (use assms in auto)

section \<open>Opening\<close>

lemma accept_kam_OkD:
  assumes "accept_kam P f sk s = Ok s1"
  shows "s1 = s \<or> (\<exists>kam secret. fr_kam f = Some kam \<and> fmlookup (ds_epoch_secrets s) (fr_epoch f) = None \<and>
      unwrap_dm_epoch_secret P kam sk = Ok secret \<and>
      s1 = s\<lparr>ds_epoch_secrets := fmupd (fr_epoch f) secret (ds_epoch_secrets s)\<rparr>)"
  using assms by (auto simp: accept_kam_def map_ok_eq_Ok split: option.splits)

lemma accept_kam_wf:
  assumes "accept_kam P f sk s = Ok s1" "session_wf s"
  shows "session_wf s1"
  using accept_kam_OkD [OF assms(1)] assms(2)
  by (auto simp: session_wf_def ratchet_wf_def dest: unwrap_dm_OkD
      split: option.splits if_splits)

lemma accept_kam_not_Panic: "accept_kam P f sk s \<noteq> Panic"
  using unwrap_dm_not_Panic by (auto simp: accept_kam_def split: option.split)

lemma open_wf:
  assumes "DmSession_open P f sk s = (res, s')" "session_wf s"
  shows "session_wf s'"
  using assms accept_kam_wf [OF _ assms(2), of P f sk]
  by (auto simp: DmSession_open_def split: res.splits option.splits)

text \<open>Opening touches nothing but the secret of the frame's epoch, and that only when absent.\<close>

lemma open_state:
  assumes "DmSession_open P f sk s = (res, s')"
  shows "s' = s \<or> (fmlookup (ds_epoch_secrets s) (fr_epoch f) = None \<and>
    (\<exists>kam secret. fr_kam f = Some kam \<and> unwrap_dm_epoch_secret P kam sk = Ok secret \<and>
      s' = s\<lparr>ds_epoch_secrets := fmupd (fr_epoch f) secret (ds_epoch_secrets s)\<rparr>))"
  using assms accept_kam_OkD [of P f sk s]
  by (auto simp: DmSession_open_def split: res.splits option.splits)

text \<open>With the epoch known, the key-agreement message is not looked at.\<close>

lemma open_known_epoch:
  assumes "fmlookup (ds_epoch_secrets s) (fr_epoch f) = Some secret"
  shows "DmSession_open P f sk s = (open_frame P f secret, s)"
  using assms by (simp add: DmSession_open_def accept_kam_def split: option.split)

lemma open_new_epoch:
  assumes "fmlookup (ds_epoch_secrets s) (fr_epoch f) = None" "fr_kam f = Some kam"
    and "unwrap_dm_epoch_secret P kam sk = Ok secret"
  shows "DmSession_open P f sk s =
    (open_frame P f secret, s\<lparr>ds_epoch_secrets := fmupd (fr_epoch f) secret (ds_epoch_secrets s)\<rparr>)"
  using assms by (simp add: DmSession_open_def accept_kam_def)

lemma open_frame_eq:
  assumes "length secret = 32" "length (fr_nonce f) = 12"
  shows "open_frame P f secret =
    ok_or OpenFailed (gcm_decrypt P
      (case dm_message_kdf_input secret (fr_epoch f) (fr_index f) of
         (salt, ikm, info) \<Rightarrow> hkdf_sha256 P salt ikm info)
      (fr_nonce f) (frame_aad (fr_epoch f) (fr_index f)) (fr_body f))"
  using assms by (simp add: open_frame_def derive_dm_message_key_eq)

end
