(* ===== verification/Dm_Network.thy ===== *)
theory Dm_Network
  imports Dm_Session Sample_Prims
begin

text \<open>
  Runs of sessions. \<open>session_run\<close> is everything one session can go through from its creation
  on: seals that succeed or fail, and opens of arbitrary frames. \<open>net_run\<close> is a sender and a
  receiver connected by a network that may lose, reorder and repeat the frames it is given.
  The invariants proved here carry the session's correctness properties.
\<close>

section \<open>The outcome of a seal\<close>

definition slot_less :: "SealedDmFrame \<Rightarrow> SealedDmFrame \<Rightarrow> bool" where
  "slot_less f g \<longleftrightarrow> fr_epoch f < fr_epoch g \<or> (fr_epoch f = fr_epoch g \<and> fr_index f < fr_index g)"

text \<open>A frame made in the session \<open>s1\<close> at the slot of its ratchet \<open>r\<close>.\<close>

definition frame_at :: "prims \<Rightarrow> DmSession \<Rightarrow> DmRatchet \<Rightarrow> bytes \<Rightarrow> SealedDmFrame \<Rightarrow> bool" where
  "frame_at P s1 r pt f \<longleftrightarrow>
     fr_epoch f = dr_epoch r \<and> fr_index f = dr_message_index r \<and> length (fr_nonce f) = 12 \<and>
     gcm_encrypt P (dm_key_at P r (dr_message_index r)) (fr_nonce f)
       (frame_aad (dr_epoch r) (dr_message_index r)) pt = Some (fr_body f) \<and>
     fr_kam f = (if dr_message_index r < 3 then ds_current_kam s1 else None)"

definition advanced :: "DmSession \<Rightarrow> DmRatchet \<Rightarrow> DmSession" where
  "advanced s1 r = s1\<lparr>ds_ratchet := Some (r\<lparr>dr_message_index := dr_message_index r + 1\<rparr>)\<rparr>"

text \<open>
  Every outcome of a seal on a well-formed session whose epoch number is not the largest one:
  it does not panic, a failure to begin the epoch changes nothing, and otherwise the slot of
  the (possibly fresh) epoch is consumed, whether or not the encryption succeeds.
\<close>

lemma seal_outcome:
  assumes "DmSession_seal P chk pt pk s w = (res, s', w')" "session_wf s"
    and "\<forall>r. ds_ratchet s = Some r \<longrightarrow> dr_epoch r \<noteq> - 1"
  obtains (no_epoch) e where "res = Err (SessionRatchet e)" "s' = s"
  | (no_body) s1 r where "seal_ready P chk pk s s1 r" "res = Err OpenFailed" "s' = advanced s1 r"
  | (sealed) s1 r f where "seal_ready P chk pk s s1 r" "res = Ok f" "s' = advanced s1 r"
      "frame_at P s1 r pt f"
  using assms(2)
proof (cases rule: seal_cases [of s P chk pt pk w])
  case (overflow w1)
  then show ?thesis using assms(3) by auto
next
  case (no_epoch e w1)
  then show ?thesis using assms(1) that(1) by auto
next
  case (sealed s1 r w1)
  obtain nonce w2 where n: "fill_bytes 12 w1 = (nonce, w2)" by fastforce
  show ?thesis
  proof (cases "gcm_encrypt P (dm_key_at P r (dr_message_index r)) nonce
      (frame_aad (dr_epoch r) (dr_message_index r)) pt")
    case None
    then show ?thesis
      using assms(1) n that(2) [OF sealed(1)]
      by (auto simp: sealed(2) seal_frame_ready [OF sealed(1) assms(2)] advanced_def)
  next
    case (Some body)
    then show ?thesis
      using assms(1) n that(3) [OF sealed(1)] fill_bytes_length [OF n]
      by (auto simp: sealed(2) seal_frame_ready [OF sealed(1) assms(2)] advanced_def frame_at_def)
  qed
qed

text \<open>The slot a seal uses, in terms of the ratchet before it.\<close>

lemma seal_ready_slot:
  assumes "seal_ready P chk pk s s1 r" "ds_ratchet s = Some r0" "dr_epoch r0 \<noteq> - 1"
  shows "r = r0 \<and> s1 = s \<or> dr_epoch r = dr_epoch r0 + 1 \<and> dr_epoch r0 < dr_epoch r"
  using assms
proof (cases rule: seal_ready.cases)
  case (fresh e w1)
  then have "dr_epoch r = dr_epoch r0 + 1" using assms by simp
  moreover have "unat (dr_epoch r0 + 1) = Suc (unat (dr_epoch r0))" using unat_succ assms(3) by blast
  ultimately show ?thesis by (simp add: word_less_nat_alt)
qed auto

lemma seal_ready_first:
  assumes "seal_ready P chk pk s s1 r" "ds_ratchet s = None"
  shows "dr_epoch r = 0 \<and> dr_message_index r = 0"
  using assms by (auto elim: seal_readyE)

section \<open>Runs of one session\<close>

inductive session_run :: "prims \<Rightarrow> bool \<Rightarrow> nat \<Rightarrow> DmSession \<Rightarrow> SealedDmFrame list \<Rightarrow> bool"
  for P chk where
  start: "session_run P chk 0 (DmSession_with_bounds peer bound age) []"
| seal: "\<lbrakk>session_run P chk n s fs; DmSession_seal P chk pt pk s w = (Ok f, s', w')\<rbrakk>
    \<Longrightarrow> session_run P chk (Suc n) s' (f # fs)"
| seal_failed: "\<lbrakk>session_run P chk n s fs; DmSession_seal P chk pt pk s w = (Err e, s', w')\<rbrakk>
    \<Longrightarrow> session_run P chk (Suc n) s' fs"
| opened: "\<lbrakk>session_run P chk n s fs; DmSession_open P f sk s = (res, s')\<rbrakk>
    \<Longrightarrow> session_run P chk n s' fs"

text \<open>
  The invariant of a run with \<open>n\<close> seals: the session is well-formed, its epoch number is below
  \<open>n\<close>, and every frame sent so far sits at an earlier slot than the next one, the later
  the frame the greater its slot.
\<close>

definition next_slot_above :: "DmRatchet \<Rightarrow> SealedDmFrame \<Rightarrow> bool" where
  "next_slot_above r f \<longleftrightarrow>
     fr_epoch f < dr_epoch r \<or> (fr_epoch f = dr_epoch r \<and> fr_index f < dr_message_index r)"

definition run_inv :: "nat \<Rightarrow> DmSession \<Rightarrow> SealedDmFrame list \<Rightarrow> bool" where
  "run_inv n s fs \<longleftrightarrow>
     session_wf s \<and> sorted_wrt (\<lambda>f g. slot_less g f) fs \<and>
     (case ds_ratchet s of
        None \<Rightarrow> fs = []
      | Some r \<Rightarrow> unat (dr_epoch r) < n \<and> (\<forall>f \<in> set fs. next_slot_above r f))"

lemma run_inv_epoch:
  assumes "run_inv n s fs" "n < 2 ^ 64" "ds_ratchet s = Some r"
  shows "dr_epoch r \<noteq> - 1"
proof -
  have "unat (dr_epoch r) < 2 ^ 64 - 1" using assms by (simp add: run_inv_def)
  then show ?thesis by (metis unat_u64_max less_irrefl)
qed

lemma seal_ready_run:
  assumes inv: "run_inv n s fs" and n: "n < 2 ^ 64" and ready: "seal_ready P chk pk s s1 r"
  shows "unat (dr_epoch r) < Suc n" "\<forall>f \<in> set fs. next_slot_above r f"
proof -
  have "unat (dr_epoch r) < Suc n \<and> (\<forall>f \<in> set fs. next_slot_above r f)"
  proof (cases "ds_ratchet s")
    case None
    then show ?thesis using inv seal_ready_first [OF ready None] by (simp add: run_inv_def)
  next
    case (Some r0)
    note ne = run_inv_epoch [OF inv n Some]
    from seal_ready_slot [OF ready Some ne] inv Some unat_succ [OF ne] show ?thesis
      by (auto simp: run_inv_def next_slot_above_def)
  qed
  then show "unat (dr_epoch r) < Suc n" "\<forall>f \<in> set fs. next_slot_above r f" by auto
qed

lemma index_advances:
  "i \<noteq> - 1 \<Longrightarrow> (i :: u64) < i + 1"
  using unat_succ [of i] by (simp add: word_less_nat_alt)

lemma run_inv_advanced:
  assumes inv: "run_inv n s fs" and n: "n < 2 ^ 64" and ready: "seal_ready P chk pk s s1 r"
  shows "run_inv (Suc n) (advanced s1 r) fs"
    "frame_at P s1 r pt f \<Longrightarrow> run_inv (Suc n) (advanced s1 r) (f # fs)"
proof -
  have wf: "session_wf s" using inv by (simp add: run_inv_def)
  note sr = seal_ready_run [OF inv n ready]
  have ix: "dr_message_index r < dr_message_index r + 1"
    using index_advances seal_ready_wf(4) [OF ready wf] by blast
  have later: "next_slot_above (r\<lparr>dr_message_index := dr_message_index r + 1\<rparr>) g"
    if "next_slot_above r g" for g
    using that ix by (auto simp: next_slot_above_def)
  have s': "session_wf (advanced s1 r)"
    unfolding advanced_def by (rule seal_advance_wf [OF ready wf])
  show "run_inv (Suc n) (advanced s1 r) fs"
    using inv sr later s' by (auto simp: run_inv_def advanced_def)
  assume f: "frame_at P s1 r pt f"
  then have "\<forall>g \<in> set fs. slot_less g f"
    using sr(2) by (simp add: frame_at_def next_slot_above_def slot_less_def)
  moreover have "next_slot_above (r\<lparr>dr_message_index := dr_message_index r + 1\<rparr>) f"
    using f ix by (simp add: frame_at_def next_slot_above_def)
  ultimately show "run_inv (Suc n) (advanced s1 r) (f # fs)"
    using inv sr later s' by (auto simp: run_inv_def advanced_def)
qed

lemma run_inv_seal:
  assumes inv: "run_inv n s fs" and n: "n < 2 ^ 64"
    and seal: "DmSession_seal P chk pt pk s w = (res, s', w')"
  shows "res \<noteq> Panic" "res = Err e \<Longrightarrow> run_inv (Suc n) s' fs"
    "res = Ok f \<Longrightarrow> run_inv (Suc n) s' (f # fs)"
proof -
  have wf: "session_wf s" using inv by (simp add: run_inv_def)
  have ne: "\<forall>r. ds_ratchet s = Some r \<longrightarrow> dr_epoch r \<noteq> - 1" using run_inv_epoch [OF inv n] by blast
  have "res \<noteq> Panic \<and> (res = Err e \<longrightarrow> run_inv (Suc n) s' fs) \<and> (res = Ok f \<longrightarrow> run_inv (Suc n) s' (f # fs))"
    using seal wf ne
  proof (cases rule: seal_outcome)
    case (no_epoch e)
    then show ?thesis using inv by (auto simp: run_inv_def split: option.splits)
  next
    case (no_body s1 r)
    then show ?thesis using run_inv_advanced [OF inv n] by auto
  next
    case (sealed s1 r f)
    then show ?thesis using run_inv_advanced [OF inv n] by auto
  qed
  then show "res \<noteq> Panic" "res = Err e \<Longrightarrow> run_inv (Suc n) s' fs"
    "res = Ok f \<Longrightarrow> run_inv (Suc n) s' (f # fs)" by auto
qed

lemma open_ratchet: "DmSession_open P f sk s = (res, s') \<Longrightarrow> ds_ratchet s' = ds_ratchet s"
  by (drule open_state) auto

lemma run_inv_open:
  assumes "run_inv n s fs" "DmSession_open P f sk s = (res, s')"
  shows "run_inv n s' fs"
  using assms open_wf [OF assms(2)] open_ratchet [OF assms(2)] by (simp add: run_inv_def)

lemma session_run_inv:
  assumes "session_run P chk n s fs" "n < 2 ^ 64"
  shows "run_inv n s fs"
  using assms
proof (induction rule: session_run.induct)
  case (start peer bound age)
  then show ?case by (simp add: run_inv_def session_wf_new) (simp add: DmSession_with_bounds_def)
next
  case (seal n s fs pt pk w f s' w')
  then show ?case using run_inv_seal(3) [of n s fs P chk pt pk w "Ok f"] by simp
next
  case (seal_failed n s fs pt pk w e s' w')
  then show ?case using run_inv_seal(2) [of n s fs P chk pt pk w "Err e"] by simp
next
  case (opened n s fs f sk res s')
  then show ?case by (blast intro: run_inv_open)
qed

lemma sorted_slots_distinct:
  "sorted_wrt (\<lambda>f g. slot_less g f) fs \<Longrightarrow> distinct (map (\<lambda>f. (fr_epoch f, fr_index f)) fs)"
  by (induction fs) (auto simp: slot_less_def)

section \<open>A sender and a receiver on an unreliable network\<close>

text \<open>
  \<open>net_run P chk pk sk n A B sent\<close>: after \<open>n\<close> seals by \<open>A\<close> to the key \<open>pk\<close> of \<open>B\<close>, the frames
  \<open>sent\<close> (with their plaintexts) were sent; \<open>B\<close> opened some of them, in any order, some
  perhaps several times, some never.
\<close>

inductive net_run ::
  "prims \<Rightarrow> bool \<Rightarrow> bytes \<Rightarrow> bytes \<Rightarrow> nat \<Rightarrow> DmSession \<Rightarrow> DmSession \<Rightarrow> (SealedDmFrame \<times> bytes) list \<Rightarrow> bool"
  for P chk pk sk where
  start: "net_run P chk pk sk 0 (DmSession_with_bounds b bound age)
            (DmSession_with_bounds a bound' age') []"
| send: "\<lbrakk>net_run P chk pk sk n A B sent; DmSession_seal P chk pt pk A w = (Ok f, A', w')\<rbrakk>
    \<Longrightarrow> net_run P chk pk sk (Suc n) A' B ((f, pt) # sent)"
| send_failed: "\<lbrakk>net_run P chk pk sk n A B sent; DmSession_seal P chk pt pk A w = (Err e, A', w')\<rbrakk>
    \<Longrightarrow> net_run P chk pk sk (Suc n) A' B sent"
| deliver: "\<lbrakk>net_run P chk pk sk n A B sent; (f, pt) \<in> set sent; DmSession_open P f sk B = (res, B')\<rbrakk>
    \<Longrightarrow> net_run P chk pk sk n A B' sent"

text \<open>A frame that is a sealing of \<open>pt\<close> under the epoch secret \<open>sec\<close>.\<close>

definition frame_key :: "prims \<Rightarrow> bytes \<Rightarrow> SealedDmFrame \<Rightarrow> bytes" where
  "frame_key P sec f =
     (case dm_message_kdf_input sec (fr_epoch f) (fr_index f) of
        (salt, ikm, info) \<Rightarrow> hkdf_sha256 P salt ikm info)"

definition frame_seals :: "prims \<Rightarrow> bytes \<Rightarrow> bytes \<Rightarrow> SealedDmFrame \<Rightarrow> bytes \<Rightarrow> bool" where
  "frame_seals P sk sec f pt \<longleftrightarrow>
     length sec = 32 \<and> length (fr_nonce f) = 12 \<and>
     gcm_encrypt P (frame_key P sec f) (fr_nonce f) (frame_aad (fr_epoch f) (fr_index f)) pt =
       Some (fr_body f) \<and>
     (fr_kam f \<noteq> None \<longleftrightarrow> fr_index f < 3) \<and>
     (\<forall>kam. fr_kam f = Some kam \<longrightarrow> unwrap_dm_epoch_secret P kam sk = Ok sec)"

lemma frame_seals_open:
  assumes "frame_seals P sk sec f pt" "kdf_sizes P" "gcm_laws P"
  shows "open_frame P f sec = Ok pt"
proof -
  have "length (frame_key P sec f) = 32"
    using assms(2) by (simp add: frame_key_def dm_message_kdf_input_def)
  then have "gcm_decrypt P (frame_key P sec f) (fr_nonce f)
      (frame_aad (fr_epoch f) (fr_index f)) (fr_body f) = Some pt"
    using assms unfolding frame_seals_def by (blast intro: gcm_decrypt_encrypt)
  then show ?thesis using assms(1) by (simp add: open_frame_eq frame_seals_def frame_key_def)
qed

lemma frame_seals_fits:
  assumes "frame_seals P sk sec f pt" "kdf_sizes P" "gcm_laws P"
  shows "length (fr_body f) = length pt + 16" "length pt < 2 ^ 32 - 16 \<Longrightarrow> frame_fits f"
proof -
  have key: "length (frame_key P sec f) = 32"
    using assms(2) by (simp add: frame_key_def dm_message_kdf_input_def)
  show body: "length (fr_body f) = length pt + 16"
    using assms(1) gcm_encrypt_length [OF assms(3) key] by (auto simp: frame_seals_def)
  have "length kam = 1180" if "fr_kam f = Some kam" for kam
    using assms(1) that unwrap_dm_OkD by (auto simp: frame_seals_def)
  then show "length pt < 2 ^ 32 - 16 \<Longrightarrow> frame_fits f"
    using assms(1) body by (auto simp: frame_fits_def frame_seals_def split: option.split)
qed

text \<open>
  The sender's invariant adds to \<open>run_inv\<close> that no stored epoch is beyond the current one and
  that the key-agreement message at hand carries the current secret.
\<close>

definition sender_inv :: "prims \<Rightarrow> bytes \<Rightarrow> nat \<Rightarrow> DmSession \<Rightarrow> bool" where
  "sender_inv P sk n A \<longleftrightarrow>
     session_wf A \<and>
     (case ds_ratchet A of
        None \<Rightarrow> ds_epoch_secrets A = fmempty
      | Some r \<Rightarrow>
          unat (dr_epoch r) < n \<and>
          (\<forall>e sec. fmlookup (ds_epoch_secrets A) e = Some sec \<longrightarrow> e \<le> dr_epoch r) \<and>
          (\<forall>kam. ds_current_kam A = Some kam \<longrightarrow>
             unwrap_dm_epoch_secret P kam sk = Ok (dr_epoch_secret r)))"

definition net_inv ::
  "prims \<Rightarrow> bytes \<Rightarrow> nat \<Rightarrow> DmSession \<Rightarrow> DmSession \<Rightarrow> (SealedDmFrame \<times> bytes) list \<Rightarrow> bool" where
  "net_inv P sk n A B sent \<longleftrightarrow>
     sender_inv P sk n A \<and>
     (\<forall>e sec. fmlookup (ds_epoch_secrets B) e = Some sec \<longrightarrow> fmlookup (ds_epoch_secrets A) e = Some sec) \<and>
     (\<forall>(f, pt) \<in> set sent. \<exists>sec. fmlookup (ds_epoch_secrets A) (fr_epoch f) = Some sec \<and>
        frame_seals P sk sec f pt)"

lemma sender_inv_epoch:
  assumes "sender_inv P sk n A" "n < 2 ^ 64"
  shows "\<forall>r. ds_ratchet A = Some r \<longrightarrow> dr_epoch r \<noteq> - 1"
proof (intro allI impI)
  fix r
  assume "ds_ratchet A = Some r"
  then have "unat (dr_epoch r) < 2 ^ 64 - 1" using assms by (simp add: sender_inv_def)
  then show "dr_epoch r \<noteq> - 1" by (metis unat_u64_max less_irrefl)
qed

text \<open>
  Settling the epoch of a seal keeps the sender's invariant and every secret already stored:
  a fresh epoch is one that was not stored yet.
\<close>

lemma seal_ready_sender:
  assumes inv: "sender_inv P sk n A" and n: "n < 2 ^ 64" and pair: "seal_pair P pk sk"
    and ready: "seal_ready P chk pk A s1 r"
  shows "sender_inv P sk (Suc n) s1" "ds_ratchet s1 = Some r"
    "fmlookup (ds_epoch_secrets A) e = Some sec \<Longrightarrow> fmlookup (ds_epoch_secrets s1) e = Some sec"
proof -
  have wf: "session_wf A" using inv by (simp add: sender_inv_def)
  note sr = seal_ready_wf [OF ready wf]
  have "sender_inv P sk (Suc n) s1 \<and>
      (fmlookup (ds_epoch_secrets A) e = Some sec \<longrightarrow> fmlookup (ds_epoch_secrets s1) e = Some sec)"
    using ready
  proof (cases rule: seal_ready.cases)
    case same
    then show ?thesis using inv by (simp add: sender_inv_def)
  next
    case (fresh x w1)
    have old: "e' < x" if "fmlookup (ds_epoch_secrets A) e' = Some sec'" for e' sec'
    proof (cases "ds_ratchet A")
      case None
      then show ?thesis using inv that by (simp add: sender_inv_def)
    next
      case (Some r0)
      have ne: "dr_epoch r0 \<noteq> - 1" using sender_inv_epoch [OF inv n] Some by blast
      then have "x = dr_epoch r0 + 1" using fresh Some by simp
      moreover have "e' \<le> dr_epoch r0" using inv that Some by (simp add: sender_inv_def)
      ultimately show ?thesis using index_advances [OF ne] by simp
    qed
    have x: "unat x < Suc n"
    proof (cases "ds_ratchet A")
      case None
      then show ?thesis using fresh by simp
    next
      case (Some r0)
      have ne: "dr_epoch r0 \<noteq> - 1" using sender_inv_epoch [OF inv n] Some by blast
      then show ?thesis using fresh Some inv unat_succ [OF ne] by (simp add: sender_inv_def)
    qed
    obtain secret wa kam wb r' where b:
      "wrap_dm_epoch_secret P secret pk wa = (Ok kam, wb)"
      "s1 = A\<lparr>ds_ratchet := Some r', ds_epoch_secrets := fmupd x secret (ds_epoch_secrets A),
            ds_current_kam := Some kam\<rparr>" "dr_epoch r' = x" "dr_epoch_secret r' = secret"
      using fresh(1) by (rule begin_epoch_OkE) simp
    have "r' = r" using b(2) sr(2) by simp
    moreover have "unwrap_dm_epoch_secret P kam sk = Ok secret"
      by (rule wrap_dm_opens(2) [OF pair b(1)])
    moreover have "e' \<le> x" if "fmlookup (ds_epoch_secrets s1) e' = Some sec'" for e' sec'
      using that b(2) old by (force split: if_splits)
    ultimately have "sender_inv P sk (Suc n) s1"
      using b x sr(1,2) by (simp add: sender_inv_def)
    moreover have "fmlookup (ds_epoch_secrets s1) e = Some sec"
      if "fmlookup (ds_epoch_secrets A) e = Some sec"
      using that old [OF that] b(2) by auto
    ultimately show ?thesis by blast
  qed
  then show "sender_inv P sk (Suc n) s1" "ds_ratchet s1 = Some r"
    "fmlookup (ds_epoch_secrets A) e = Some sec \<Longrightarrow> fmlookup (ds_epoch_secrets s1) e = Some sec"
    using sr(2) by auto
qed

lemma sender_inv_advanced:
  assumes "sender_inv P sk n s1" "ds_ratchet s1 = Some r" "session_wf (advanced s1 r)"
  shows "sender_inv P sk n (advanced s1 r)"
  using assms by (simp add: sender_inv_def advanced_def)

text \<open>A frame sealed at the slot of \<open>r\<close> is one of its epoch's frames.\<close>

lemma frame_at_seals:
  assumes "sender_inv P sk n s1" "ds_ratchet s1 = Some r" "frame_at P s1 r pt f"
  shows "fmlookup (ds_epoch_secrets s1) (fr_epoch f) = Some (dr_epoch_secret r)"
    "frame_seals P sk (dr_epoch_secret r) f pt"
proof -
  have wf: "session_wf s1" using assms(1) by (simp add: sender_inv_def)
  have rw: "ratchet_wf s1 r" by (rule session_wfD(2) [OF wf assms(2)])
  then show *: "fmlookup (ds_epoch_secrets s1) (fr_epoch f) = Some (dr_epoch_secret r)"
    using assms(3) by (simp add: frame_at_def ratchet_wf_def)
  obtain kam where "ds_current_kam s1 = Some kam" using rw by (auto simp: ratchet_wf_def)
  then show "frame_seals P sk (dr_epoch_secret r) f pt"
    using assms session_wfD(1) [OF wf *]
    by (auto simp: frame_at_def frame_seals_def frame_key_def dm_key_at_def sender_inv_def
        split: if_splits)
qed

lemma net_inv_seal:
  assumes inv: "net_inv P sk n A B sent" and n: "n < 2 ^ 64" and pair: "seal_pair P pk sk"
    and seal: "DmSession_seal P chk pt pk A w = (res, A', w')"
  shows "res = Ok f \<Longrightarrow> net_inv P sk (Suc n) A' B ((f, pt) # sent)"
    "res = Err e \<Longrightarrow> net_inv P sk (Suc n) A' B sent"
proof -
  have si: "sender_inv P sk n A" using inv by (simp add: net_inv_def)
  then have wf: "session_wf A" by (simp add: sender_inv_def)
  have moved: "net_inv P sk (Suc n) (advanced s1 r) B sent"
    "frame_at P s1 r pt g \<Longrightarrow> net_inv P sk (Suc n) (advanced s1 r) B ((g, pt) # sent)"
    if ready: "seal_ready P chk pk A s1 r" for s1 r g
  proof -
    note s1 = seal_ready_sender [OF si n pair ready]
    have adv: "sender_inv P sk (Suc n) (advanced s1 r)"
      using seal_advance_wf [OF ready wf]
      by (intro sender_inv_advanced s1) (simp add: advanced_def)
    have secrets: "ds_epoch_secrets (advanced s1 r) = ds_epoch_secrets s1"
      by (simp add: advanced_def)
    show base: "net_inv P sk (Suc n) (advanced s1 r) B sent"
      using inv adv s1(3) unfolding net_inv_def secrets by fastforce
    show "net_inv P sk (Suc n) (advanced s1 r) B ((g, pt) # sent)" if "frame_at P s1 r pt g"
      using base frame_at_seals [OF s1(1,2) that] unfolding net_inv_def secrets by auto
  qed
  have ne: "\<forall>r. ds_ratchet A = Some r \<longrightarrow> dr_epoch r \<noteq> - 1" by (rule sender_inv_epoch [OF si n])
  have "(res = Ok f \<longrightarrow> net_inv P sk (Suc n) A' B ((f, pt) # sent)) \<and>
      (res = Err e \<longrightarrow> net_inv P sk (Suc n) A' B sent)"
    using seal wf ne
  proof (cases rule: seal_outcome)
    case (no_epoch e)
    then show ?thesis using inv by (auto simp: net_inv_def sender_inv_def split: option.splits)
  next
    case (no_body s1 r)
    then show ?thesis using moved(1) by simp
  next
    case (sealed s1 r g)
    then show ?thesis using moved(2) by auto
  qed
  then show "res = Ok f \<Longrightarrow> net_inv P sk (Suc n) A' B ((f, pt) # sent)"
    "res = Err e \<Longrightarrow> net_inv P sk (Suc n) A' B sent" by auto
qed

text \<open>What the receiver makes of a frame of its sender.\<close>

lemma net_open:
  assumes inv: "net_inv P sk n A B sent" and laws: "kdf_sizes P" "gcm_laws P"
    and f: "(f, pt) \<in> set sent"
  shows "DmSession_open P f sk B =
    (if fmlookup (ds_epoch_secrets B) (fr_epoch f) \<noteq> None then (Ok pt, B)
     else if fr_index f < 3 then
       (Ok pt, B\<lparr>ds_epoch_secrets := fmupd (fr_epoch f)
                  (the (fmlookup (ds_epoch_secrets A) (fr_epoch f))) (ds_epoch_secrets B)\<rparr>)
     else (Err (MissingEpochSecret (fr_epoch f)), B))"
proof -
  obtain sec where sec: "fmlookup (ds_epoch_secrets A) (fr_epoch f) = Some sec"
    and fs: "frame_seals P sk sec f pt"
    using inv f by (auto simp: net_inv_def)
  note op = frame_seals_open [OF fs laws]
  show ?thesis
  proof (cases "fmlookup (ds_epoch_secrets B) (fr_epoch f)")
    case None
    then show ?thesis
      using fs op sec
      by (cases "fr_kam f") (auto simp: frame_seals_def open_new_epoch DmSession_open_def accept_kam_def)
  next
    case (Some sec')
    then have "sec' = sec" using inv sec by (auto simp: net_inv_def)
    then show ?thesis using Some op by (simp add: open_known_epoch)
  qed
qed

lemma net_inv_open:
  assumes inv: "net_inv P sk n A B sent" and laws: "kdf_sizes P" "gcm_laws P"
    and f: "(f, pt) \<in> set sent" and op: "DmSession_open P f sk B = (res, B')"
  shows "net_inv P sk n A B' sent"
proof -
  obtain sec where "fmlookup (ds_epoch_secrets A) (fr_epoch f) = Some sec"
    using inv f by (auto simp: net_inv_def)
  then show ?thesis
    using inv op unfolding net_open [OF inv laws f]
    by (auto simp: net_inv_def split: if_splits)
qed

lemma net_run_inv:
  assumes "net_run P chk pk sk n A B sent" "n < 2 ^ 64" "seal_pair P pk sk" "kdf_sizes P"
  shows "net_inv P sk n A B sent"
  using assms(1,2)
proof (induction rule: net_run.induct)
  case (start b bound age a bound' age')
  then show ?case
    by (simp add: net_inv_def sender_inv_def session_wf_new) (simp add: DmSession_with_bounds_def)
next
  case (send n A B sent pt w f A' w')
  then show ?case using net_inv_seal(1) [of P sk n A B sent pk chk pt w "Ok f"] assms(3) by simp
next
  case (send_failed n A B sent pt w e A' w')
  then show ?case using net_inv_seal(2) [of P sk n A B sent pk chk pt w "Err e"] assms(3) by simp
next
  case (deliver n A B sent f pt res B')
  have "gcm_laws P" using assms(3) by (simp add: seal_pair_def)
  with deliver assms(4) show ?case by (blast intro: net_inv_open)
qed

section \<open>What the receiver accepts\<close>

text \<open>
  A forgery against the run: a text that the AEAD accepts under the key of a message slot of the
  sender's, although the sender sent no frame of that slot with this nonce and body.
\<close>

definition same_cipher :: "SealedDmFrame \<Rightarrow> SealedDmFrame \<Rightarrow> bool" where
  "same_cipher f g \<longleftrightarrow> fr_epoch f = fr_epoch g \<and> fr_index f = fr_index g \<and>
     fr_nonce f = fr_nonce g \<and> fr_body f = fr_body g"

definition dm_forgery ::
  "prims \<Rightarrow> DmSession \<Rightarrow> (SealedDmFrame \<times> bytes) list \<Rightarrow> SealedDmFrame \<Rightarrow> bool" where
  "dm_forgery P A sent f \<longleftrightarrow>
     (\<exists>sec pt. fmlookup (ds_epoch_secrets A) (fr_epoch f) = Some sec \<and>
        gcm_decrypt P (frame_key P sec f) (fr_nonce f) (frame_aad (fr_epoch f) (fr_index f)) (fr_body f) =
          Some pt) \<and>
     list_all (\<lambda>(g, pt). \<not> same_cipher f g) sent"

lemma open_same_cipher:
  "same_cipher f g \<Longrightarrow> open_frame P f sec = open_frame P g sec"
  by (simp add: same_cipher_def open_frame_def cong: if_cong)

lemma net_accepts:
  assumes inv: "net_inv P sk n A B sent" and laws: "kdf_sizes P" "gcm_laws P"
    and known: "fmlookup (ds_epoch_secrets B) (fr_epoch f) = Some sec" and nonce: "length (fr_nonce f) = 12"
  obtains (sent) g pt where "(g, pt) \<in> set sent" "same_cipher f g" "DmSession_open P f sk B = (Ok pt, B)"
  | (refused) "DmSession_open P f sk B = (Err OpenFailed, B)"
  | (forged) "dm_forgery P A sent f"
proof (cases "list_all (\<lambda>(g, pt). \<not> same_cipher f g) sent")
  case True
  have A: "fmlookup (ds_epoch_secrets A) (fr_epoch f) = Some sec" and "length sec = 32"
    using inv known by (auto simp: net_inv_def sender_inv_def dest: session_wfD(1))
  then have o: "open_frame P f sec =
      ok_or OpenFailed (gcm_decrypt P (frame_key P sec f) (fr_nonce f)
        (frame_aad (fr_epoch f) (fr_index f)) (fr_body f))"
    using nonce by (simp add: open_frame_eq frame_key_def)
  show ?thesis
  proof (cases "gcm_decrypt P (frame_key P sec f) (fr_nonce f) (frame_aad (fr_epoch f) (fr_index f)) (fr_body f)")
    case None
    then show ?thesis using o open_known_epoch [OF known] by (intro refused) simp
  next
    case (Some pt)
    then show ?thesis using True A by (intro forged) (auto simp: dm_forgery_def)
  qed
next
  case False
  then obtain g pt where g: "(g, pt) \<in> set sent" "same_cipher f g" by (auto simp: list_all_iff)
  then have e: "fmlookup (ds_epoch_secrets B) (fr_epoch g) = Some sec"
    using known by (simp add: same_cipher_def)
  have "open_frame P g sec = Ok pt"
    using net_open [OF inv laws g(1)] open_known_epoch [OF e, of P sk] e by simp
  then have "DmSession_open P f sk B = (Ok pt, B)"
    using open_known_epoch [OF known, of P sk] open_same_cipher [OF g(2), of P sec] by simp
  with g show ?thesis by (rule sent)
qed

section \<open>A seal succeeds\<close>

lemma begin_epoch_total:
  assumes "seal_pair P pk sk"
  shows "\<exists>s' w'. begin_epoch P e pk s w = (Ok (), s', w')"
proof -
  obtain secret w1 where n: "new_epoch_secret w = (secret, w1)" by fastforce
  then have "length secret = 32" by (simp add: new_epoch_secret_def fill_bytes_length)
  then obtain kam w2 where "wrap_dm_epoch_secret P secret pk w1 = (Ok kam, w2)"
    by (rule wrap_dm_total [OF assms])
  then show ?thesis using n by (simp add: begin_epoch_def split: prod.split)
qed

lemma length_frame_aad: "length (frame_aad e i) < 2 ^ 32"
  by (simp add: frame_aad_def AAD_PREFIX_def)

lemma seal_run_total:
  assumes "session_run P chk n s fs" "n < 2 ^ 64" "seal_pair P pk sk" "length pt < 2 ^ 32"
  shows "\<exists>f. fst (DmSession_seal P chk pt pk s w) = Ok f"
proof -
  have inv: "run_inv n s fs" by (rule session_run_inv [OF assms(1,2)])
  then have wf: "session_wf s" by (simp add: run_inv_def)
  have ne: "\<forall>r. ds_ratchet s = Some r \<longrightarrow> dr_epoch r \<noteq> - 1" using run_inv_epoch [OF inv assms(2)] by blast
  have laws: "kdf_sizes P" "gcm_laws P" using assms(3) by (simp_all add: seal_pair_def kem_pair_def)
  show ?thesis
    using wf
  proof (cases rule: seal_cases [of s P chk pt pk w])
    case (overflow w1)
    then show ?thesis using ne by auto
  next
    case (no_epoch x w1 e w0)
    then show ?thesis using begin_epoch_total [OF assms(3), of e s w0] by auto
  next
    case (sealed s1 r w1)
    obtain nonce w2 where n: "fill_bytes 12 w1 = (nonce, w2)" by fastforce
    have "length (dm_key_at P r (dr_message_index r)) = 32"
      using laws(1) by (simp add: dm_key_at_def dm_message_kdf_input_def)
    then obtain body where "gcm_encrypt P (dm_key_at P r (dr_message_index r)) nonce
        (frame_aad (dr_epoch r) (dr_message_index r)) pt = Some body"
      using gcm_encrypt_total [OF laws(2) _ fill_bytes_length [OF n] assms(4)] length_frame_aad by fastforce
    then show ?thesis using n by (simp add: sealed(2) seal_frame_ready [OF sealed(1) wf])
  qed
qed

end
