(* ===== verification/Dm_Channel.thy ===== *)
theory Dm_Channel
  imports Dm_Network
begin

text \<open>
  The abstract service that a direct-message session implements: a receiver is no more than the
  set of epochs it knows, and a message can be read when its epoch is known or when it is one
  of the first three of its epoch, which then becomes known. \<open>DmSession_open\<close> refines it under
  the abstraction \<open>known_epochs\<close>, message by message and over any schedule of deliveries.
\<close>

section \<open>Specification\<close>

text \<open>A message as the specification sees it: epoch, index, plaintext.\<close>

type_synonym posting = "u64 \<times> u64 \<times> bytes"

fun channel_recv :: "posting \<Rightarrow> u64 set \<Rightarrow> (dm_session_error, bytes) res \<times> u64 set" where
  "channel_recv (epoch, index, pt) known =
     (if epoch \<in> known \<or> index < 3 then (Ok pt, insert epoch known)
      else (Err (MissingEpochSecret epoch), known))"

text \<open>A schedule is delivered one message after the other, in both worlds.\<close>

fun deliver_all :: "('m \<Rightarrow> 's \<Rightarrow> 'r \<times> 's) \<Rightarrow> 'm list \<Rightarrow> 's \<Rightarrow> 'r list \<times> 's" where
  "deliver_all recv [] s = ([], s)"
| "deliver_all recv (x # xs) s =
     (let (r, s1) = recv x s; (rs, s2) = deliver_all recv xs s1 in (r # rs, s2))"

section \<open>Abstraction and simulation\<close>

definition known_epochs :: "DmSession \<Rightarrow> u64 set" where
  "known_epochs s = fmdom' (ds_epoch_secrets s)"

definition posting_of :: "SealedDmFrame \<times> bytes \<Rightarrow> posting" where
  "posting_of m = (fr_epoch (fst m), fr_index (fst m), snd m)"

text \<open>
  The simulation, stated once for any two receivers: if one delivery commutes with the
  abstraction and keeps an invariant, so does every schedule.
\<close>

locale delivery_refinement =
  fixes crecv :: "'m \<Rightarrow> 's \<Rightarrow> 'r \<times> 's"
    and arecv :: "'n \<Rightarrow> 'a \<Rightarrow> 'r \<times> 'a"
    and abs_msg :: "'m \<Rightarrow> 'n" and abs_state :: "'s \<Rightarrow> 'a"
    and msgs :: "'m set" and inv :: "'s \<Rightarrow> bool"
  assumes recv_sim: "\<lbrakk>m \<in> msgs; inv s\<rbrakk> \<Longrightarrow> apsnd abs_state (crecv m s) = arecv (abs_msg m) (abs_state s)"
    and recv_inv: "\<lbrakk>m \<in> msgs; inv s\<rbrakk> \<Longrightarrow> inv (snd (crecv m s))"
begin

lemma deliver_all_sim:
  "\<lbrakk>set ms \<subseteq> msgs; inv s\<rbrakk> \<Longrightarrow>
     apsnd abs_state (deliver_all crecv ms s) = deliver_all arecv (map abs_msg ms) (abs_state s) \<and>
     inv (snd (deliver_all crecv ms s))"
proof (induction ms arbitrary: s)
  case (Cons m ms)
  obtain r s1 where 1: "crecv m s = (r, s1)" by fastforce
  have "arecv (abs_msg m) (abs_state s) = (r, abs_state s1)" "inv s1"
    using recv_sim [of m s] recv_inv [of m s] Cons.prems 1 by simp_all
  then show ?case
    using Cons.IH [of s1] Cons.prems(1) 1
    by (cases "deliver_all crecv ms s1") (auto split: prod.splits)
qed simp

end

lemma net_recv_sim:
  assumes "net_inv P sk n A B sent" "kdf_sizes P" "gcm_laws P" "m \<in> set sent"
  shows "apsnd known_epochs (DmSession_open P (fst m) sk B) =
    channel_recv (posting_of m) (known_epochs B)"
proof -
  obtain f pt where m: "m = (f, pt)" by fastforce
  show ?thesis
    using net_open [OF assms(1-3), of f pt] assms(4)
    by (auto simp: m posting_of_def known_epochs_def fmdom'_alt_def fmlookup_dom_iff
        fmdom'_notI intro: fmdom'I)
qed

text \<open>
  The session is such a receiver, for the frames of a network run and the invariant of the run.
\<close>

interpretation channel: delivery_refinement
  "\<lambda>m. DmSession_open P (fst m) sk" channel_recv posting_of known_epochs "set sent"
  "\<lambda>B. net_inv P sk n A B sent \<and> kdf_sizes P \<and> gcm_laws P"
  for P sk n A sent
proof unfold_locales
  fix m B
  assume m: "m \<in> set sent" and B: "net_inv P sk n A B sent \<and> kdf_sizes P \<and> gcm_laws P"
  then show "apsnd known_epochs (DmSession_open P (fst m) sk B) =
      channel_recv (posting_of m) (known_epochs B)"
    using net_recv_sim [of P sk n A B sent m] by blast
  obtain f pt res B' where "m = (f, pt)" "DmSession_open P f sk B = (res, B')"
    by (metis surj_pair)
  then show "net_inv P sk n A (snd (DmSession_open P (fst m) sk B)) sent \<and> kdf_sizes P \<and> gcm_laws P"
    using m B net_inv_open by fastforce
qed

end
