(* ===== verification/Dm_Mail.thy ===== *)
theory Dm_Mail
  imports Dm_Channel
begin

text \<open>
  Receiving by token. A receiver gets strings: it parses them with \<open>from_token\<close> and opens the
  frame. Over the tokens of sent frames it refines the abstract channel, and for an arbitrary
  string there are five outcomes.
\<close>

definition receive_token :: "codecs \<Rightarrow> prims \<Rightarrow> bytes \<Rightarrow> rstr \<Rightarrow> DmSession \<Rightarrow>
    (dm_session_error, bytes) res \<times> DmSession" where
  "receive_token C P sk token s =
     (case from_token C token of
        Ok f \<Rightarrow> DmSession_open P f sk s
      | Err e \<Rightarrow> (Err e, s)
      | Panic \<Rightarrow> (Panic, s))"

section \<open>Tokens of sent frames\<close>

definition short_messages :: "(SealedDmFrame \<times> bytes) list \<Rightarrow> bool" where
  "short_messages sent \<longleftrightarrow> list_all (\<lambda>(f, pt). length pt < 2 ^ 32 - 16) sent"

lemma receive_sent:
  assumes "net_inv P sk n A B sent" "kdf_sizes P" "gcm_laws P" "b64_laws C" "short_messages sent"
    and "m \<in> set sent"
  shows "receive_token C P sk (to_token C (fst m)) s = DmSession_open P (fst m) sk s"
proof -
  obtain f pt where m: "m = (f, pt)" by fastforce
  then obtain sec where "frame_seals P sk sec f pt" using assms(1,6) by (auto simp: net_inv_def)
  moreover have "length pt < 2 ^ 32 - 16" using assms(5,6) m by (auto simp: short_messages_def list_all_iff)
  ultimately have "frame_fits f" by (intro frame_seals_fits(2) [OF _ assms(2,3)])
  then show ?thesis by (simp add: receive_token_def m token_roundtrip [OF assms(4)])
qed

interpretation mail: delivery_refinement
  "\<lambda>m. receive_token C P sk (to_token C (fst m))" channel_recv posting_of known_epochs "set sent"
  "\<lambda>B. net_inv P sk n A B sent \<and> kdf_sizes P \<and> gcm_laws P \<and> b64_laws C \<and> short_messages sent"
  for C P sk n A sent
proof unfold_locales
  fix m B
  assume m: "m \<in> set sent"
    and B: "net_inv P sk n A B sent \<and> kdf_sizes P \<and> gcm_laws P \<and> b64_laws C \<and> short_messages sent"
  then have opens: "receive_token C P sk (to_token C (fst m)) B = DmSession_open P (fst m) sk B"
    by (blast intro: receive_sent)
  show "apsnd known_epochs (receive_token C P sk (to_token C (fst m)) B) =
      channel_recv (posting_of m) (known_epochs B)"
    unfolding opens using channel.recv_sim [OF m] B by blast
  show "net_inv P sk n A (snd (receive_token C P sk (to_token C (fst m)) B)) sent \<and>
      kdf_sizes P \<and> gcm_laws P \<and> b64_laws C \<and> short_messages sent"
    unfolding opens using channel.recv_inv [OF m] B by blast
qed

section \<open>Arbitrary strings\<close>

lemma from_token_not_Panic: "from_token C token \<noteq> Panic"
  using parse_frame_not_Panic by (simp add: from_token_def split: option.split sum.split)

lemma open_unknown:
  assumes "fmlookup (ds_epoch_secrets B) (fr_epoch f) = None" "DmSession_open P f sk B = (res, B')"
  obtains (refused) e where "res = Err e" "B' = B"
  | (learned) kam sec where "fr_kam f = Some kam" "unwrap_dm_epoch_secret P kam sk = Ok sec"
      "B' = B\<lparr>ds_epoch_secrets := fmupd (fr_epoch f) sec (ds_epoch_secrets B)\<rparr>"
      "res = open_frame P f sec"
proof (cases "fr_kam f")
  case None
  then show ?thesis using assms refused by (auto simp: DmSession_open_def accept_kam_def)
next
  case (Some kam)
  show ?thesis
  proof (cases "unwrap_dm_epoch_secret P kam sk")
    case (Ok sec)
    then show ?thesis using assms Some learned by (auto simp: DmSession_open_def accept_kam_def)
  next
    case (Err e)
    then show ?thesis using assms Some refused by (auto simp: DmSession_open_def accept_kam_def)
  next
    case Panic
    then have "accept_kam P f sk B = Panic" using assms(1) Some by (simp add: accept_kam_def)
    then show ?thesis using accept_kam_not_Panic by blast
  qed
qed

lemma receive_any:
  assumes inv: "net_inv P sk n A B sent" and laws: "kdf_sizes P" "gcm_laws P"
    and recv: "receive_token C P sk token B = (res, B')"
  obtains (refused) e where "res = Err e" "B' = B"
  | (sent) f g pt where "from_token C token = Ok f" "(g, pt) \<in> set sent" "same_cipher f g"
      "res = Ok pt" "B' = B"
  | (forged) f where "from_token C token = Ok f" "dm_forgery P A sent f" "B' = B"
  | (bad_nonce) f where "from_token C token = Ok f" "length (fr_nonce f) \<noteq> 12" "res = Panic" "B' = B"
  | (learned) f kam sec where "from_token C token = Ok f"
      "fmlookup (ds_epoch_secrets B) (fr_epoch f) = None" "fr_kam f = Some kam"
      "unwrap_dm_epoch_secret P kam sk = Ok sec"
      "B' = B\<lparr>ds_epoch_secrets := fmupd (fr_epoch f) sec (ds_epoch_secrets B)\<rparr>"
      "res = open_frame P f sec"
proof (cases "from_token C token")
  case (Err e)
  then show ?thesis using recv refused by (auto simp: receive_token_def)
next
  case Panic
  then show ?thesis using from_token_not_Panic by blast
next
  case (Ok f)
  then have op: "DmSession_open P f sk B = (res, B')" using recv by (simp add: receive_token_def)
  show ?thesis
  proof (cases "fmlookup (ds_epoch_secrets B) (fr_epoch f)")
    case None
    show ?thesis
      by (rule open_unknown [OF None op]) (use refused learned Ok None in blast)+
  next
    case (Some sec)
    note known = open_known_epoch [OF Some, of P sk]
    show ?thesis
    proof (cases "length (fr_nonce f) = 12")
      case True
      show ?thesis
        by (rule net_accepts [OF inv laws Some True])
           (use op known Ok refused sent forged in \<open>auto\<close>)
    next
      case False
      have "length sec = 32" using inv Some by (auto simp: net_inv_def sender_inv_def dest: session_wfD(1))
      then have "open_frame P f sec = Panic"
        using False by (simp add: open_frame_def derive_dm_message_key_eq Let_def)
      then show ?thesis using op known Ok False bad_nonce by simp
    qed
  qed
qed

end
