(* ===== verification/Json.thy ===== *)
theory Json
  imports Prelude Float64 "HOL-Library.List_Lexorder"
begin

text \<open>
  JSON values as \<open>serde_json::Value\<close> holds them, its accessors, and the canonical encoder of
  \<open>src/src/pqroute.rs\<close> (\<open>canonical\<close>, \<open>canonical_into\<close>, \<open>encode_string_ascii\<close>,
  \<open>push_u_escape\<close>). What \<open>serde_json\<close> itself prints and parses is the parameter \<open>J\<close>.
\<close>

section \<open>Values\<close>

text \<open>A \<open>serde_json::Number\<close>: a non-negative integer, a negative one, or a float.\<close>

datatype jnum = PosInt u64 | NegInt u64 | Float f64

text \<open>
  An object is the list of its entries. \<open>serde_json::Map\<close> is a \<open>BTreeMap\<close> here (the feature
  \<open>preserve_order\<close> is off), so a map that a program builds lists its keys in increasing order.
\<close>

datatype json =
  JNull | JBool bool | JNum jnum | JStr rstr | JArr "json list" | JObj "(rstr \<times> json) list"

fun json_get :: "json \<Rightarrow> rstr \<Rightarrow> json option" where
  "json_get (JObj kvs) k = map_of kvs k"
| "json_get _ k = None"

fun as_str :: "json \<Rightarrow> rstr option" where
  "as_str (JStr s) = Some s"
| "as_str _ = None"

fun as_u64 :: "json \<Rightarrow> u64 option" where
  "as_u64 (JNum (PosInt n)) = Some n"
| "as_u64 _ = None"

fun as_f64 :: "json \<Rightarrow> f64 option" where
  "as_f64 (JNum (PosInt n)) = Some (f64_of_nat (unat n))"
| "as_f64 (JNum (NegInt i)) = Some (round64 (of_int (sint i)))"
| "as_f64 (JNum (Float x)) = Some x"
| "as_f64 _ = None"

fun as_object :: "json \<Rightarrow> (rstr \<times> json) list option" where
  "as_object (JObj kvs) = Some kvs"
| "as_object _ = None"

text \<open>\<open>Value::from(f64)\<close>: a float that is not finite becomes \<open>null\<close>.\<close>

definition json_of_f64 :: "f64 \<Rightarrow> json" where
  "json_of_f64 x = (if f64_finite x then JNum (Float x) else JNull)"

text \<open>Inserting into a \<open>BTreeMap\<close>, and collecting entries into one.\<close>

fun btree_insert :: "'k::linorder \<Rightarrow> 'v \<Rightarrow> ('k \<times> 'v) list \<Rightarrow> ('k \<times> 'v) list" where
  "btree_insert k v [] = [(k, v)]"
| "btree_insert k v ((k', v') # kvs) =
     (if k < k' then (k, v) # (k', v') # kvs
      else if k = k' then (k, v) # kvs
      else (k', v') # btree_insert k v kvs)"

definition btree_collect :: "('k::linorder \<times> 'v) list \<Rightarrow> ('k \<times> 'v) list" where
  "btree_collect kvs = fold (\<lambda>(k, v). btree_insert k v) kvs []"

definition json_object :: "(rstr \<times> json) list \<Rightarrow> json" where
  "json_object kvs = JObj (btree_collect kvs)"

section \<open>What the JSON library does\<close>

text \<open>
  \<open>float_text\<close> is the \<open>Display\<close> of a float \<open>Number\<close>, \<open>from_slice\<close> parses bytes (or yields
  the text of its error), \<open>to_vec\<close> prints a value compactly.
\<close>

record serde =
  float_text :: "f64 \<Rightarrow> rstr"
  from_slice :: "bytes \<Rightarrow> rstr + json"
  to_vec :: "json \<Rightarrow> bytes"

section \<open>The canonical encoder\<close>

definition HEX :: bytes where "HEX = blit ''0123456789abcdef''"

definition push_u_escape :: "u32 \<Rightarrow> bytes" where
  "push_u_escape code_unit =
     blit [CHR 0x5C, CHR ''u''] @
     [HEX ! unat (and (drop_bit 12 code_unit) 0xF), HEX ! unat (and (drop_bit 8 code_unit) 0xF),
      HEX ! unat (and (drop_bit 4 code_unit) 0xF), HEX ! unat (and code_unit 0xF)]"

text \<open>The arm of \<open>encode_string_ascii\<close> for one character.\<close>

definition escape_char :: "nat \<Rightarrow> bytes" where
  "escape_char ch =
     (if ch = 0x22 then [0x5C, 0x22]
      else if ch = 0x5C then [0x5C, 0x5C]
      else if ch = 0x08 then [0x5C, 0x62]
      else if ch = 0x09 then [0x5C, 0x74]
      else if ch = 0x0A then [0x5C, 0x6E]
      else if ch = 0x0C then [0x5C, 0x66]
      else if ch = 0x0D then [0x5C, 0x72]
      else (let c = of_nat ch :: u32
            in if 0x20 \<le> c \<and> c \<le> 0x7E then [ucast c]
               else if c \<le> 0xFFFF then push_u_escape c
               else (let v = c - 0x10000;
                         hi = 0xD800 + drop_bit 10 v;
                         lo = 0xDC00 + and v 0x3FF
                     in push_u_escape hi @ push_u_escape lo)))"

definition encode_string_ascii :: "rstr \<Rightarrow> bytes" where
  "encode_string_ascii s = [0x22] @ concat (map escape_char s) @ [0x22]"

fun number_text :: "serde \<Rightarrow> jnum \<Rightarrow> rstr" where
  "number_text J (PosInt n) = dec (unat n)"
| "number_text J (NegInt i) = 45 # dec (nat (- sint i))"
| "number_text J (Float x) = float_text J x"

text \<open>The elements of an array or object with a comma before each but the first.\<close>

fun comma_join :: "bytes list \<Rightarrow> bytes" where
  "comma_join [] = []"
| "comma_join [x] = x"
| "comma_join (x # y # ys) = x @ [0x2C] @ comma_join (y # ys)"

lemma size_map_of_get:
  fixes kvs :: "(rstr \<times> json) list"
  assumes "k \<in> set (sort (map fst kvs))"
  shows "size (the (map_of kvs k)) < Suc (size_list (size_prod (\<lambda>x. 0) size) kvs)"
proof -
  from assms obtain v where v: "map_of kvs k = Some v" by (auto dest!: weak_map_of_SomeI)
  then have "(k, v) \<in> set kvs" by (rule map_of_SomeD)
  moreover have "size v \<le> size_prod (\<lambda>x. 0) size (k, v)" by simp
  ultimately have "size v \<le> size_list (size_prod (\<lambda>x. 0) size) kvs"
    by (rule size_list_estimation')
  with v show ?thesis by simp
qed

function canonical :: "serde \<Rightarrow> json \<Rightarrow> bytes" where
  "canonical J JNull = blit ''null''"
| "canonical J (JBool b) = (if b then blit ''true'' else blit ''false'')"
| "canonical J (JNum n) = map of_nat (number_text J n)"
| "canonical J (JStr s) = encode_string_ascii s"
| "canonical J (JArr arr) = [0x5B] @ comma_join (map (canonical J) arr) @ [0x5D]"
| "canonical J (JObj kvs) =
     [0x7B] @
     comma_join (map (\<lambda>k. encode_string_ascii k @ [0x3A] @ canonical J (the (map_of kvs k)))
                     (sort (map fst kvs))) @
     [0x7D]"
  by pat_completeness auto

termination
proof (relation "measure (\<lambda>(J, v). size v)")
  fix J :: serde and arr and v :: json
  assume "v \<in> set arr"
  then have "size v \<le> size_list size arr" by (rule size_list_estimation') simp
  then show "((J, v), J, JArr arr) \<in> measure (\<lambda>(J, v). size v)" by simp
next
  fix J :: serde and kvs :: "(rstr \<times> json) list" and k
  assume "k \<in> set (sort (map fst kvs))"
  then show "((J, the (map_of kvs k)), J, JObj kvs) \<in> measure (\<lambda>(J, v). size v)"
    using size_map_of_get by simp
qed simp

section \<open>Values that survive printing and parsing\<close>

text \<open>
  Values without floats, with keys in the order of a \<open>BTreeMap\<close>, valid strings, and negative
  integers only in \<open>NegInt\<close>. \<open>serde_json\<close> refuses to parse beyond a nesting of 127.
\<close>

fun json_depth :: "json \<Rightarrow> nat" where
  "json_depth (JArr arr) = Suc (fold max (map json_depth arr) 0)"
| "json_depth (JObj kvs) = Suc (fold max (map (\<lambda>(k, v). json_depth v) kvs) 0)"
| "json_depth _ = 0"

fun json_plain :: "json \<Rightarrow> bool" where
  "json_plain JNull = True"
| "json_plain (JBool b) = True"
| "json_plain (JNum (PosInt n)) = True"
| "json_plain (JNum (NegInt i)) = (sint i < 0)"
| "json_plain (JNum (Float x)) = False"
| "json_plain (JStr s) = valid_str s"
| "json_plain (JArr arr) = list_all json_plain arr"
| "json_plain (JObj kvs) =
     (sorted_wrt (<) (map fst kvs) \<and> list_all valid_str (map fst kvs) \<and>
      list_all (\<lambda>(k, v). json_plain v) kvs)"

text \<open>
  The documented behaviour of the JSON library: it parses JSON text to the value that the text
  denotes. It is used of two texts, the library's own compact one and that of \<open>canonical\<close>, which is
  JSON text of its value: \<open>canonical_reads_back\<close> of theory \<open>Json_Canonical\<close> shows it with a reader
  that is independent of both.
\<close>

definition serde_laws :: "serde \<Rightarrow> bool" where
  "serde_laws J \<longleftrightarrow>
     (\<forall>v. json_plain v \<longrightarrow> json_depth v \<le> 127 \<longrightarrow>
        from_slice J (canonical J v) = Inr v \<and> from_slice J (to_vec J v) = Inr v)"

lemma serde_canonical:
  "serde_laws J \<Longrightarrow> json_plain v \<Longrightarrow> json_depth v \<le> 127 \<Longrightarrow> from_slice J (canonical J v) = Inr v"
  unfolding serde_laws_def by blast

lemma serde_to_vec:
  "serde_laws J \<Longrightarrow> json_plain v \<Longrightarrow> json_depth v \<le> 127 \<Longrightarrow> from_slice J (to_vec J v) = Inr v"
  unfolding serde_laws_def by blast

section \<open>Facts about maps\<close>

lemma set_btree_insert: "fst ` set (btree_insert k v kvs) = insert k (fst ` set kvs)"
  by (induction k v kvs rule: btree_insert.induct) auto

lemma sorted_btree_insert:
  "sorted_wrt (<) (map fst kvs) \<Longrightarrow> sorted_wrt (<) (map fst (btree_insert k v kvs))"
proof (induction k v kvs rule: btree_insert.induct)
  case (2 k v k' v' kvs)
  have "\<forall>x\<in>set (btree_insert k v kvs). k' < fst x" if "k' < k"
    using set_btree_insert [of k v kvs] 2(2) that by fastforce
  then show ?case using 2 by (auto simp: image_iff split: if_splits)
qed simp

lemma map_of_btree_insert:
  "sorted_wrt (<) (map fst kvs) \<Longrightarrow> map_of (btree_insert k v kvs) = (map_of kvs)(k \<mapsto> v)"
  by (induction k v kvs rule: btree_insert.induct) (auto simp: fun_eq_iff)

lemma sorted_fold_btree:
  "sorted_wrt (<) (map fst acc) \<Longrightarrow>
   sorted_wrt (<) (map fst (fold (\<lambda>(k, v). btree_insert k v) kvs acc))"
  by (induction kvs arbitrary: acc) (auto simp: sorted_btree_insert)

lemma sorted_btree_collect: "sorted_wrt (<) (map fst (btree_collect kvs))"
  unfolding btree_collect_def by (rule sorted_fold_btree) simp

lemma map_of_fold_btree:
  "sorted_wrt (<) (map fst acc) \<Longrightarrow>
   map_of (fold (\<lambda>(k, v). btree_insert k v) kvs acc) = map_of acc ++ map_of (rev kvs)"
proof (induction kvs arbitrary: acc)
  case Nil
  then show ?case by simp
next
  case (Cons x kvs)
  obtain k v where x: "x = (k, v)" by fastforce
  have "map_of (fold (\<lambda>(k, v). btree_insert k v) (x # kvs) acc) =
      map_of (btree_insert k v acc) ++ map_of (rev kvs)"
    using Cons.IH [OF sorted_btree_insert [OF Cons.prems]] x by simp
  then show ?case using x Cons.prems by (auto simp: map_of_btree_insert map_add_def fun_eq_iff split: option.split)
qed

lemma map_of_btree_collect: "map_of (btree_collect kvs) = map_of (rev kvs)"
  unfolding btree_collect_def by (simp add: map_of_fold_btree)

lemma map_of_btree_collect_distinct:
  "distinct (map fst kvs) \<Longrightarrow> map_of (btree_collect kvs) = map_of kvs"
  using map_of_inject_set [of "rev kvs" kvs] by (simp add: map_of_btree_collect rev_map [symmetric])

lemma sorted_distinct_keys: "sorted_wrt (<) (xs :: 'a::linorder list) \<Longrightarrow> distinct xs"
  by (simp add: strict_sorted_iff)

lemma sort_sorted_keys: "sorted_wrt (<) (xs :: 'a::linorder list) \<Longrightarrow> sort xs = xs"
  by (simp add: strict_sorted_iff sort_key_id_if_sorted)

lemma json_get_object:
  "distinct (map fst kvs) \<Longrightarrow> json_get (json_object kvs) k = map_of kvs k"
  by (simp add: json_object_def map_of_btree_collect_distinct)

end
