(* ===== verification/Hash_Maps.thy ===== *)
theory Hash_Maps
  imports "HOL-Library.Finite_Map" "HOL-Library.Multiset" "HOL-Library.List_Lexorder"
begin

text \<open>
  The entries of a \<open>std::collections::HashMap\<close>, kept as a finite map. The iteration order of a
  hash map is unspecified; the model lists the keys in increasing order, and the theorems about
  code that iterates show that the order does not matter.
\<close>

text \<open>The entries of a \<open>HashMap\<close>; the order is fixed only by the map they are collected into.\<close>

definition hash_entries :: "('k::linorder, 'v) fmap \<Rightarrow> ('k \<times> 'v) list" where
  "hash_entries m = map (\<lambda>k. (k, the (fmlookup m k))) (sorted_list_of_fset (fmdom m))"

lemma set_hash_entries:
  "(k, v) \<in> set (hash_entries m) \<longleftrightarrow> fmlookup m k = Some v"
  by (auto simp: hash_entries_def image_iff fmlookup_dom_iff)

lemma distinct_hash_entries: "distinct (map fst (hash_entries m))"
  by (simp add: hash_entries_def comp_def sorted_list_of_fset.rep_eq)

lemma map_of_hash_entries: "map_of (hash_entries m) = fmlookup m"
proof
  fix k
  show "map_of (hash_entries m) k = fmlookup m k"
  proof (cases "fmlookup m k")
    case None
    then have "\<forall>v. (k, v) \<notin> set (hash_entries m)" by (simp add: set_hash_entries)
    then have "k \<notin> fst ` set (hash_entries m)" by auto
    with None show ?thesis by (simp add: map_of_eq_None_iff)
  next
    case (Some v)
    then show ?thesis
      using map_of_is_SomeI [OF distinct_hash_entries] by (simp add: set_hash_entries)
  qed
qed

end
