(* ===== verification/Dm_Snapshot.thy ===== *)
theory Dm_Snapshot
  imports Dm_Session Json Hash_Maps
begin

text \<open>
  Persistence of a session (\<open>snapshot\<close> and \<open>restore\<close> of \<open>src/src/dm_session.rs\<close>) and the
  lemma that restoring a snapshot gives the session back.
\<close>

section \<open>Snapshot\<close>

definition snapshot_ratchet :: "DmRatchet \<Rightarrow> json" where
  "snapshot_ratchet r =
     json_object
       [(lit ''epoch'', JNum (PosInt (dr_epoch r))),
        (lit ''message_index'', JNum (PosInt (dr_message_index r))),
        (lit ''epoch_started_at'', json_of_f64 (dr_epoch_started_at r))]"

definition DmSession_snapshot :: "codecs \<Rightarrow> DmSession \<Rightarrow> json" where
  "DmSession_snapshot C s =
     (let secrets = btree_collect (map (\<lambda>(e, sec). (dec (unat e), JStr (hex_encode C sec)))
                                       (hash_entries (ds_epoch_secrets s)));
          ratchet = (case ds_ratchet s of None \<Rightarrow> JNull | Some r \<Rightarrow> snapshot_ratchet r)
      in json_object
           [(lit ''v'', JNum (PosInt 1)),
            (lit ''peer'', JStr (ds_peer s)),
            (lit ''rekey_msg_bound'', JNum (PosInt (ds_rekey_msg_bound s))),
            (lit ''rekey_age_seconds'', JNum (PosInt (ds_rekey_age_seconds s))),
            (lit ''epoch_secrets'', JObj secrets),
            (lit ''current_kam'',
               (case ds_current_kam s of None \<Rightarrow> JNull | Some kam \<Rightarrow> JStr (hex_encode C kam))),
            (lit ''ratchet'', ratchet)])"

section \<open>Restore\<close>

definition bad_snapshot :: "string \<Rightarrow> dm_session_error" where
  "bad_snapshot m = BadToken (lit ''bad snapshot: '' @ lit m)"

text \<open>\<open>Option\<close> of a present value to an option of the next reading: \<open>get(..).and_then(..)\<close>.\<close>

definition field :: "json \<Rightarrow> string \<Rightarrow> (json \<Rightarrow> 'a option) \<Rightarrow> string \<Rightarrow> (dm_session_error, 'a) res" where
  "field snap name as m =
     ok_or (bad_snapshot m) (case json_get snap (lit name) of None \<Rightarrow> None | Some v \<Rightarrow> as v)"

definition hex_ok :: "codecs \<Rightarrow> rstr \<Rightarrow> string \<Rightarrow> (dm_session_error, bytes) res" where
  "hex_ok C h m = (case hex_decode C h of Inl e \<Rightarrow> Err (bad_snapshot m) | Inr raw \<Rightarrow> Ok raw)"

text \<open>The loop over the entries of \<open>epoch_secrets\<close>.\<close>

fun restore_secrets ::
  "codecs \<Rightarrow> (rstr \<times> json) list \<Rightarrow> (u64, bytes) fmap \<Rightarrow> (dm_session_error, (u64, bytes) fmap) res"
  where
  "restore_secrets C [] m = Ok m"
| "restore_secrets C ((e, hexval) # obj) m =
     and_then (ok_or (bad_snapshot ''bad epoch key'') (parse_u64 e)) (\<lambda>epoch.
     and_then (ok_or (bad_snapshot ''secret not str'') (as_str hexval)) (\<lambda>h.
     and_then (hex_ok C h ''bad secret hex'') (\<lambda>raw.
       if length raw \<noteq> EPOCH_SECRET_LEN then Err (bad_snapshot ''secret wrong length'')
       else restore_secrets C obj (fmupd epoch raw m))))"

definition restore_kam :: "codecs \<Rightarrow> json option \<Rightarrow> (dm_session_error, bytes option) res" where
  "restore_kam C v =
     (case v of
        Some (JStr h) \<Rightarrow> map_ok Some (hex_ok C h ''bad current_kam hex'')
      | _ \<Rightarrow> Ok None)"

definition restore_ratchet :: "json \<Rightarrow> DmSession \<Rightarrow> (dm_session_error, DmSession) res" where
  "restore_ratchet rt s =
     and_then (field rt ''epoch'' as_u64 ''ratchet.epoch'') (\<lambda>epoch.
     and_then (field rt ''message_index'' as_u64 ''ratchet.message_index'') (\<lambda>message_index.
     and_then (field rt ''epoch_started_at'' as_f64 ''ratchet.epoch_started_at'') (\<lambda>started.
     and_then (ok_or (bad_snapshot ''ratchet epoch has no stored secret'')
                 (fmlookup (ds_epoch_secrets s) epoch)) (\<lambda>epoch_secret.
       Ok (s\<lparr>ds_ratchet := Some
             \<lparr>dr_epoch = epoch, dr_epoch_secret = epoch_secret, dr_message_index = message_index,
              dr_rekey_msg_bound = ds_rekey_msg_bound s,
              dr_rekey_age_seconds = ds_rekey_age_seconds s, dr_epoch_started_at = started\<rparr>\<rparr>)))))"

definition DmSession_restore :: "codecs \<Rightarrow> json \<Rightarrow> (dm_session_error, DmSession) res" where
  "DmSession_restore C snap =
     and_then (field snap ''peer'' as_str ''missing peer'') (\<lambda>peer.
     and_then (field snap ''rekey_msg_bound'' as_u64 ''missing rekey_msg_bound'') (\<lambda>bound.
     and_then (field snap ''rekey_age_seconds'' as_u64 ''missing rekey_age_seconds'') (\<lambda>age.
       let s = DmSession_with_bounds peer bound age
       in and_then (case Option.bind (json_get snap (lit ''epoch_secrets'')) as_object of
                      None \<Rightarrow> Ok (ds_epoch_secrets s)
                    | Some obj \<Rightarrow> restore_secrets C obj (ds_epoch_secrets s)) (\<lambda>secrets.
          and_then (restore_kam C (json_get snap (lit ''current_kam''))) (\<lambda>kam.
            let s1 = s\<lparr>ds_epoch_secrets := secrets, ds_current_kam := kam\<rparr>
            in case json_get snap (lit ''ratchet'') of
                 None \<Rightarrow> Ok s1
               | Some rt \<Rightarrow> if rt = JNull then Ok s1 else restore_ratchet rt s1)))))"

section \<open>Restoring a snapshot\<close>

text \<open>Whatever the order of the entries, the loop rebuilds a map from entries it can read.\<close>

lemma restore_secrets_read:
  assumes "hex_laws C" "\<forall>(e, sec) \<in> set kvs. length sec = 32"
  shows "restore_secrets C (map (\<lambda>(e, sec). (dec (unat e), JStr (hex_encode C sec))) kvs) m =
    Ok (fold (\<lambda>(e, sec). fmupd e sec) kvs m)"
  using assms(2)
proof (induction kvs arbitrary: m)
  case (Cons x kvs)
  then show ?case
    by (cases x) (simp add: hex_ok_def hex_roundtrip [OF assms(1)])
qed simp

lemma fmlookup_fold_fmupd:
  "fmlookup (fold (\<lambda>(e, v). fmupd e v) kvs m) = fmlookup m ++ map_of (rev kvs)"
proof (induction kvs arbitrary: m)
  case (Cons x kvs)
  then show ?case by (cases x) (auto simp: fun_eq_iff map_add_def split: option.split)
qed simp

text \<open>Collecting into a \<open>BTreeMap\<close> only permutes entries with distinct keys.\<close>

lemma mset_btree_insert: "k \<notin> fst ` set kvs \<Longrightarrow> mset (btree_insert k v kvs) = add_mset (k, v) (mset kvs)"
  by (induction k v kvs rule: btree_insert.induct) (auto simp: image_iff)

lemma mset_fold_btree:
  "distinct (map fst kvs) \<Longrightarrow> fst ` set kvs \<inter> fst ` set acc = {} \<Longrightarrow>
   mset (fold (\<lambda>(k, v). btree_insert k v) kvs acc) = mset kvs + mset acc"
proof (induction kvs arbitrary: acc)
  case (Cons x kvs)
  obtain k v where x: "x = (k, v)" by fastforce
  have k: "k \<notin> fst ` set acc" "k \<notin> fst ` set kvs" using Cons.prems x by auto
  have "fst ` set kvs \<inter> fst ` set (btree_insert k v acc) = {}"
    using Cons.prems x k by (auto simp: set_btree_insert)
  with Cons k x show ?case by (simp add: mset_btree_insert)
qed simp

lemma mset_btree_collect: "distinct (map fst kvs) \<Longrightarrow> mset (btree_collect kvs) = mset kvs"
  unfolding btree_collect_def by (simp add: mset_fold_btree)

lemma mset_map_preimage:
  "mset ys = mset (map f xs) \<Longrightarrow> \<exists>xs'. mset xs' = mset xs \<and> map f xs' = ys"
proof (induction ys arbitrary: xs)
  case (Cons y ys)
  have "set (y # ys) = set (map f xs)" using Cons.prems by (rule mset_eq_setD)
  then have "y \<in> f ` set xs" by auto
  then obtain x where x: "x \<in> set xs" and y: "y = f x" by blast
  from split_list [OF x] obtain a b where xs: "xs = a @ x # b" by blast
  have "mset ys = mset (map f (a @ b))" using Cons.prems by (simp add: xs y)
  from Cons.IH [OF this] obtain xs' where "mset xs' = mset (a @ b)" "map f xs' = ys" by blast
  then have "mset (x # xs') = mset xs \<and> map f (x # xs') = y # ys" by (simp add: xs y)
  then show ?case by (rule exI)
qed simp

definition secret_entry :: "codecs \<Rightarrow> u64 \<times> bytes \<Rightarrow> rstr \<times> json" where
  "secret_entry C = (\<lambda>(e, sec). (dec (unat e), JStr (hex_encode C sec)))"

lemma restore_snapshot_secrets:
  assumes hex: "hex_laws C" and len: "\<And>e sec. fmlookup m e = Some sec \<Longrightarrow> length sec = 32"
  shows "restore_secrets C (btree_collect (map (secret_entry C) (hash_entries m))) fmempty = Ok m"
proof -
  let ?es = "map (secret_entry C) (hash_entries m)"
  have keys: "map fst ?es = map (\<lambda>e. dec (unat e)) (map fst (hash_entries m))"
    by (simp add: secret_entry_def comp_def case_prod_beta)
  have inj: "inj (\<lambda>e::u64. dec (unat e))" by (rule injI) (simp add: word_unat_eq_iff)
  have "distinct (map fst ?es)"
    unfolding keys distinct_map [of _ "map fst (hash_entries m)"]
    using distinct_hash_entries [of m] inj_on_subset [OF inj] by blast
  then have "mset (btree_collect ?es) = mset ?es" by (rule mset_btree_collect)
  then have "\<exists>kvs. mset kvs = mset (hash_entries m) \<and> map (secret_entry C) kvs = btree_collect ?es"
    by (rule mset_map_preimage)
  then obtain kvs where kvs: "mset kvs = mset (hash_entries m)"
    "map (secret_entry C) kvs = btree_collect ?es" by blast
  have set: "set kvs = set (hash_entries m)" using kvs(1) by (rule mset_eq_setD)
  have "mset (map fst kvs) = mset (map fst (hash_entries m))" using kvs(1) by simp
  then have dist: "distinct (map fst kvs)"
    using distinct_hash_entries [of m] by (metis mset_eq_imp_distinct_iff)
  then have "map_of (rev kvs) = map_of (hash_entries m)"
    using set distinct_hash_entries [of m]
    by (intro map_of_inject_set [THEN iffD2]) (simp_all add: rev_map [symmetric])
  then have "map_of (rev kvs) = fmlookup m" by (simp add: map_of_hash_entries)
  then have "fold (\<lambda>(e, v). fmupd e v) kvs fmempty = m"
    by (intro fmap_ext) (simp add: fmlookup_fold_fmupd map_add_def split: option.split)
  moreover have "\<forall>(e, sec) \<in> set kvs. length sec = 32"
    using set len by (auto simp: set_hash_entries)
  ultimately show ?thesis
    using restore_secrets_read [OF hex, of kvs fmempty] kvs(2) by (simp add: secret_entry_def)
qed

text \<open>The snapshot's fields.\<close>

lemma snapshot_fields:
  "json_get (DmSession_snapshot C s) (lit ''peer'') = Some (JStr (ds_peer s))"
  "json_get (DmSession_snapshot C s) (lit ''rekey_msg_bound'') =
     Some (JNum (PosInt (ds_rekey_msg_bound s)))"
  "json_get (DmSession_snapshot C s) (lit ''rekey_age_seconds'') =
     Some (JNum (PosInt (ds_rekey_age_seconds s)))"
  "json_get (DmSession_snapshot C s) (lit ''epoch_secrets'') =
     Some (JObj (btree_collect (map (secret_entry C) (hash_entries (ds_epoch_secrets s)))))"
  "json_get (DmSession_snapshot C s) (lit ''current_kam'') =
     Some (case ds_current_kam s of None \<Rightarrow> JNull | Some kam \<Rightarrow> JStr (hex_encode C kam))"
  "json_get (DmSession_snapshot C s) (lit ''ratchet'') =
     Some (case ds_ratchet s of None \<Rightarrow> JNull | Some r \<Rightarrow> snapshot_ratchet r)"
  by (simp_all add: DmSession_snapshot_def Let_def json_get_object secret_entry_def)

lemma snapshot_ratchet_fields:
  "json_get (snapshot_ratchet r) (lit ''epoch'') = Some (JNum (PosInt (dr_epoch r)))"
  "json_get (snapshot_ratchet r) (lit ''message_index'') = Some (JNum (PosInt (dr_message_index r)))"
  "json_get (snapshot_ratchet r) (lit ''epoch_started_at'') = Some (json_of_f64 (dr_epoch_started_at r))"
  "snapshot_ratchet r \<noteq> JNull"
  by (simp_all add: snapshot_ratchet_def json_get_object) (simp add: json_object_def)

lemma restore_kam_snapshot:
  "hex_laws C \<Longrightarrow>
   restore_kam C (Some (case k of None \<Rightarrow> JNull | Some kam \<Rightarrow> JStr (hex_encode C kam))) = Ok k"
  by (simp add: restore_kam_def hex_ok_def hex_roundtrip split: option.split)

lemma restore_snapshot_state:
  assumes hex: "hex_laws C" and wf: "session_wf s"
    and fin: "\<And>r. ds_ratchet s = Some r \<Longrightarrow> f64_finite (dr_epoch_started_at r)"
  shows "DmSession_restore C (DmSession_snapshot C s) = Ok s"
proof -
  have sec: "restore_secrets C (btree_collect (map (secret_entry C)
      (hash_entries (ds_epoch_secrets s)))) fmempty = Ok (ds_epoch_secrets s)"
    by (rule restore_snapshot_secrets [OF hex session_wfD(1) [OF wf]])
  let ?s1 = "DmSession_with_bounds (ds_peer s) (ds_rekey_msg_bound s) (ds_rekey_age_seconds s)
    \<lparr>ds_epoch_secrets := ds_epoch_secrets s, ds_current_kam := ds_current_kam s\<rparr>"
  have base: "DmSession_restore C (DmSession_snapshot C s) =
      (case ds_ratchet s of None \<Rightarrow> Ok ?s1 | Some r \<Rightarrow> restore_ratchet (snapshot_ratchet r) ?s1)"
    by (simp add: DmSession_restore_def field_def snapshot_fields restore_kam_snapshot [OF hex]
        sec Let_def DmSession_with_bounds_def snapshot_ratchet_fields(4) split: option.split)
  show ?thesis
  proof (cases "ds_ratchet s")
    case None
    then show ?thesis by (simp add: base DmSession_with_bounds_def)
  next
    case (Some r)
    from session_wfD(2) [OF wf Some] have r:
      "fmlookup (ds_epoch_secrets s) (dr_epoch r) = Some (dr_epoch_secret r)"
      "dr_rekey_msg_bound r = ds_rekey_msg_bound s"
      "dr_rekey_age_seconds r = ds_rekey_age_seconds s"
      by (simp_all add: ratchet_wf_def)
    have "restore_ratchet (snapshot_ratchet r) ?s1 = Ok s"
      using r fin [OF Some] Some
      by (simp add: restore_ratchet_def field_def snapshot_ratchet_fields json_of_f64_def
          DmSession_with_bounds_def)
    with Some show ?thesis by (simp add: base)
  qed
qed

end
