(* ===== verification/Dm_Types.thy ===== *)
theory Dm_Types
  imports Dm_Snapshot
begin

text \<open>
  What the Rust types of a session say, and what they leave to the code: the fixed-size arrays of
  the secret store, and that an outbound ratchet works on a stored secret under the session's
  bounds. Every operation keeps it, and so does \<open>restore\<close> on whatever JSON it is given.
\<close>

definition secrets_typed :: "(u64, bytes) fmap \<Rightarrow> bool" where
  "secrets_typed m \<longleftrightarrow> (\<forall>e secret. fmlookup m e = Some secret \<longrightarrow> length secret = 32)"

definition session_typed :: "DmSession \<Rightarrow> bool" where
  "session_typed s \<longleftrightarrow>
     secrets_typed (ds_epoch_secrets s) \<and>
     (\<forall>r. ds_ratchet s = Some r \<longrightarrow>
        fmlookup (ds_epoch_secrets s) (dr_epoch r) = Some (dr_epoch_secret r) \<and>
        dr_rekey_msg_bound r = ds_rekey_msg_bound s \<and>
        dr_rekey_age_seconds r = ds_rekey_age_seconds s)"

lemma secrets_typed_simps [simp]:
  "secrets_typed fmempty"
  "length secret = 32 \<Longrightarrow> secrets_typed m \<Longrightarrow> secrets_typed (fmupd e secret m)"
  by (simp_all add: secrets_typed_def)

lemma session_typed_new: "session_typed (DmSession_with_bounds peer bound age)"
  by (simp add: session_typed_def DmSession_with_bounds_def)

lemma session_wf_typed: "session_wf s \<Longrightarrow> session_typed s"
  by (auto simp: session_wf_def session_typed_def secrets_typed_def ratchet_wf_def)

section \<open>Sending and receiving\<close>

lemma begin_epoch_typed:
  assumes "session_typed s"
  shows "session_typed (fst (snd (begin_epoch P e pk s w)))"
proof (cases rule: begin_epoch_cases [of P e pk s w])
  case (ok s1 w1 r)
  from ok(1) show ?thesis
    by (rule begin_epoch_OkE) (use assms ok(1) in \<open>auto simp: session_typed_def\<close>)
next
  case (err x w1)
  then show ?thesis using assms by simp
qed

lemma seal_frame_typed:
  assumes "session_typed s"
  shows "session_typed (fst (snd (seal_frame P chk pt s w)))"
proof (cases "ds_ratchet s")
  case None
  then show ?thesis using assms by (simp add: seal_frame_def)
next
  case (Some r)
  then have ready: "dm_ready r" using assms by (auto simp: session_typed_def secrets_typed_def dm_ready_def)
  have "\<exists>i. fst (snd (seal_frame P chk pt s w)) = s\<lparr>ds_ratchet := Some (r\<lparr>dr_message_index := i\<rparr>)\<rparr>"
    using Some by (auto simp: seal_frame_def dm_next_outbound [OF ready] Let_def split: option.split prod.split
        intro: exI [of _ "dr_message_index r"])
  then show ?thesis using assms Some by (auto simp: session_typed_def)
qed

lemma seal_typed:
  assumes "session_typed s"
  shows "session_typed (fst (snd (DmSession_seal P chk pt pk s w)))"
proof -
  have "session_typed (fst (snd (case begin_epoch P e pk s w1 of
       (Ok _, s1, w2) \<Rightarrow> seal_frame P chk pt s1 w2
     | (Err x, s1, w2) \<Rightarrow> (Err x, s1, w2) | (Panic, s1, w2) \<Rightarrow> (Panic, s1, w2))))" for e w1
    using begin_epoch_typed [OF assms, of P e pk w1] seal_frame_typed
    by (auto split: prod.split res.split)
  then show ?thesis
    using assms seal_frame_typed by (auto simp: DmSession_seal_def split: prod.split res.split option.split)
qed

lemma open_typed:
  assumes "session_typed s"
  shows "session_typed (snd (DmSession_open P f sk s))"
proof -
  obtain res s' where op: "DmSession_open P f sk s = (res, s')" by fastforce
  show ?thesis using open_state [OF op] assms op by (auto simp: session_typed_def dest!: unwrap_dm_OkD)
qed

section \<open>Restoring\<close>

text \<open>Errors of \<open>restore\<close> all have the form of \<open>bad\<close>.\<close>

definition is_bad_snapshot :: "dm_session_error \<Rightarrow> bool" where
  "is_bad_snapshot e \<longleftrightarrow> (\<exists>m. e = bad_snapshot m)"

lemma is_bad_snapshot_simp [simp]: "is_bad_snapshot (bad_snapshot m)"
  by (auto simp: is_bad_snapshot_def)

text \<open>A reading that can fail only that way, and whose result has a property.\<close>

definition reads :: "('a \<Rightarrow> bool) \<Rightarrow> (dm_session_error, 'a) res \<Rightarrow> bool" where
  "reads Q r \<longleftrightarrow> (case r of Ok x \<Rightarrow> Q x | Err e \<Rightarrow> is_bad_snapshot e | Panic \<Rightarrow> False)"

lemma reads_simps [simp]: "reads Q (Ok x) = Q x" "reads Q (Err e) = is_bad_snapshot e" "\<not> reads Q Panic"
  by (simp_all add: reads_def)

lemma reads_bind: "reads R r \<Longrightarrow> (\<And>x. R x \<Longrightarrow> reads Q (f x)) \<Longrightarrow> reads Q (and_then r f)"
  by (cases r) simp_all

lemma reads_ok_or: "(\<And>x. v = Some x \<Longrightarrow> Q x) \<Longrightarrow> reads Q (ok_or (bad_snapshot m) v)"
  by (cases v) simp_all

lemma reads_field: "reads (\<lambda>_. True) (field snap name as m)"
  by (simp add: field_def reads_ok_or)

lemma reads_hex: "reads (\<lambda>_. True) (hex_ok C h m)"
  by (simp add: hex_ok_def split: sum.split)

lemma reads_secrets: "secrets_typed m \<Longrightarrow> reads secrets_typed (restore_secrets C obj m)"
proof (induction C obj m rule: restore_secrets.induct)
  case (2 C e hexval obj m)
  show ?case
    unfolding restore_secrets.simps
    by (rule reads_bind [OF reads_ok_or [of _ "\<lambda>_. True"]], simp,
        rule reads_bind [OF reads_ok_or [of _ "\<lambda>_. True"]], simp, rule reads_bind [OF reads_hex])
       (use 2 in auto)
qed simp

lemma reads_map_ok: "reads (\<lambda>x. Q (f x)) r \<Longrightarrow> reads Q (map_ok f r)"
  by (cases r) simp_all

lemma reads_kam: "reads (\<lambda>_. True) (restore_kam C v)"
  by (simp add: restore_kam_def reads_map_ok reads_hex split: option.split json.split)

lemma reads_ratchet:
  assumes "secrets_typed (ds_epoch_secrets s)"
  shows "reads session_typed (restore_ratchet rt s)"
  unfolding restore_ratchet_def
proof (intro reads_bind [OF reads_field])
  fix epoch message_index started
  show "reads session_typed (and_then (ok_or (bad_snapshot ''ratchet epoch has no stored secret'')
          (fmlookup (ds_epoch_secrets s) epoch)) (\<lambda>epoch_secret.
       Ok (s\<lparr>ds_ratchet := Some
             \<lparr>dr_epoch = epoch, dr_epoch_secret = epoch_secret, dr_message_index = message_index,
              dr_rekey_msg_bound = ds_rekey_msg_bound s,
              dr_rekey_age_seconds = ds_rekey_age_seconds s, dr_epoch_started_at = started\<rparr>\<rparr>)))"
    using assms
    by (intro reads_bind [OF reads_ok_or [of _ "\<lambda>sec. fmlookup (ds_epoch_secrets s) epoch = Some sec"]])
       (simp_all add: session_typed_def)
qed

lemma reads_restore: "reads session_typed (DmSession_restore C snap)"
  unfolding DmSession_restore_def
proof (intro reads_bind [OF reads_field])
  fix peer bound age
  let ?s = "DmSession_with_bounds peer bound age"
  have s: "ds_ratchet ?s = None" "secrets_typed (ds_epoch_secrets ?s)"
    by (simp_all add: DmSession_with_bounds_def)
  have secrets: "reads secrets_typed (case Option.bind (json_get snap (lit ''epoch_secrets'')) as_object of
      None \<Rightarrow> Ok (ds_epoch_secrets ?s) | Some obj \<Rightarrow> restore_secrets C obj (ds_epoch_secrets ?s))"
    using s(2) by (simp add: reads_secrets split: option.split)
  have tail: "reads session_typed (case json_get snap (lit ''ratchet'') of
        None \<Rightarrow> Ok (?s\<lparr>ds_epoch_secrets := m, ds_current_kam := kam\<rparr>)
      | Some rt \<Rightarrow> if rt = JNull then Ok (?s\<lparr>ds_epoch_secrets := m, ds_current_kam := kam\<rparr>)
          else restore_ratchet rt (?s\<lparr>ds_epoch_secrets := m, ds_current_kam := kam\<rparr>))"
    if "secrets_typed m" for m kam
    using that s(1) by (auto simp: session_typed_def intro!: reads_ratchet split: option.split)
  show "reads session_typed (let s = ?s in
      and_then (case Option.bind (json_get snap (lit ''epoch_secrets'')) as_object of
          None \<Rightarrow> Ok (ds_epoch_secrets s) | Some obj \<Rightarrow> restore_secrets C obj (ds_epoch_secrets s)) (\<lambda>secrets.
        and_then (restore_kam C (json_get snap (lit ''current_kam''))) (\<lambda>kam.
          let s1 = s\<lparr>ds_epoch_secrets := secrets, ds_current_kam := kam\<rparr>
          in case json_get snap (lit ''ratchet'') of
               None \<Rightarrow> Ok s1
             | Some rt \<Rightarrow> if rt = JNull then Ok s1 else restore_ratchet rt s1)))"
    unfolding Let_def by (intro reads_bind [OF secrets] reads_bind [OF reads_kam] tail)
qed

end
