(* ===== verification/Dm_Lifetime.thy ===== *)
theory Dm_Lifetime
  imports Dm_Network Dm_Snapshot
begin

text \<open>
  The life of a session on a device that is stopped and started: a run in which the session may
  at any point be written with \<open>snapshot\<close> and read back with \<open>restore\<close>, and the slot that each
  seal uses, computed from the state and the clock.
\<close>

section \<open>Clock readings are finite\<close>

lemma round64_finite:
  assumes "0 \<le> x" "x < 2 powi k" "k \<le> 1000" "-1000 \<le> k"
  obtains y where "round64 x = Fin y" "0 \<le> y" "y \<le> 2 powi k"
proof -
  have y: "0 \<le> round_rat x" by (rule round_rat_nonneg [OF assms(1)])
  have b: "round_rat x \<le> 2 powi k"
  proof (cases "x = 0")
    case True
    then show ?thesis by (simp add: round_rat_def)
  next
    case False
    then have x: "0 < x" using assms(1) by simp
    then have "(2 :: rat) powi ilog2 x < 2 powi k" using ilog2_bounds [OF x] assms(2) by simp
    then have "ilog2 x < k" by (meson linorder_not_less one_le_numeral power_int_increasing)
    then have "(2 :: rat) powi (max (ilog2 x) (-1022) + 1) \<le> 2 powi k"
      using assms(4) by (intro power_int_increasing) auto
    then show ?thesis using round_rat_le_binade [OF x] by linarith
  qed
  also have "(2 :: rat) powi k \<le> 2 powi 1000" using assms(3) by (intro power_int_increasing) auto
  also have "\<dots> < 2 ^ 1024" by simp
  finally have "round_rat x < 2 ^ 1024" .
  moreover have "- (2 ^ 1024) < round_rat x" using y by (rule less_le_trans [rotated]) simp
  ultimately have "round64 x = Fin (round_rat x)" by (simp add: round64_def Let_def)
  then show ?thesis using that y b by blast
qed

lemma as_secs_f64_finite: "f64_finite (as_secs_f64 secs nanos)"
proof -
  define m n where "m = unat secs" and "n = unat nanos"
  have "m < 2 ^ 64" "n < 2 ^ 32"
    using unsigned_less [of secs] unsigned_less [of nanos] by (simp_all add: m_def n_def)
  then have "(of_nat m :: rat) < of_nat (2 ^ 64)" "(of_nat n :: rat) < of_nat (2 ^ 32)"
    by (simp_all only: of_nat_less_iff)
  then have mn: "(of_nat m :: rat) < 2 powi 64" "of_nat n / 10 ^ 9 < (2 :: rat) powi 32" by simp_all
  obtain a where a: "round64 (of_nat m) = Fin a" "0 \<le> a" "a \<le> 2 powi 64"
    by (rule round64_finite [OF _ mn(1)]) simp_all
  obtain b where b: "round64 (of_nat n / 10 ^ 9) = Fin b" "0 \<le> b" "b \<le> 2 powi 32"
    by (rule round64_finite [OF _ mn(2)]) simp_all
  have ab: "a + b < 2 powi 65" using a(3) b(3) by simp
  obtain c where "round64 (a + b) = Fin c" by (rule round64_finite [OF _ ab]) (use a b in simp_all)
  then show ?thesis
    using a(1) b(1) unfolding as_secs_f64_def f64_of_nat_def m_def [symmetric] n_def [symmetric] by simp
qed

lemma now_seconds_finite: "f64_finite (fst (now_seconds w))"
  by (simp add: now_seconds_def as_secs_f64_finite split: option.split)

definition started_finite :: "DmSession \<Rightarrow> bool" where
  "started_finite s \<longleftrightarrow> (\<forall>r. ds_ratchet s = Some r \<longrightarrow> f64_finite (dr_epoch_started_at r))"

lemma seal_ready_started:
  assumes "seal_ready P chk pk s s1 r" "started_finite s"
  shows "f64_finite (dr_epoch_started_at r)"
  using assms(1)
proof (cases rule: seal_ready.cases)
  case same
  then show ?thesis using assms(2) by (simp add: started_finite_def)
next
  case (fresh e w w1)
  from fresh(1) obtain r' w2 where "s1 = s\<lparr>ds_ratchet := Some r', ds_epoch_secrets := ds_epoch_secrets s1,
      ds_current_kam := ds_current_kam s1\<rparr>" "dr_epoch_started_at r' = fst (now_seconds w2)"
    by (rule begin_epoch_OkE) simp
  then show ?thesis using fresh(2) now_seconds_finite [of w2] by (metis (no_types, lifting) DmSession.select_convs(4) DmSession.surjective DmSession.update_convs option.inject)
qed

lemma seal_started:
  assumes "DmSession_seal P chk pt pk s w = (res, s', w')" "session_wf s"
    and "\<forall>r. ds_ratchet s = Some r \<longrightarrow> dr_epoch r \<noteq> - 1" "started_finite s"
  shows "started_finite s'"
  using assms(1-3)
  by (cases rule: seal_outcome)
     (use assms(4) in \<open>auto simp: started_finite_def advanced_def dest: seal_ready_started [OF _ assms(4)]\<close>)

section \<open>Lives\<close>

inductive session_life ::
  "prims \<Rightarrow> bool \<Rightarrow> codecs \<Rightarrow> nat \<Rightarrow> DmSession \<Rightarrow> SealedDmFrame list \<Rightarrow> bool"
  for P chk C where
  start: "session_life P chk C 0 (DmSession_with_bounds peer bound age) []"
| seal: "\<lbrakk>session_life P chk C n s fs; DmSession_seal P chk pt pk s w = (Ok f, s', w')\<rbrakk>
    \<Longrightarrow> session_life P chk C (Suc n) s' (f # fs)"
| seal_failed: "\<lbrakk>session_life P chk C n s fs; DmSession_seal P chk pt pk s w = (Err e, s', w')\<rbrakk>
    \<Longrightarrow> session_life P chk C (Suc n) s' fs"
| opened: "\<lbrakk>session_life P chk C n s fs; DmSession_open P f sk s = (res, s')\<rbrakk>
    \<Longrightarrow> session_life P chk C n s' fs"
| restarted: "\<lbrakk>session_life P chk C n s fs; DmSession_restore C (DmSession_snapshot C s) = Ok s'\<rbrakk>
    \<Longrightarrow> session_life P chk C n s' fs"

text \<open>A restart changes nothing, so a life is a run without restarts.\<close>

lemma run_restores:
  assumes "hex_laws C" "session_run P chk n s fs" "n < 2 ^ 64" "started_finite s"
  shows "DmSession_restore C (DmSession_snapshot C s) = Ok s"
  using session_run_inv [OF assms(2,3)] assms(1,4)
  by (intro restore_snapshot_state) (simp_all add: run_inv_def started_finite_def)

lemma life_run:
  assumes "session_life P chk C n s fs" "n < 2 ^ 64" "hex_laws C"
  shows "session_run P chk n s fs \<and> started_finite s"
  using assms(1,2)
proof (induction rule: session_life.induct)
  case (start peer bound age)
  have "started_finite (DmSession_with_bounds peer bound age)"
    by (simp add: started_finite_def DmSession_with_bounds_def)
  then show ?case by (simp add: session_run.start)
next
  case (seal n s fs pt pk w f s' w')
  then have s: "session_run P chk n s fs" "started_finite s" by simp_all
  have inv: "run_inv n s fs" using session_run_inv [OF s(1)] seal.prems by simp
  have "started_finite s'"
    using seal_started [OF seal.hyps(2) _ _ s(2)] inv run_inv_epoch [OF inv] seal.prems
    by (simp add: run_inv_def)
  then show ?case using session_run.seal [OF s(1) seal.hyps(2)] by simp
next
  case (seal_failed n s fs pt pk w e s' w')
  then have s: "session_run P chk n s fs" "started_finite s" by simp_all
  have inv: "run_inv n s fs" using session_run_inv [OF s(1)] seal_failed.prems by simp
  have "started_finite s'"
    using seal_started [OF seal_failed.hyps(2) _ _ s(2)] inv run_inv_epoch [OF inv] seal_failed.prems
    by (simp add: run_inv_def)
  then show ?case using session_run.seal_failed [OF s(1) seal_failed.hyps(2)] by simp
next
  case (opened n s fs f sk res s')
  then show ?case using session_run.opened [OF _ opened.hyps(2)] open_ratchet [OF opened.hyps(2)]
    by (simp add: started_finite_def)
next
  case (restarted n s fs s')
  then show ?case using run_restores [OF assms(3)] by auto
qed

section \<open>The slot of a seal\<close>

definition next_slot :: "DmSession \<Rightarrow> f64 \<Rightarrow> u64 \<times> u64" where
  "next_slot s now =
     (case ds_ratchet s of
        None \<Rightarrow> (0, 0)
      | Some r \<Rightarrow>
          if should_rekey (dr_message_index r) (dr_epoch_started_at r) now
               (dr_rekey_msg_bound r) (dr_rekey_age_seconds r)
          then (dr_epoch r + 1, 0) else (dr_epoch r, dr_message_index r))"

lemma sealed_at:
  assumes "seal_ready P chk pk s s1 r" "session_wf s" "seal_frame P chk pt s1 w1 = (Ok f, s', w')"
  shows "(fr_epoch f, fr_index f) = (dr_epoch r, dr_message_index r) \<and>
    ds_ratchet s' = Some (r\<lparr>dr_message_index := dr_message_index r + 1\<rparr>)"
  using assms(3) unfolding seal_frame_ready [OF assms(1,2)]
  by (auto simp: Let_def split: prod.splits option.splits)

lemma sealed_at_begin:
  assumes "begin_at chk s w = (Ok (Some e), w0)" "session_wf s"
    and "case ds_ratchet s of None \<Rightarrow> e = 0 | Some r0 \<Rightarrow> u64_succ chk (dr_epoch r0) = Some e"
    and seal: "DmSession_seal P chk pt pk s w = (Ok f, s', w')"
  shows "(fr_epoch f, fr_index f) = (e, 0) \<and>
    (\<exists>r. ds_ratchet s' = Some r \<and> dr_epoch r = e \<and> dr_message_index r = 1)"
proof (cases rule: begin_epoch_cases [of P e pk s w0])
  case (ok s1 w1 r)
  have "seal_ready P chk pk s s1 r" by (rule seal_ready.fresh [OF ok assms(3)])
  moreover have "seal_frame P chk pt s1 w1 = (Ok f, s', w')"
    using seal ok(1) assms(1) by (simp add: DmSession_seal_def)
  ultimately show ?thesis using sealed_at [OF _ assms(2)] ok(3,4) by fastforce
next
  case (err x w1)
  then show ?thesis using assms(1) seal by (simp add: DmSession_seal_def)
qed

lemma seal_slot:
  assumes seal: "DmSession_seal P chk pt pk s w = (Ok f, s', w')" and wf: "session_wf s"
    and ne: "\<forall>r. ds_ratchet s = Some r \<longrightarrow> dr_epoch r \<noteq> - 1"
  shows "(fr_epoch f, fr_index f) = next_slot s (fst (now_seconds w)) \<and>
    (\<exists>r. ds_ratchet s' = Some r \<and> dr_epoch r = fr_epoch f \<and> dr_message_index r = fr_index f + 1)"
proof (cases rule: begin_at_cases [of s chk w])
  case first
  then show ?thesis using sealed_at_begin [OF first(2) wf _ seal] by (simp add: next_slot_def)
next
  case (stay r w1)
  have "dr_message_index r < ds_rekey_msg_bound s"
    using not_rekey_index [OF stay(2)] session_wfD(2) [OF wf stay(1)] by (simp add: ratchet_wf_def)
  with stay(1) have "seal_ready P chk pk s s r" by (rule seal_ready.same)
  moreover have "seal_frame P chk pt s w1 = (Ok f, s', w')" using seal stay by (simp add: DmSession_seal_def)
  ultimately show ?thesis
    using sealed_at [OF _ wf] stay(1,2)
    by (fastforce simp: next_slot_def DmRatchet_should_rekey_def Let_def split: prod.splits)
next
  case (roll r w1 e)
  then have "e = dr_epoch r + 1" by (auto simp: u64_succ_def split: if_splits)
  moreover have "(fr_epoch f, fr_index f) = (e, 0) \<and>
      (\<exists>r. ds_ratchet s' = Some r \<and> dr_epoch r = e \<and> dr_message_index r = 1)"
    by (rule sealed_at_begin [OF roll(4) wf _ seal]) (use roll in simp)
  ultimately show ?thesis
    using roll(1,2)
    by (auto simp: next_slot_def DmRatchet_should_rekey_def Let_def split: prod.splits)
next
  case (overflow r w1)
  then show ?thesis using seal by (simp add: DmSession_seal_def)
qed

end
