(* ===== verification/Dm_History.thy ===== *)
theory Dm_History
  imports Dm_Lifetime Dm_Channel
begin

text \<open>
  What a session accumulates. No epoch is ever removed from the store, and the secrets up to the
  session's own epoch are never replaced, so the state at any later time (and its snapshot) opens
  every frame the session ever sent; the secret received for an epoch that the session has not
  reached itself is overwritten when it begins that epoch. And an epoch carries at most as many
  frames as the message bound says.
\<close>

section \<open>Steps\<close>

inductive session_step :: "prims \<Rightarrow> bool \<Rightarrow> codecs \<Rightarrow> DmSession \<Rightarrow> DmSession \<Rightarrow> bool"
  for P chk C where
  seals: "DmSession_seal P chk pt pk s w = (Ok f, s', w') \<Longrightarrow> session_step P chk C s s'"
| seal_fails: "DmSession_seal P chk pt pk s w = (Err e, s', w') \<Longrightarrow> session_step P chk C s s'"
| opens: "DmSession_open P f sk s = (res, s') \<Longrightarrow> session_step P chk C s s'"
| restarts: "DmSession_restore C (DmSession_snapshot C s) = Ok s' \<Longrightarrow> session_step P chk C s s'"

lemma life_step:
  assumes "session_life P chk C n s fs" "session_step P chk C s s'"
  obtains n' fs' where "session_life P chk C n' s' fs'" "n' \<le> Suc n"
  using assms(2)
proof (cases rule: session_step.cases)
  case (seals pt pk w f w')
  show ?thesis by (rule that [OF session_life.seal [OF assms(1) seals]]) simp
next
  case (seal_fails pt pk w e w')
  show ?thesis by (rule that [OF session_life.seal_failed [OF assms(1) seal_fails]]) simp
next
  case (opens f sk res)
  show ?thesis by (rule that [OF session_life.opened [OF assms(1) opens]]) simp
next
  case restarts
  show ?thesis by (rule that [OF session_life.restarted [OF assms(1) restarts]]) simp
qed

section \<open>Secrets are kept\<close>

text \<open>The secret of an epoch \<open>e\<close> that the session has reached.\<close>

definition holds :: "u64 \<Rightarrow> bytes \<Rightarrow> DmSession \<Rightarrow> bool" where
  "holds e sec s \<longleftrightarrow> fmlookup (ds_epoch_secrets s) e = Some sec \<and>
     (\<exists>r. ds_ratchet s = Some r \<and> e \<le> dr_epoch r)"

lemma holds_ready:
  assumes "holds e sec s" "seal_ready P chk pk s s1 r"
    and "\<forall>r. ds_ratchet s = Some r \<longrightarrow> dr_epoch r \<noteq> - 1"
  shows "fmlookup (ds_epoch_secrets s1) e = Some sec" "e \<le> dr_epoch r"
proof -
  obtain r0 where r0: "ds_ratchet s = Some r0" "e \<le> dr_epoch r0" "fmlookup (ds_epoch_secrets s) e = Some sec"
    using assms(1) by (auto simp: holds_def)
  have "fmlookup (ds_epoch_secrets s1) e = Some sec \<and> e \<le> dr_epoch r"
    using assms(2)
  proof (cases rule: seal_ready.cases)
    case same
    then show ?thesis using r0 by simp
  next
    case (fresh x w w1)
    have "x = dr_epoch r0 + 1" using fresh(5) r0(1) by (auto simp: u64_succ_def split: if_splits)
    then have "dr_epoch r0 < x" using index_advances assms(3) r0(1) by blast
    moreover obtain secret where "ds_epoch_secrets s1 = fmupd x secret (ds_epoch_secrets s)"
      using fresh(1) by (rule begin_epoch_OkE) simp
    ultimately show ?thesis using r0 fresh(4) by auto
  qed
  then show "fmlookup (ds_epoch_secrets s1) e = Some sec" "e \<le> dr_epoch r" by auto
qed

lemma holds_seal:
  assumes "holds e sec s" "run_inv n s fs" "n < 2 ^ 64" "DmSession_seal P chk pt pk s w = (res, s', w')"
  shows "holds e sec s'"
proof -
  have ne: "\<forall>r. ds_ratchet s = Some r \<longrightarrow> dr_epoch r \<noteq> - 1" using run_inv_epoch [OF assms(2,3)] by blast
  have wf: "session_wf s" using assms(2) by (simp add: run_inv_def)
  show ?thesis
    using assms(4) wf ne
    by (cases rule: seal_outcome)
       (use assms(1) holds_ready [OF assms(1) _ ne] in \<open>auto simp: holds_def advanced_def\<close>)
qed

lemma holds_open: "holds e sec s \<Longrightarrow> DmSession_open P f sk s = (res, s') \<Longrightarrow> holds e sec s'"
  by (drule open_state) (auto simp: holds_def)

lemma known_seal:
  assumes "run_inv n s fs" "n < 2 ^ 64" "DmSession_seal P chk pt pk s w = (res, s', w')"
  shows "known_epochs s \<subseteq> known_epochs s'"
proof -
  have ready: "known_epochs s \<subseteq> known_epochs s1" if "seal_ready P chk pk s s1 r" for s1 r
    using that by (cases rule: seal_ready.cases) (auto simp: known_epochs_def fmdom'_alt_def elim!: begin_epoch_OkE)
  have wf: "session_wf s" using assms(1) by (simp add: run_inv_def)
  have ne: "\<forall>r. ds_ratchet s = Some r \<longrightarrow> dr_epoch r \<noteq> - 1" using run_inv_epoch [OF assms(1,2)] by blast
  have adv: "known_epochs (advanced s1 r) = known_epochs s1" for s1 r
    by (simp add: known_epochs_def advanced_def)
  show ?thesis
    using assms(3) wf ne by (cases rule: seal_outcome) (use ready in \<open>simp_all add: adv\<close>)
qed

lemma known_open: "DmSession_open P f sk s = (res, s') \<Longrightarrow> known_epochs s \<subseteq> known_epochs s'"
  by (drule open_state) (auto simp: known_epochs_def)

lemma holds_steps:
  assumes "(session_step P chk C ^^ m) s t" "session_life P chk C n s fs" "n + m < 2 ^ 64" "hex_laws C"
    and "holds e sec s"
  shows "holds e sec t \<and> known_epochs s \<subseteq> known_epochs t \<and>
    DmSession_restore C (DmSession_snapshot C t) = Ok t"
  using assms(1-3,5)
proof (induction m arbitrary: s n fs)
  case 0
  then have run: "session_run P chk n s fs" "started_finite s" using life_run [OF _ _ assms(4)] by auto
  then show ?case using 0 run_restores [OF assms(4)] by auto
next
  case (Suc m)
  obtain u where u: "session_step P chk C s u" "(session_step P chk C ^^ m) u t"
    using relpowp_Suc_D2 [OF Suc.prems(1)] by blast
  obtain n' fs' where l: "session_life P chk C n' u fs'" "n' \<le> Suc n"
    using Suc.prems(2) u(1) by (rule life_step)
  have n: "n < 2 ^ 64" using Suc.prems(3) by simp
  have run: "session_run P chk n s fs" "started_finite s" using life_run [OF Suc.prems(2) n assms(4)] by auto
  note inv = session_run_inv [OF run(1) n]
  have "holds e sec u \<and> known_epochs s \<subseteq> known_epochs u"
    using u(1)
  proof (cases rule: session_step.cases)
    case restarts
    then show ?thesis using run_restores [OF assms(4) run(1) n run(2)] Suc.prems(4) by simp
  next
    case opens
    then show ?thesis using holds_open [OF Suc.prems(4)] known_open by metis
  qed (metis holds_seal [OF Suc.prems(4) inv n] known_seal [OF inv n])+
  then show ?case using Suc.IH [OF u(2) l(1)] l(2) Suc.prems(3) by auto
qed

text \<open>A sealed frame is opened by its own session.\<close>

lemma seal_holds:
  assumes "DmSession_seal P chk pt pk s w = (Ok f, s', w')" "session_wf s" "kdf_sizes P" "gcm_laws P"
  obtains sec where "holds (fr_epoch f) sec s'" "open_frame P f sec = Ok pt"
proof -
  obtain s1 r nonce body where ready: "seal_ready P chk pk s s1 r"
    and s': "s' = s1\<lparr>ds_ratchet := Some (r\<lparr>dr_message_index := dr_message_index r + 1\<rparr>)\<rparr>"
    and c: "gcm_encrypt P (dm_key_at P r (dr_message_index r)) nonce
       (frame_aad (dr_epoch r) (dr_message_index r)) pt = Some body" and n: "length nonce = 12"
    and f: "f = \<lparr>fr_epoch = dr_epoch r, fr_index = dr_message_index r, fr_nonce = nonce, fr_body = body,
          fr_kam = (if dr_message_index r < 3 then ds_current_kam s1 else None)\<rparr>"
    using assms(1,2) by (rule seal_OkE)
  note wf = seal_ready_wf [OF ready assms(2)]
  have store: "fmlookup (ds_epoch_secrets s1) (dr_epoch r) = Some (dr_epoch_secret r)"
    using session_wfD(2) [OF wf(1,2)] by (simp add: ratchet_wf_def)
  have "length (dm_key_at P r (dr_message_index r)) = 32"
    using assms(3) by (simp add: dm_key_at_def dm_message_kdf_input_def)
  from gcm_decrypt_encrypt [OF assms(4) this n c]
  have "open_frame P f (dr_epoch_secret r) = Ok pt"
    using session_wfD(1) [OF wf(1) store] n by (simp add: open_frame_eq f dm_key_at_def)
  moreover have "holds (fr_epoch f) (dr_epoch_secret r) s'" using store by (simp add: holds_def s' f)
  ultimately show ?thesis using that by blast
qed

section \<open>Epochs are bounded\<close>

lemma seal_index_bound:
  assumes "DmSession_seal P chk pt pk s w = (Ok f, s', w')" "session_wf s"
  shows "fr_index f < max (ds_rekey_msg_bound s) 1"
proof -
  obtain s1 r nonce where "seal_ready P chk pk s s1 r" "fr_index f = dr_message_index r"
    using assms by (rule seal_OkE) simp
  then show ?thesis using seal_ready_wf(5) assms(2) by simp
qed

lemma seal_bound:
  assumes "DmSession_seal P chk pt pk s w = (res, s', w')" "session_wf s"
    and "\<forall>r. ds_ratchet s = Some r \<longrightarrow> dr_epoch r \<noteq> - 1"
  shows "ds_rekey_msg_bound s' = ds_rekey_msg_bound s"
  using assms by (cases rule: seal_outcome) (auto simp: advanced_def dest: seal_ready_bound)

lemma life_index_bound:
  assumes "session_life P chk C n s fs" "n < 2 ^ 64" "hex_laws C"
  shows "\<forall>f \<in> set fs. fr_index f < max (ds_rekey_msg_bound s) 1"
  using assms(1,2)
proof (induction rule: session_life.induct)
  case (seal n s fs pt pk w f s' w')
  then have run: "session_run P chk n s fs" using life_run [OF seal.hyps(1) _ assms(3)] by simp
  have n: "n < 2 ^ 64" using seal.prems by simp
  note inv = session_run_inv [OF run n]
  have wf: "session_wf s" using inv by (simp add: run_inv_def)
  show ?case
    using seal_index_bound [OF seal.hyps(2) wf] seal_bound [OF seal.hyps(2) wf] run_inv_epoch [OF inv n]
      seal.IH [OF n] by simp
next
  case (seal_failed n s fs pt pk w e s' w')
  then have run: "session_run P chk n s fs" using life_run [OF seal_failed.hyps(1) _ assms(3)] by simp
  have n: "n < 2 ^ 64" using seal_failed.prems by simp
  note inv = session_run_inv [OF run n]
  have wf: "session_wf s" using inv by (simp add: run_inv_def)
  show ?case
    using seal_bound [OF seal_failed.hyps(2) wf] run_inv_epoch [OF inv n] seal_failed.IH [OF n] by simp
next
  case (opened n s fs f sk res s')
  then show ?case using open_state [OF opened.hyps(2)] by auto
next
  case (restarted n s fs s')
  then have "s' = s" using run_restores [OF assms(3)] life_run [OF restarted.hyps(1) _ assms(3)] by auto
  then show ?case using restarted by simp
qed simp

lemma distinct_below:
  fixes bound :: nat
  assumes "distinct xs" "\<forall>x \<in> set xs. unat (x :: u64) < bound"
  shows "length xs \<le> bound"
proof -
  have "inj_on unat (set xs)" by (simp add: inj_on_def word_unat_eq_iff)
  then have "card (unat ` set xs) = length xs" using assms(1) by (simp add: card_image distinct_card)
  moreover have "unat ` set xs \<subseteq> {..<bound}" using assms(2) by auto
  ultimately show ?thesis using card_mono [of "{..<bound}" "unat ` set xs"] by simp
qed

end
