(* ===== verification/Dm_Correct.thy ===== *)
theory Dm_Correct
  imports Dm_Mail Dm_Types Dm_History Keys_Correct
begin

text \<open>
  Correctness of the direct-message session: slots are never reused, a seal behaves as
  documented, an unreliable network cannot keep frames from opening, tokens and snapshots are
  read back exactly; and three behaviours that a caller has to know about.
\<close>

lemma sample_new_run: "session_run sample_prims chk 0 (DmSession_new (lit ''bob'')) []"
  unfolding DmSession_new_def by (rule session_run.start)

section \<open>Sealing\<close>

text \<open>
  C1: whatever a session goes through since its creation (seals that succeed or fail, opens of
  arbitrary frames, restarts from its snapshot, in either build profile), its snapshot restores
  to it, and the frames it sent have strictly increasing (epoch, index) slots, so that no slot,
  hence no message key input, is used twice.
\<close>
theorem session_slots_fresh:
  assumes "session_life P chk C n s fs" "n < 2 ^ 64" "hex_laws C"
  shows "DmSession_restore C (DmSession_snapshot C s) = Ok s \<and>
    sorted_wrt (\<lambda>f g. slot_less g f) fs \<and> distinct (map (\<lambda>f. (fr_epoch f, fr_index f)) fs)"
proof -
  have run: "session_run P chk n s fs" "started_finite s" using life_run [OF assms] by simp_all
  show ?thesis
    using session_run_inv [OF run(1) assms(2)] sorted_slots_distinct
      run_restores [OF assms(3) run(1) assms(2) run(2)] by (auto simp: run_inv_def)
qed

theorem session_slots_fresh_witness:
  "\<exists>s f g. session_life sample_prims True sample_codecs 2 s [g, f] \<and> slot_less f g"
proof -
  let ?pk = "public_key sample_keys" and ?s = "DmSession_new (lit ''bob'')"
  have l0: "session_life sample_prims True sample_codecs 0 ?s []"
    unfolding DmSession_new_def by (rule session_life.start)
  obtain f s1 w1 where 1: "DmSession_seal sample_prims True [1] ?pk ?s (sample_world 3 0) = (Ok f, s1, w1)"
    using seal_run_total [OF sample_new_run [of True] _ sample_seal_pair, of "[1]" "sample_world 3 0"]
    by (auto simp: fst_def split: prod.splits)
  from session_life.seal [OF l0 1] have l1: "session_life sample_prims True sample_codecs 1 s1 [f]" by simp
  have "DmSession_restore sample_codecs (DmSession_snapshot sample_codecs s1) = Ok s1"
    using session_slots_fresh [OF l1 _ sample_codecs_laws(3)] by simp
  from session_life.restarted [OF l1 this]
  have l1': "session_life sample_prims True sample_codecs 1 s1 [f]" .
  have r1: "session_run sample_prims True 1 s1 [f]" using session_run.seal [OF sample_new_run 1] by simp
  obtain g s2 w2 where 2: "DmSession_seal sample_prims True [2] ?pk s1 w1 = (Ok g, s2, w2)"
    using seal_run_total [OF r1 _ sample_seal_pair, of "[2]" w1] by (auto simp: fst_def split: prod.splits)
  from session_life.seal [OF l1' 2] have l2: "session_life sample_prims True sample_codecs 2 s2 [g, f]"
    by (simp add: numeral_2_eq_2)
  from session_slots_fresh [OF l2 _ sample_codecs_laws(3)] have "slot_less f g" by simp
  with l2 show ?thesis by blast
qed

text \<open>
  C15: in a run of fewer than \<open>2 ^ 64\<close> seals a seal never panics; when it cannot begin its epoch
  the session is left as it was; a frame's index is below the message bound (or 0), and it
  carries the key-agreement message exactly when it is one of the first three of its epoch.
\<close>
theorem session_seal_outcomes:
  assumes "session_run P chk n s fs" "n < 2 ^ 64"
    and "DmSession_seal P chk pt pk s w = (res, s', w')"
  shows "case res of
      Panic \<Rightarrow> False
    | Err e \<Rightarrow> (\<exists>x. e = SessionRatchet x \<and> s' = s) \<or> e = OpenFailed
    | Ok f \<Rightarrow> fr_index f < max (ds_rekey_msg_bound s) 1 \<and> length (fr_nonce f) = 12 \<and>
        (fr_kam f \<noteq> None \<longleftrightarrow> fr_index f < 3) \<and> fmlookup (ds_epoch_secrets s') (fr_epoch f) \<noteq> None"
proof -
  have inv: "run_inv n s fs" by (rule session_run_inv [OF assms(1,2)])
  then have wf: "session_wf s" by (simp add: run_inv_def)
  have ne: "\<forall>r. ds_ratchet s = Some r \<longrightarrow> dr_epoch r \<noteq> - 1" using run_inv_epoch [OF inv assms(2)] by blast
  show ?thesis
    using assms(3) wf ne
  proof (cases rule: seal_outcome)
    case (sealed s1 r f)
    note sr = seal_ready_wf [OF sealed(1) wf]
    have "ratchet_wf s1 r" by (rule session_wfD(2) [OF sr(1,2)])
    then show ?thesis using sealed sr(5) by (auto simp: frame_at_def ratchet_wf_def advanced_def)
  qed auto
qed

theorem session_seal_outcomes_witness:
  "\<exists>e s' w'. DmSession_seal sample_prims True [1] [] (DmSession_new (lit ''bob'')) (sample_world 3 0) =
     (Err e, s', w') \<and> ((\<exists>x. e = SessionRatchet x \<and> s' = DmSession_new (lit ''bob'')) \<or> e = OpenFailed)"
proof -
  obtain res s' w' where s: "DmSession_seal sample_prims True [1] [] (DmSession_new (lit ''bob''))
      (sample_world 3 0) = (res, s', w')" using prod_cases3 by blast
  have "\<not> is_ok res"
    using s by (auto simp: DmSession_seal_def begin_at_def DmSession_new_def DmSession_with_bounds_def
        begin_epoch_def new_epoch_secret_def wrap_dm_epoch_secret_def fill_bytes_def split: if_splits)
  with s show ?thesis using session_seal_outcomes [OF sample_new_run _ s] by (auto split: res.splits)
qed

text \<open>
  C19: in a run, sealing a plaintext below the AEAD's length limit to a matching key pair
  succeeds, at exactly the slot that the state and the clock give: the first of epoch 0, the
  first of the next epoch when the re-key test fires, and the current index otherwise; the
  session then sits one index further in that epoch.
\<close>
theorem session_seal_slot:
  assumes "session_run P chk n s fs" "n < 2 ^ 64" "seal_pair P pk sk" "length pt < 2 ^ 32"
  shows "\<exists>f s' w' r. DmSession_seal P chk pt pk s w = (Ok f, s', w') \<and>
    (fr_epoch f, fr_index f) = next_slot s (fst (now_seconds w)) \<and>
    ds_ratchet s' = Some r \<and> dr_epoch r = fr_epoch f \<and> dr_message_index r = fr_index f + 1"
proof -
  have inv: "run_inv n s fs" by (rule session_run_inv [OF assms(1,2)])
  then have wf: "session_wf s" by (simp add: run_inv_def)
  have ne: "\<forall>r. ds_ratchet s = Some r \<longrightarrow> dr_epoch r \<noteq> - 1" using run_inv_epoch [OF inv assms(2)] by blast
  obtain f s' w' where s: "DmSession_seal P chk pt pk s w = (Ok f, s', w')"
    using seal_run_total [OF assms, of w] by (metis prod_cases3 fst_conv)
  show ?thesis using seal_slot [OF s wf ne] s by auto
qed

theorem session_seal_slot_witness:
  "\<exists>f s' w'. DmSession_seal sample_prims False [1, 2, 3] (public_key sample_keys)
         (DmSession_new (lit ''bob'')) (sample_world 3 0) = (Ok f, s', w') \<and> fr_epoch f = 0 \<and> fr_index f = 0"
proof -
  have "(0::nat) < 2 ^ 64" "length [1, 2, 3 :: u8] < 2 ^ 32" by simp_all
  from session_seal_slot [OF sample_new_run this(1) sample_seal_pair this(2), of False "sample_world 3 0"]
  show ?thesis by (auto simp: next_slot_def DmSession_new_def DmSession_with_bounds_def)
qed

section \<open>Delivery\<close>

text \<open>
  C2: between a sender and the receiver it seals to, every frame sent opens at any time, in any
  order and any number of times, to the plaintext it was sealed from, provided the receiver
  knows its epoch or the frame is one of the first three of its epoch; otherwise the open
  reports that the epoch secret is missing and changes nothing.
\<close>
theorem net_delivery:
  assumes "net_run P chk pk sk n A B sent" "n < 2 ^ 64" "seal_pair P pk sk" "(f, pt) \<in> set sent"
  shows "DmSession_open P f sk B =
    (if fmlookup (ds_epoch_secrets B) (fr_epoch f) \<noteq> None then (Ok pt, B)
     else if fr_index f < 3 then
       (Ok pt, B\<lparr>ds_epoch_secrets := fmupd (fr_epoch f)
                  (the (fmlookup (ds_epoch_secrets A) (fr_epoch f))) (ds_epoch_secrets B)\<rparr>)
     else (Err (MissingEpochSecret (fr_epoch f)), B))"
proof -
  have laws: "kdf_sizes P" "gcm_laws P" using assms(3) by (simp_all add: seal_pair_def kem_pair_def)
  show ?thesis
    by (rule net_open [OF net_run_inv [OF assms(1-3) laws(1)] laws assms(4)])
qed

text \<open>A network run in which one frame was sent, for the witnesses.\<close>

lemma sample_net:
  "\<exists>A f. net_run sample_prims True (public_key sample_keys) (private_key sample_keys) 1 A
     (DmSession_new (lit ''alice'')) [(f, [7])] \<and> fr_index f < 3"
proof -
  let ?pk = "public_key sample_keys" and ?A = "DmSession_new (lit ''bob'')"
  obtain f A w1 where 1: "DmSession_seal sample_prims True [7] ?pk ?A (sample_world 3 0) = (Ok f, A, w1)"
    using seal_run_total [OF sample_new_run [of True] _ sample_seal_pair, of "[7]" "sample_world 3 0"]
    by (auto simp: fst_def split: prod.splits)
  have wf: "session_wf ?A" by (simp add: DmSession_new_def session_wf_new)
  obtain s1 r nonce body where "seal_ready sample_prims True ?pk ?A s1 r" "fr_index f = dr_message_index r"
    using 1 wf by (rule seal_OkE) simp
  moreover have "ds_ratchet ?A = None" by (simp add: DmSession_new_def DmSession_with_bounds_def)
  ultimately have "fr_index f < 3" using seal_ready_first by fastforce
  moreover have "net_run sample_prims True ?pk (private_key sample_keys) 0 ?A
      (DmSession_new (lit ''alice'')) []"
    unfolding DmSession_new_def by (rule net_run.start)
  from net_run.send [OF this 1] have "net_run sample_prims True ?pk (private_key sample_keys) 1 A
      (DmSession_new (lit ''alice'')) [(f, [7])]" by simp
  ultimately show ?thesis by blast
qed

theorem net_delivery_witness:
  "\<exists>f. fst (DmSession_open sample_prims f (private_key sample_keys) (DmSession_new (lit ''alice''))) = Ok [7]"
proof -
  obtain A f where net: "net_run sample_prims True (public_key sample_keys) (private_key sample_keys) 1 A
     (DmSession_new (lit ''alice'')) [(f, [7])]" and i: "fr_index f < 3" using sample_net by blast
  have "fst (DmSession_open sample_prims f (private_key sample_keys) (DmSession_new (lit ''alice''))) = Ok [7]"
    using net_delivery [OF net _ sample_seal_pair, of f "[7]"] i by simp
  then show ?thesis by blast
qed

text \<open>
  One of the first three frames of an epoch is enough: after it was opened, every frame of
  that epoch opens, also those that carry no key-agreement message.
\<close>

lemma net_epoch_opens:
  assumes "net_run P chk pk sk n A B sent" "n < 2 ^ 64" "seal_pair P pk sk"
    and "(f, pt) \<in> set sent" "fr_index f < 3"
    and "(g, pt') \<in> set sent" "fr_epoch g = fr_epoch f"
  shows "fst (DmSession_open P g sk (snd (DmSession_open P f sk B))) = Ok pt'"
proof -
  have laws: "kdf_sizes P" "gcm_laws P" using assms(3) by (simp_all add: seal_pair_def kem_pair_def)
  note inv = net_run_inv [OF assms(1-3) laws(1)]
  obtain res B' where op: "DmSession_open P f sk B = (res, B')" by fastforce
  have "fmlookup (ds_epoch_secrets B') (fr_epoch f) \<noteq> None"
    using op assms(5) unfolding net_open [OF inv laws assms(4)] by (auto split: if_splits)
  then show ?thesis
    using net_open [OF net_inv_open [OF inv laws assms(4) op] laws assms(6)] op assms(7) by simp
qed

text \<open>
  C4: the receiving session refines the abstract channel, in which a message can be read when its
  epoch is known or it is one of the first three of its epoch: over any schedule of deliveries
  of the tokens of sent frames (lost, repeated, reordered) it gives the channel's results and ends
  up knowing the channel's epochs. Messages are shorter than \<open>2 ^ 32 - 16\<close> bytes, so that the
  token's length prefixes hold them.
\<close>
theorem channel_refinement:
  assumes "net_run P chk pk sk n A B sent" "n < 2 ^ 64" "seal_pair P pk sk" "b64_laws C"
    and "short_messages sent" "set ms \<subseteq> set sent"
  shows "apsnd known_epochs (deliver_all (\<lambda>m. receive_token C P sk (to_token C (fst m))) ms B) =
    deliver_all channel_recv (map posting_of ms) (known_epochs B)"
proof -
  have laws: "kdf_sizes P" "gcm_laws P" using assms(3) by (simp_all add: seal_pair_def kem_pair_def)
  then have "net_inv P sk n A B sent \<and> kdf_sizes P \<and> gcm_laws P \<and> b64_laws C \<and> short_messages sent"
    using net_run_inv [OF assms(1-3)] assms(4,5) by simp
  from mail.deliver_all_sim [OF assms(6) this] show ?thesis by (rule conjunct1)
qed

theorem channel_refinement_witness:
  "\<exists>f. fst (deliver_all (\<lambda>m. receive_token sample_codecs sample_prims (private_key sample_keys)
           (to_token sample_codecs (fst m)))
         [(f, [7 :: u8]), (f, [7])] (DmSession_new (lit ''alice''))) = [Ok [7], Ok [7]]"
proof -
  obtain A f where net: "net_run sample_prims True (public_key sample_keys) (private_key sample_keys) 1 A
     (DmSession_new (lit ''alice'')) [(f, [7])]" and i: "fr_index f < 3" using sample_net by blast
  let ?ms = "[(f, [7]), (f, [7])] :: (SealedDmFrame \<times> bytes) list" and ?B = "DmSession_new (lit ''alice'')"
  let ?recv = "\<lambda>m. receive_token sample_codecs sample_prims (private_key sample_keys) (to_token sample_codecs (fst m))"
  have short: "short_messages [(f, [7 :: u8])]" by (simp add: short_messages_def)
  have "apsnd known_epochs (deliver_all ?recv ?ms ?B) =
      deliver_all channel_recv (map posting_of ?ms) (known_epochs ?B)"
    by (rule channel_refinement [OF net _ sample_seal_pair sample_codecs_laws(1) short]) simp_all
  then have "fst (deliver_all ?recv ?ms ?B) = fst (deliver_all channel_recv (map posting_of ?ms) (known_epochs ?B))"
    by (metis fst_apsnd)
  also have "\<dots> = [Ok [7], Ok [7]]" using i by (simp add: posting_of_def)
  finally show ?thesis by blast
qed

text \<open>
  Integrity of frames: whatever frame an attacker delivers for an epoch the receiver knows (with a
  nonce of 12 bytes), it is a sent frame up to its key-agreement message and opens to what was
  sealed, or it is refused and nothing changes, or it is a forgery against the AEAD under a key
  of the sender's.
\<close>

lemma frame_integrity:
  assumes "net_run P chk pk sk n A B sent" "n < 2 ^ 64" "seal_pair P pk sk"
    and "fmlookup (ds_epoch_secrets B) (fr_epoch f) = Some sec" "length (fr_nonce f) = 12"
  shows "(\<exists>g pt. (g, pt) \<in> set sent \<and> same_cipher f g \<and> DmSession_open P f sk B = (Ok pt, B)) \<or>
    DmSession_open P f sk B = (Err OpenFailed, B) \<or> dm_forgery P A sent f"
proof -
  have laws: "kdf_sizes P" "gcm_laws P" using assms(3) by (simp_all add: seal_pair_def kem_pair_def)
  show ?thesis
    by (rule net_accepts [OF net_run_inv [OF assms(1-3) laws(1)] laws assms(4,5)]) blast+
qed

text \<open>
  C3: integrity: whatever string reaches the receiver, it is refused with an error and nothing
  changes, or it is the token of a frame of which one of these holds: up to its key-agreement
  message it was sent, and opens to what was sealed; it is a forgery against the AEAD under a key
  of the sender's; its nonce does not have 12 bytes and the open panics; or it belongs to an
  epoch the receiver does not know, and its key-agreement message unwraps to the secret that is
  stored for the epoch. Only in the last case does the receiver change.
\<close>
theorem string_integrity:
  assumes "net_run P chk pk sk n A B sent" "n < 2 ^ 64" "seal_pair P pk sk"
    and "receive_token C P sk token B = (res, B')"
  shows "((\<exists>e. res = Err e) \<and> B' = B) \<or>
    (\<exists>f. from_token C token = Ok f \<and>
      ((\<exists>g pt. (g, pt) \<in> set sent \<and> same_cipher f g \<and> res = Ok pt \<and> B' = B) \<or>
       (dm_forgery P A sent f \<and> B' = B) \<or>
       (length (fr_nonce f) \<noteq> 12 \<and> res = Panic \<and> B' = B) \<or>
       (fmlookup (ds_epoch_secrets B) (fr_epoch f) = None \<and>
        (\<exists>kam sec. fr_kam f = Some kam \<and> unwrap_dm_epoch_secret P kam sk = Ok sec \<and>
           B' = B\<lparr>ds_epoch_secrets := fmupd (fr_epoch f) sec (ds_epoch_secrets B)\<rparr> \<and>
           res = open_frame P f sec))))"
proof -
  have laws: "kdf_sizes P" "gcm_laws P" using assms(3) by (simp_all add: seal_pair_def kem_pair_def)
  show ?thesis
    by (rule receive_any [OF net_run_inv [OF assms(1-3) laws(1)] laws assms(4)]) blast+
qed

theorem string_integrity_witness:
  "\<exists>A B f e. net_run sample_prims True (public_key sample_keys) (private_key sample_keys) 1 A B [(f, [7])] \<and>
     receive_token sample_codecs sample_prims (private_key sample_keys) (lit ''pqdr2:'') B = (Err e, B)"
proof -
  obtain A f where net: "net_run sample_prims True (public_key sample_keys) (private_key sample_keys) 1 A
     (DmSession_new (lit ''alice'')) [(f, [7])]" using sample_net by blast
  obtain res B where r: "receive_token sample_codecs sample_prims (private_key sample_keys) (lit ''pqdr2:'')
      (DmSession_new (lit ''alice'')) = (res, B)" by fastforce
  have "from_token sample_codecs (lit ''pqdr2:'') \<noteq> Ok g" for g
    by (simp add: from_token_def strip_prefix_def PQDR_SCHEME_def lit_def)
  then show ?thesis using string_integrity [OF net _ sample_seal_pair r] net r by auto
qed

section \<open>What a session accumulates\<close>

text \<open>
  C10: what a session sent stays readable to whoever has its state: whatever the session goes
  through after a frame was sealed (more seals, over any number of epochs, opens of arbitrary
  frames, restarts), its state at any later time holds the secret that opens the frame to its
  plaintext, no epoch has left the store meanwhile, and the state's snapshot restores to it. (The
  secret of a received epoch is not covered: beginning an epoch of the same number replaces it.)
\<close>
theorem past_stays_readable:
  assumes "session_life P chk C n s fs" "DmSession_seal P chk pt pk s w = (Ok f, s', w')"
    and "(session_step P chk C ^^ m) s' t" "Suc n + m < 2 ^ 64" "hex_laws C" "kdf_sizes P" "gcm_laws P"
  shows "\<exists>sec. epoch_secret_for_test t (fr_epoch f) = Some sec \<and> open_frame P f sec = Ok pt \<and>
    known_epochs s' \<subseteq> known_epochs t \<and>
    DmSession_restore C (DmSession_snapshot C t) = Ok t"
proof -
  have n: "n < 2 ^ 64" using assms(4) by simp
  have "session_wf s" using session_run_inv [OF _ n] life_run [OF assms(1) n assms(5)] by (auto simp: run_inv_def)
  then obtain sec where sec: "holds (fr_epoch f) sec s'" "open_frame P f sec = Ok pt"
    by (rule seal_holds [OF assms(2) _ assms(6,7)])
  from holds_steps [OF assms(3) session_life.seal [OF assms(1,2)] assms(4,5) sec(1)] sec(2)
  show ?thesis by (auto simp: holds_def epoch_secret_for_test_def)
qed

text \<open>
  C11: an epoch is never longer than the re-key bound allows (one message when the bound is 0): in
  all a session can go through, restarts included, every frame's index is below the bound, and
  no epoch has more frames than the bound.
\<close>
theorem epoch_length_bound:
  assumes "session_life P chk C n s fs" "n < 2 ^ 64" "hex_laws C"
  shows "list_all (\<lambda>f. fr_index f < max (ds_rekey_msg_bound s) 1) fs \<and>
    length (filter (\<lambda>f. fr_epoch f = e) fs) \<le> max (unat (ds_rekey_msg_bound s)) 1"
proof -
  have b: "\<forall>f \<in> set fs. fr_index f < max (ds_rekey_msg_bound s) 1" by (rule life_index_bound [OF assms])
  have "session_run P chk n s fs" using life_run [OF assms] by simp
  then have "distinct (map (\<lambda>f. (fr_epoch f, fr_index f)) fs)"
    using session_run_inv [OF _ assms(2)] sorted_slots_distinct by (auto simp: run_inv_def)
  then have "distinct (map fr_index (filter (\<lambda>f. fr_epoch f = e) fs))"
    by (induction fs) (auto simp: image_iff)
  moreover have "unat (max (ds_rekey_msg_bound s) 1) = max (unat (ds_rekey_msg_bound s)) 1"
    by (simp add: max_def word_le_nat_alt)
  ultimately have "length (map fr_index (filter (\<lambda>f. fr_epoch f = e) fs)) \<le> max (unat (ds_rekey_msg_bound s)) 1"
    using b by (intro distinct_below) (auto simp: word_less_nat_alt)
  then show ?thesis using b by (simp add: list_all_iff)
qed

text \<open>Two seals under a bound of one message: two epochs.\<close>

lemma sample_two_epochs:
  "\<exists>f s1 w1 g s2 w2. DmSession_seal sample_prims True [7] (public_key sample_keys)
       (DmSession_with_bounds (lit ''bob'') 1 100) (sample_world 3 0) = (Ok f, s1, w1) \<and>
     DmSession_seal sample_prims True [8] (public_key sample_keys) s1 w1 = (Ok g, s2, w2) \<and>
     fr_epoch f = 0 \<and> fr_epoch g = 1"
proof -
  let ?s = "DmSession_with_bounds (lit ''bob'') 1 100" and ?pk = "public_key sample_keys"
  have r0: "session_run sample_prims True 0 ?s []" by (rule session_run.start)
  obtain f s1 w1 where f: "DmSession_seal sample_prims True [7] ?pk ?s (sample_world 3 0) = (Ok f, s1, w1)"
    using seal_run_total [OF r0 _ sample_seal_pair, of "[7]" "sample_world 3 0"] by (auto simp: fst_def split: prod.splits)
  from session_run.seal [OF r0 f] have r1: "session_run sample_prims True 1 s1 [f]" by simp
  obtain g s2 w2 where g: "DmSession_seal sample_prims True [8] ?pk s1 w1 = (Ok g, s2, w2)"
    using seal_run_total [OF r1 _ sample_seal_pair, of "[8]" w1] by (auto simp: fst_def split: prod.splits)
  have wf: "session_wf ?s" "session_wf s1"
    using session_run_inv [OF r1] by (simp_all add: session_wf_new run_inv_def)
  have none: "ds_ratchet ?s = None" by (simp add: DmSession_with_bounds_def)
  have fs: "fr_epoch f = 0" "fr_index f = 0"
    and s1: "\<exists>r. ds_ratchet s1 = Some r \<and> dr_epoch r = 0 \<and> dr_message_index r = 1"
    using seal_slot [OF f wf(1)] none by (auto simp: next_slot_def)
  then obtain r where r: "ds_ratchet s1 = Some r" "dr_epoch r = 0" "dr_message_index r = 1" by blast
  have "ds_rekey_msg_bound s1 = 1"
    using seal_bound [OF f wf(1)] none by (simp add: DmSession_with_bounds_def)
  then have "dr_rekey_msg_bound r = 1" using session_wfD(2) [OF wf(2) r(1)] by (simp add: ratchet_wf_def)
  then have "next_slot s1 t = (1, 0)" for t by (simp add: next_slot_def r should_rekey_def)
  then have "fr_epoch g = 1" using seal_slot [OF g wf(2)] r by auto
  with f g fs show ?thesis by blast
qed

theorem past_stays_readable_witness:
  "\<exists>f g t sec. fr_epoch f = 0 \<and> fr_epoch g = 1 \<and>
     session_life sample_prims True sample_codecs 2 t [g, f] \<and>
     epoch_secret_for_test t 0 = Some sec \<and> open_frame sample_prims f sec = Ok [7]"
proof -
  let ?s = "DmSession_with_bounds (lit ''bob'') 1 100" and ?pk = "public_key sample_keys"
  obtain f s1 w1 g s2 w2 where f: "DmSession_seal sample_prims True [7] ?pk ?s (sample_world 3 0) = (Ok f, s1, w1)"
    and g: "DmSession_seal sample_prims True [8] ?pk s1 w1 = (Ok g, s2, w2)"
    and e: "fr_epoch f = 0" "fr_epoch g = 1" using sample_two_epochs by blast
  have l0: "session_life sample_prims True sample_codecs 0 ?s []" by (rule session_life.start)
  have l2: "session_life sample_prims True sample_codecs 2 s2 [g, f]"
    using session_life.seal [OF session_life.seal [OF l0 f] g] by (simp add: numeral_2_eq_2)
  have "(session_step sample_prims True sample_codecs ^^ 1) s1 s2"
    using session_step.seals [OF g, of sample_codecs] by (simp add: eq_OO)
  from past_stays_readable [OF l0 f this _ sample_codecs_laws(3) sample_kdf sample_gcm]
  show ?thesis using e l2 by auto
qed

theorem epoch_length_bound_witness:
  "\<exists>f g s. session_life sample_prims True sample_codecs 2 s [g, f] \<and>
     length (filter (\<lambda>h. fr_epoch h = 0) [g, f]) \<le> max (unat (ds_rekey_msg_bound s)) 1"
proof -
  let ?s = "DmSession_with_bounds (lit ''bob'') 1 100" and ?pk = "public_key sample_keys"
  obtain f s1 w1 g s2 w2 where f: "DmSession_seal sample_prims True [7] ?pk ?s (sample_world 3 0) = (Ok f, s1, w1)"
    and g: "DmSession_seal sample_prims True [8] ?pk s1 w1 = (Ok g, s2, w2)" using sample_two_epochs by blast
  have l0: "session_life sample_prims True sample_codecs 0 ?s []" by (rule session_life.start)
  have l2: "session_life sample_prims True sample_codecs 2 s2 [g, f]"
    using session_life.seal [OF session_life.seal [OF l0 f] g] by (simp add: numeral_2_eq_2)
  have "length (filter (\<lambda>h. fr_epoch h = 0) [g, f]) \<le> max (unat (ds_rekey_msg_bound s2)) 1"
    by (rule epoch_length_bound [OF l2 _ sample_codecs_laws(3), THEN conjunct2]) simp
  with l2 show ?thesis by blast
qed

section \<open>Tokens and snapshots\<close>

text \<open>
  C12: \<open>from_token\<close> never panics, and accepts only the exact encoding of the frame it returns:
  the scheme followed by base64 of the frame's own bytes, nothing missing and nothing after.
\<close>
theorem token_parser_exact:
  "from_token C token \<noteq> Panic \<and>
   (\<forall>f. from_token C token = Ok f \<longleftrightarrow>
      (\<exists>body. token = PQDR_SCHEME @ body \<and> b64_decode C body = Inr (frame_blob f) \<and> frame_fits f))"
proof (cases "strip_prefix PQDR_SCHEME token")
  case None
  then show ?thesis by (auto simp: from_token_def strip_prefix_def split: if_splits)
next
  case (Some body)
  then have t: "token = PQDR_SCHEME @ body" by (simp add: strip_prefix_eq_Some)
  have p: "parse_frame b = Ok f \<longleftrightarrow> b = frame_blob f \<and> frame_fits f" for b f
    using parse_frame_OkD [of b f] parse_frame_blob [of f] by auto
  show ?thesis
    using Some parse_frame_not_Panic
    by (cases "b64_decode C body") (auto simp: from_token_def t p)
qed

text \<open>
  C9: \<open>restore\<close> of \<open>snapshot\<close> gives the session back: peer, bounds, every epoch secret, the
  key-agreement message and the ratchet with its next index, so a restart continues at the slot
  after the last one used. The epoch's start time has to be finite (JSON has no other floats).
\<close>
theorem snapshot_restore:
  assumes "hex_laws C" "session_wf s"
    and "\<And>r. ds_ratchet s = Some r \<Longrightarrow> f64_finite (dr_epoch_started_at r)"
  shows "DmSession_restore C (DmSession_snapshot C s) = Ok s"
  by (rule restore_snapshot_state [OF assms])

theorem snapshot_restore_witness:
  "DmSession_restore sample_codecs (DmSession_snapshot sample_codecs
     \<lparr>ds_peer = lit ''bob'', ds_rekey_msg_bound = 50, ds_rekey_age_seconds = 100,
      ds_ratchet = Some \<lparr>dr_epoch = 0, dr_epoch_secret = sample_secret, dr_message_index = 7,
         dr_rekey_msg_bound = 50, dr_rekey_age_seconds = 100, dr_epoch_started_at = Fin 12\<rparr>,
      ds_epoch_secrets = fmupd 0 sample_secret fmempty, ds_current_kam = Some [1]\<rparr>) =
   Ok \<lparr>ds_peer = lit ''bob'', ds_rekey_msg_bound = 50, ds_rekey_age_seconds = 100,
      ds_ratchet = Some \<lparr>dr_epoch = 0, dr_epoch_secret = sample_secret, dr_message_index = 7,
         dr_rekey_msg_bound = 50, dr_rekey_age_seconds = 100, dr_epoch_started_at = Fin 12\<rparr>,
      ds_epoch_secrets = fmupd 0 sample_secret fmempty, ds_current_kam = Some [1]\<rparr>"
  by (rule snapshot_restore [OF sample_codecs_laws(3)]) (auto simp: session_wf_def ratchet_wf_def)

text \<open>
  C16: whatever JSON it is given, \<open>restore\<close> does not panic: it reports a bad snapshot, or returns a
  session whose stored secrets have 32 bytes and whose ratchet, if any, works on the stored
  secret of its epoch under the session's bounds.
\<close>
theorem restore_outcomes:
  "case DmSession_restore C snap of
     Ok s \<Rightarrow> session_typed s
   | Err e \<Rightarrow> \<exists>m. e = BadToken (lit ''bad snapshot: '' @ lit m)
   | Panic \<Rightarrow> False"
  using reads_restore [of C snap]
  by (cases "DmSession_restore C snap") (simp_all add: is_bad_snapshot_def bad_snapshot_def)

text \<open>
  C20: every operation preserves these types, also when it fails or panics: sealing to any key and
  opening any frame, from any typed session, restored ones included.
\<close>
theorem session_types_preserved:
  assumes "session_typed s"
  shows "session_typed (fst (snd (DmSession_seal P chk pt pk s w))) \<and>
    session_typed (snd (DmSession_open P f sk s))"
  using seal_typed [OF assms] open_typed [OF assms] by blast

theorem session_types_preserved_witness:
  "session_typed (fst (snd (DmSession_seal sample_prims True [7] (public_key sample_keys)
     (DmSession_new (lit ''bob'')) (sample_world 3 0))))"
  unfolding DmSession_new_def by (rule conjunct1 [OF session_types_preserved [OF session_typed_new]])

text \<open>
  C29: the cursor of \<open>from_token\<close> in machine arithmetic, on a token that fits half the address
  space: with a 64-bit \<open>usize\<close> no 32-bit length makes \<open>off + n\<close> overflow and the step is the
  model's; with a 32-bit \<open>usize\<close> it is the model's while the sum fits, and panics in either build
  profile when a length prefix makes it overflow.
\<close>
theorem cursor_widths:
  assumes "off \<le> length blob" "length blob < 2 ^ 31" "n < 2 ^ 32"
  shows "map_ok (apsnd unat) (take_at_usize chk blob (of_nat off :: 64 word) (of_nat n)) =
      take_at blob off n \<and>
    map_ok (apsnd unat) (take_at_usize chk blob (of_nat off :: 32 word) (of_nat n)) =
      (if off + n < 2 ^ 32 then take_at blob off n else Panic)"
proof -
  have "unat (of_nat off :: 64 word) = off" "unat (of_nat n :: 64 word) = n"
    "unat (of_nat off :: 32 word) = off" "unat (of_nat n :: 32 word) = n"
    using assms by (simp_all add: unat_of_nat_small)
  then show ?thesis
    using assms take_at_usize_eq [of "of_nat off :: 64 word" blob chk "of_nat n"]
      take_at_usize_eq [of "of_nat off :: 32 word" blob chk "of_nat n"] by simp
qed

theorem cursor_widths_witness:
  "map_ok (apsnd unat) (take_at_usize False (replicate 28 0) (of_nat 20 :: 32 word) (of_nat (2 ^ 32 - 1))) = Panic \<and>
   map_ok (apsnd unat) (take_at_usize False (replicate 28 0) (of_nat 20 :: 64 word) (of_nat (2 ^ 32 - 1))) =
     Err (BadToken (lit ''truncated frame''))"
  using cursor_widths [of 20 "replicate 28 0" "2 ^ 32 - 1" False] by (simp add: take_at_def)

section \<open>What opening does not check\<close>

text \<open>
  C21: on a well-formed session \<open>open\<close> panics exactly when the epoch's secret is at hand, or
  comes with the frame, and the nonce does not have 12 bytes. The token codec lets a nonce of
  any length through, so a peer can trigger it.
\<close>
theorem open_panics_iff:
  assumes "session_wf s"
  shows "fst (DmSession_open P f sk s) = Panic \<longleftrightarrow>
    length (fr_nonce f) \<noteq> 12 \<and>
    (fmlookup (ds_epoch_secrets s) (fr_epoch f) \<noteq> None \<or>
     (\<exists>kam secret. fr_kam f = Some kam \<and> unwrap_dm_epoch_secret P kam sk = Ok secret))"
proof -
  have o: "open_frame P f secret = Panic \<longleftrightarrow> length (fr_nonce f) \<noteq> 12" if "length secret = 32" for secret
    using that by (cases "length (fr_nonce f) = 12")
      (simp_all add: open_frame_def derive_dm_message_key_eq Let_def)
  show ?thesis
  proof (cases "fmlookup (ds_epoch_secrets s) (fr_epoch f)")
    case None
    show ?thesis
    proof (cases "fr_kam f")
      case None
      then show ?thesis using \<open>fmlookup _ _ = None\<close> by (simp add: DmSession_open_def accept_kam_def)
    next
      case (Some kam)
      then show ?thesis
        using \<open>fmlookup _ _ = None\<close> o unwrap_dm_not_Panic [of P kam sk] unwrap_dm_OkD [of P kam sk]
        by (cases "unwrap_dm_epoch_secret P kam sk") (auto simp: DmSession_open_def accept_kam_def)
    qed
  next
    case (Some secret)
    then show ?thesis using o session_wfD(1) [OF assms] by (auto simp: open_known_epoch)
  qed
qed

lemma sample_wrap:
  "\<exists>kam w'. wrap_dm_epoch_secret sample_prims sample_secret (public_key sample_keys) (sample_world 2 0) =
     (Ok kam, w') \<and> unwrap_dm_epoch_secret sample_prims kam (private_key sample_keys) = Ok sample_secret"
proof -
  obtain kam w' where w: "wrap_dm_epoch_secret sample_prims sample_secret (public_key sample_keys)
      (sample_world 2 0) = (Ok kam, w')"
    using wrap_dm_total [OF sample_seal_pair length_sample_secret] by blast
  then show ?thesis using wrap_dm_opens(2) [OF sample_seal_pair w] by blast
qed

theorem open_panics_iff_witness:
  "\<exists>kam. fst (DmSession_open sample_prims
      \<lparr>fr_epoch = 5, fr_index = 0, fr_nonce = [], fr_body = [], fr_kam = Some kam\<rparr>
      (private_key sample_keys) (DmSession_new (lit ''alice''))) = Panic"
proof -
  obtain kam where "unwrap_dm_epoch_secret sample_prims kam (private_key sample_keys) = Ok sample_secret"
    using sample_wrap by blast
  moreover have "session_wf (DmSession_new (lit ''alice''))"
    by (simp add: DmSession_new_def session_wf_new)
  ultimately have "fst (DmSession_open sample_prims
      \<lparr>fr_epoch = 5, fr_index = 0, fr_nonce = [], fr_body = [], fr_kam = Some kam\<rparr>
      (private_key sample_keys) (DmSession_new (lit ''alice''))) = Panic"
    by (simp add: open_panics_iff)
  then show ?thesis by blast
qed

text \<open>
  C33: a key-agreement message is accepted before the frame's body is authenticated. Anyone who
  knows the receiver's public key can wrap a secret of its own for an epoch the receiver has
  not seen: whether or not that frame opens, the secret is kept, and from then on every frame
  of the epoch, the true sender's too, is opened under the foreign secret.
\<close>
theorem forged_kam_is_kept:
  assumes "seal_pair P pk sk" "wrap_dm_epoch_secret P evil pk w = (Ok kam, w')"
    and "fmlookup (ds_epoch_secrets s) (fr_epoch f) = None" "fr_kam f = Some kam"
  shows "fmlookup (ds_epoch_secrets (snd (DmSession_open P f sk s))) (fr_epoch f) = Some evil \<and>
    (\<forall>g. fr_epoch g = fr_epoch f \<longrightarrow>
       DmSession_open P g sk (snd (DmSession_open P f sk s)) =
         (open_frame P g evil, snd (DmSession_open P f sk s)))"
proof -
  have "DmSession_open P f sk s =
      (open_frame P f evil, s\<lparr>ds_epoch_secrets := fmupd (fr_epoch f) evil (ds_epoch_secrets s)\<rparr>)"
    by (rule open_new_epoch [OF assms(3,4) wrap_dm_opens(2) [OF assms(1,2)]])
  then show ?thesis by (simp add: open_known_epoch)
qed

theorem forged_kam_is_kept_witness:
  "\<exists>kam. fmlookup (ds_epoch_secrets (snd (DmSession_open sample_prims
      \<lparr>fr_epoch = 5, fr_index = 0, fr_nonce = replicate 12 0, fr_body = [], fr_kam = Some kam\<rparr>
      (private_key sample_keys) (DmSession_new (lit ''alice''))))) 5 = Some sample_secret"
proof -
  obtain kam w' where w: "wrap_dm_epoch_secret sample_prims sample_secret (public_key sample_keys)
      (sample_world 2 0) = (Ok kam, w')" using sample_wrap by blast
  let ?f = "\<lparr>fr_epoch = 5, fr_index = 0, fr_nonce = replicate 12 0, fr_body = [], fr_kam = Some kam\<rparr>"
  have "fmlookup (ds_epoch_secrets (snd (DmSession_open sample_prims ?f (private_key sample_keys)
      (DmSession_new (lit ''alice''))))) (fr_epoch ?f) = Some sample_secret"
    by (rule conjunct1 [OF forged_kam_is_kept [OF sample_seal_pair w]])
       (simp_all add: DmSession_new_def DmSession_with_bounds_def)
  then show ?thesis by (intro exI [of _ kam]) simp
qed

text \<open>
  C34: the secrets a session sends under and those it receives under share one store, keyed by
  the epoch number alone. Once a session has sealed, a frame of the peer's own epoch 0 is opened
  under this session's secret, and its key-agreement message is never looked at; so two parties
  that both seal first on one session each cannot open each other's first epoch.
\<close>
theorem both_directions_share_epochs:
  assumes "DmSession_seal P chk pt pk (DmSession_with_bounds peer bound age) w = (Ok f, s', w')"
  shows "\<exists>own. fmlookup (ds_epoch_secrets s') 0 = Some own \<and>
    (\<forall>g sk. fr_epoch g = 0 \<longrightarrow> DmSession_open P g sk s' = (open_frame P g own, s'))"
proof -
  let ?s = "DmSession_with_bounds peer bound age"
  obtain s1 r nonce body where ready: "seal_ready P chk pk ?s s1 r"
    and s': "s' = s1\<lparr>ds_ratchet := Some (r\<lparr>dr_message_index := dr_message_index r + 1\<rparr>)\<rparr>"
    using assms session_wf_new [of peer bound age] by (rule seal_OkE)
  note sr = seal_ready_wf [OF ready session_wf_new]
  have "dr_epoch r = 0" using seal_ready_first [OF ready] by (simp add: DmSession_with_bounds_def)
  then have "fmlookup (ds_epoch_secrets s') 0 = Some (dr_epoch_secret r)"
    using session_wfD(2) [OF sr(1,2)] by (simp add: ratchet_wf_def s')
  then show ?thesis by (auto simp: open_known_epoch)
qed

theorem both_directions_share_epochs_witness:
  "\<exists>s own. fmlookup (ds_epoch_secrets s) 0 = Some own \<and>
     DmSession_open sample_prims
       \<lparr>fr_epoch = 0, fr_index = 0, fr_nonce = replicate 12 0, fr_body = [], fr_kam = Some []\<rparr> [] s =
     (open_frame sample_prims
       \<lparr>fr_epoch = 0, fr_index = 0, fr_nonce = replicate 12 0, fr_body = [], fr_kam = Some []\<rparr> own, s)"
proof -
  obtain f s w where "DmSession_seal sample_prims True [7] (public_key sample_keys)
      (DmSession_with_bounds (lit ''bob'') 50 100) (sample_world 3 0) = (Ok f, s, w)"
    using seal_run_total [OF session_run.start [of sample_prims True "lit ''bob''" 50 100] _
        sample_seal_pair, of "[7]" "sample_world 3 0"]
    by (auto simp: fst_def split: prod.splits)
  from both_directions_share_epochs [OF this] show ?thesis
    by (elim exE conjE, intro exI conjI) (assumption, simp)
qed

end
