(* ===== verification/Pqdm.thy ===== *)
theory Pqdm
  imports Sealing Json Ratchet
begin

text \<open>
  Hybrid sealing of a message body (\<open>src/src/pqdm.rs\<close>): the downgrade-lock associated data,
  the wrap key bound to it, \<open>seal\<close>, \<open>open_sealed\<close> and the suite negotiation.
\<close>

section \<open>Constants and errors\<close>

definition HYBRID_SUITE :: rstr where "HYBRID_SUITE = lit ''x25519-mlkem768''"
definition CLASSICAL_SUITE :: rstr where "CLASSICAL_SUITE = lit ''x25519-pgp-wrap-v1''"
definition PQDM_INFO_WRAP :: bytes where "PQDM_INFO_WRAP = blit ''skcomms/pqdm/wrap/v1''"
declare PQDM_INFO_WRAP_def [key_labels]

definition PQDM_NONCE_LEN :: nat where "PQDM_NONCE_LEN = 12"
definition AESGCM_TAG_LEN :: nat where "AESGCM_TAG_LEN = 16"
definition SEALED_MIN_LEN :: nat where
  "SEALED_MIN_LEN = CIPHERTEXT_LEN + PQDM_NONCE_LEN + AESGCM_TAG_LEN"

lemma pqdm_lengths [simp]: "PQDM_NONCE_LEN = 12" "AESGCM_TAG_LEN = 16" "SEALED_MIN_LEN = 1148"
  by (simp_all add: PQDM_NONCE_LEN_def AESGCM_TAG_LEN_def SEALED_MIN_LEN_def)

datatype pqdm_error = DmFormat rstr | DowngradeDetected rstr | DmKem kem_error

fun pqdm_error_display :: "pqdm_error \<Rightarrow> rstr" where
  "pqdm_error_display (DmFormat m) = lit ''pqdm format error: '' @ m"
| "pqdm_error_display (DowngradeDetected m) = lit ''pqdm downgrade detected: '' @ m"
| "pqdm_error_display (DmKem e) = lit ''pqdm KEM error: '' @ kem_error_display e"

section \<open>The downgrade lock\<close>

text \<open>The four entries inserted into the \<open>BTreeMap\<close>, in the order of the code.\<close>

definition lock_head :: "rstr \<Rightarrow> rstr \<Rightarrow> rstr \<Rightarrow> json" where
  "lock_head negotiated_suite sender recipient =
     json_object
       [(lit ''v'', JNum (PosInt 1)),
        (lit ''negotiated_suite'', JStr negotiated_suite),
        (lit ''sender'', JStr sender),
        (lit ''recipient'', JStr recipient)]"

definition downgrade_lock_aad :: "serde \<Rightarrow> rstr \<Rightarrow> rstr \<Rightarrow> rstr \<Rightarrow> bytes option \<Rightarrow> bytes" where
  "downgrade_lock_aad J negotiated_suite sender recipient extra =
     (let head = to_vec J (lock_head negotiated_suite sender recipient)
      in case extra of Some e \<Rightarrow> head @ e | None \<Rightarrow> head)"

definition wrap_key :: "prims \<Rightarrow> bytes \<Rightarrow> bytes \<Rightarrow> bytes" where
  "wrap_key P shared aad =
     (let info = PQDM_INFO_WRAP @ blit ''|'' @ aad in hkdf_sha256 P [] shared info)"

section \<open>Seal and open\<close>

definition seal :: "prims \<Rightarrow> serde \<Rightarrow> bytes \<Rightarrow> bytes \<Rightarrow> rstr \<Rightarrow> rstr \<Rightarrow> world \<Rightarrow>
    (pqdm_error, bytes) res \<times> world" where
  "seal P J plaintext recipient_hybrid_pub sender recipient w =
     (if length recipient_hybrid_pub \<noteq> PUBLIC_KEY_LEN
      then (Err (DmFormat (lit ''hybrid public key must be '' @ dec PUBLIC_KEY_LEN @
                 lit '' bytes, got '' @ dec (length recipient_hybrid_pub))), w)
      else let aad = downgrade_lock_aad J HYBRID_SUITE sender recipient None
           in case hybrid_encap P recipient_hybrid_pub w of
                (Err e, w1) \<Rightarrow> (Err (DmKem e), w1)
              | (Panic, w1) \<Rightarrow> (Panic, w1)
              | (Ok (ciphertext, shared), w1) \<Rightarrow>
                  (let key = wrap_key P shared aad;
                       (nonce_bytes, w2) = fill_bytes PQDM_NONCE_LEN w1
                   in case gcm_encrypt P key nonce_bytes aad plaintext of
                        None \<Rightarrow> (Err (DmFormat (lit ''AES-256-GCM encryption failed'')), w2)
                      | Some body \<Rightarrow> (Ok (ciphertext @ nonce_bytes @ body), w2)))"

definition downgrade_text :: "(rstr \<Rightarrow> rstr) \<Rightarrow> rstr \<Rightarrow> rstr" where
  "downgrade_text dbg expected_suite =
     lit ''hybrid-sealed open failed '' @ [0x2014] @
     lit '' wrong key, tampered ciphertext, or a suite-downgrade attempt (AAD bound suite='' @
     dbg expected_suite @ lit '')''"

text \<open>\<open>dbg\<close> is Rust's \<open>{:?}\<close> of a string; it only enters the error text.\<close>

definition open_sealed :: "prims \<Rightarrow> serde \<Rightarrow> (rstr \<Rightarrow> rstr) \<Rightarrow> bytes \<Rightarrow> bytes \<Rightarrow> rstr \<Rightarrow> rstr \<Rightarrow> rstr \<Rightarrow>
    (pqdm_error, bytes) res" where
  "open_sealed P J dbg sealed hybrid_private sender recipient expected_suite =
     (if length sealed < SEALED_MIN_LEN
      then Err (DmFormat (lit ''sealed blob must be >= '' @ dec SEALED_MIN_LEN @
                lit '' bytes, got '' @ dec (length sealed)))
      else let ciphertext = blob_ct sealed;
               nonce_bytes = blob_nonce sealed;
               body = blob_body sealed;
               aad = downgrade_lock_aad J expected_suite sender recipient None
           in and_then (map_err DmKem (hybrid_decap P ciphertext hybrid_private)) (\<lambda>shared.
                let key = wrap_key P shared aad
                in ok_or (DowngradeDetected (downgrade_text dbg expected_suite))
                     (gcm_decrypt P key nonce_bytes aad body)))"

definition negotiate_suite :: "bool \<Rightarrow> bool \<Rightarrow> rstr" where
  "negotiate_suite local_supports_hybrid recipient_has_hybrid =
     (if local_supports_hybrid \<and> recipient_has_hybrid then HYBRID_SUITE else CLASSICAL_SUITE)"

section \<open>The associated data determines suite and parties\<close>

lemma lock_head_fields:
  "json_get (lock_head s a b) (lit ''negotiated_suite'') = Some (JStr s)"
  "json_get (lock_head s a b) (lit ''sender'') = Some (JStr a)"
  "json_get (lock_head s a b) (lit ''recipient'') = Some (JStr b)"
  by (simp_all add: lock_head_def json_get_object)

lemma lock_head_inject [simp]: "lock_head s a b = lock_head s' a' b' \<longleftrightarrow> s = s' \<and> a = a' \<and> b = b'"
  by (metis lock_head_fields json.inject(3) option.inject)

lemma lock_head_plain:
  assumes "valid_str s" "valid_str a" "valid_str b"
  shows "json_plain (lock_head s a b)" "json_depth (lock_head s a b) \<le> 127"
  using assms
  by (simp_all add: lock_head_def json_object_def btree_collect_def lit_def less_list_code
      valid_str_def scalar_value_def)

lemma lock_aad_inject:
  assumes "serde_laws J" "\<forall>x \<in> {s, a, b, s', a', b'}. valid_str x"
    and "downgrade_lock_aad J s a b None = downgrade_lock_aad J s' a' b' None"
  shows "s = s' \<and> a = a' \<and> b = b'"
proof -
  have "from_slice J (to_vec J (lock_head s a b)) = Inr (lock_head s a b)"
    "from_slice J (to_vec J (lock_head s' a' b')) = Inr (lock_head s' a' b')"
    using assms(1,2) by (simp_all add: serde_to_vec lock_head_plain)
  then have "lock_head s a b = lock_head s' a' b'"
    using assms(3) by (metis downgrade_lock_aad_def option.case(1) sum.inject(2))
  then show ?thesis by simp
qed

section \<open>Seal and open again\<close>

interpretation dm_seal: kem_dem "hybrid_encap P" "hybrid_decap P" "seal_pair P"
  "wrap_key P" "gcm_encrypt P" "gcm_decrypt P" for P
  by (rule kem_dem_instance) (simp add: wrap_key_def)

lemma pqdm_seal_OkE:
  assumes "seal P J pt pk a b w = (Ok blob, w')"
  obtains ct shared w1 nonce c where "length pk = 1216" "hybrid_encap P pk w = (Ok (ct, shared), w1)"
    "gcm_encrypt P (wrap_key P shared (downgrade_lock_aad J HYBRID_SUITE a b None)) nonce
       (downgrade_lock_aad J HYBRID_SUITE a b None) pt = Some c"
    "blob = ct @ nonce @ c" "length nonce = 12" "fill_bytes 12 w1 = (nonce, w')"
  using assms unfolding seal_def
  by (auto simp: Let_def dest: fill_bytes_length
      split: if_splits res.splits prod.splits option.splits)

lemma pqdm_seal_not_Panic: "fst (seal P J pt pk a b w) \<noteq> Panic"
  using hybrid_encap_not_Panic [of P pk w]
  by (auto simp: seal_def Let_def split: res.split prod.split option.split)

lemma pqdm_seal_total:
  assumes "seal_pair P pk sk" "length pt < 2 ^ 32"
    "length (downgrade_lock_aad J HYBRID_SUITE a b None) < 2 ^ 32"
  obtains blob w' where "seal P J pt pk a b w = (Ok blob, w')"
proof -
  let ?aad = "downgrade_lock_aad J HYBRID_SUITE a b None"
  obtain ct ss w1 where e: "hybrid_encap P pk w = (Ok (ct, ss), w1)"
    using dm_wrap.encap_total [OF assms(1)] by blast
  obtain n w2 where n: "fill_bytes 12 w1 = (n, w2)" by fastforce
  obtain c where "gcm_encrypt P (wrap_key P ss ?aad) n ?aad pt = Some c"
    using dm_seal.aead_total [OF assms(1) dm_seal.kdf_size [OF assms(1)] fill_bytes_length [OF n]
        assms(2,3)] by blast
  with e n show ?thesis
    using that dm_wrap.keys_sizes [OF assms(1)] by (simp add: seal_def Let_def)
qed

text \<open>What opening makes of a sealed blob, under any suite and parties.\<close>

lemma open_sealed_sealed:
  assumes pair: "seal_pair P pk sk" and sealed: "seal P J pt pk a b w = (Ok blob, w')"
  obtains key shared where
    "length blob = 1148 + length pt" "hybrid_decap P (blob_ct blob) sk = Ok shared"
    "key = wrap_key P shared (downgrade_lock_aad J HYBRID_SUITE a b None)"
    "gcm_encrypt P key (blob_nonce blob) (downgrade_lock_aad J HYBRID_SUITE a b None) pt = Some (blob_body blob)"
    "gcm_decrypt P key (blob_nonce blob) (downgrade_lock_aad J HYBRID_SUITE a b None) (blob_body blob) = Some pt"
    "\<And>a' b' s. open_sealed P J dbg blob sk a' b' s =
       ok_or (DowngradeDetected (downgrade_text dbg s))
         (gcm_decrypt P (wrap_key P shared (downgrade_lock_aad J s a' b' None)) (blob_nonce blob)
            (downgrade_lock_aad J s a' b' None) (blob_body blob))"
proof -
  obtain ct ss w1 n c where e: "hybrid_encap P pk w = (Ok (ct, ss), w1)" and n: "length n = 12"
    and c: "gcm_encrypt P (wrap_key P ss (downgrade_lock_aad J HYBRID_SUITE a b None)) n
       (downgrade_lock_aad J HYBRID_SUITE a b None) pt = Some c" and blob: "blob = ct @ n @ c"
    using sealed by (rule pqdm_seal_OkE)
  note o = dm_seal.sealed_opens [OF pair e n c]
  note parts = o(1-3) [folded blob]
  show ?thesis
  proof (rule that [OF _ _ refl])
    show len: "length blob = 1148 + length pt" using o(6) by (simp add: blob)
    show d: "hybrid_decap P (blob_ct blob) sk = Ok ss" using o(4) by (simp add: parts)
    then show "open_sealed P J dbg blob sk a' b' s =
       ok_or (DowngradeDetected (downgrade_text dbg s))
         (gcm_decrypt P (wrap_key P ss (downgrade_lock_aad J s a' b' None)) (blob_nonce blob)
            (downgrade_lock_aad J s a' b' None) (blob_body blob))" for a' b' s
      using len by (simp add: open_sealed_def Let_def)
  qed (use c o(5) in \<open>simp_all add: parts\<close>)
qed

lemma open_sealed_not_Panic: "open_sealed P J dbg blob sk a b s \<noteq> Panic"
proof -
  have "ok_or e x \<noteq> Panic" for e :: pqdm_error and x :: "bytes option" by (cases x) simp_all
  then show ?thesis
    using hybrid_decap_not_Panic [of P "blob_ct blob" sk]
    by (auto simp: open_sealed_def Let_def and_then_eq_Panic)
qed

lemma pqdm_opens:
  assumes pair: "seal_pair P pk sk" and len: "length pt < 2 ^ 32"
    "length (downgrade_lock_aad J HYBRID_SUITE a b None) < 2 ^ 32"
  obtains blob w' where "seal P J pt pk a b w = (Ok blob, w')" "length blob = 1148 + length pt"
    "\<And>dbg. open_sealed P J dbg blob sk a b HYBRID_SUITE = Ok pt"
proof -
  obtain blob w' where s: "seal P J pt pk a b w = (Ok blob, w')" by (rule pqdm_seal_total [OF pair len])
  have "length blob = 1148 + length pt \<and> open_sealed P J dbg blob sk a b HYBRID_SUITE = Ok pt" for dbg
    by (rule open_sealed_sealed [OF pair s, where dbg = dbg]) simp
  then show ?thesis using that s by blast
qed

end
