(* ===== verification/Pqroute.thy ===== *)
theory Pqroute
  imports Ratchet Json
begin

text \<open>
  The routing envelope of \<open>src/src/pqroute.rs\<close>: \<open>seal_routed\<close>, \<open>read_route_header\<close>,
  \<open>replace_route_header\<close>, \<open>open_routed\<close> and \<open>split_outer\<close>. The canonical encoder they use is
  in theory \<open>Json\<close>.
\<close>

section \<open>Constants and errors\<close>

definition ROUTE_SUITE :: bytes where "ROUTE_SUITE = blit ''pqroute1''"
definition ROUTE_INFO_WRAP :: bytes where "ROUTE_INFO_WRAP = blit ''skcomms/pqroute/wrap/v1''"
declare ROUTE_INFO_WRAP_def [key_labels]

definition LEN_PREFIX :: nat where "LEN_PREFIX = 4"
definition ROUTE_NONCE_LEN :: nat where "ROUTE_NONCE_LEN = 12"
definition ROUTE_TAG_LEN :: nat where "ROUTE_TAG_LEN = 16"
definition ROUTE_SEALED_MIN_LEN :: nat where
  "ROUTE_SEALED_MIN_LEN = CIPHERTEXT_LEN + ROUTE_NONCE_LEN + ROUTE_TAG_LEN"

lemma route_lengths [simp]:
  "LEN_PREFIX = 4" "ROUTE_NONCE_LEN = 12" "ROUTE_TAG_LEN = 16" "ROUTE_SEALED_MIN_LEN = 1148"
  by (simp_all add: LEN_PREFIX_def ROUTE_NONCE_LEN_def ROUTE_TAG_LEN_def ROUTE_SEALED_MIN_LEN_def)

datatype pqroute_error = RouteFormat rstr | RouteOpen rstr | RouteKem kem_error

fun pqroute_error_display :: "pqroute_error \<Rightarrow> rstr" where
  "pqroute_error_display (RouteFormat m) = lit ''pqroute format error: '' @ m"
| "pqroute_error_display (RouteOpen m) = lit ''pqroute open error: '' @ m"
| "pqroute_error_display (RouteKem e) = lit ''pqroute KEM error: '' @ kem_error_display e"

section \<open>Associated data and wrap key\<close>

definition build_aad :: "bytes \<Rightarrow> bytes" where
  "build_aad route_canonical = ROUTE_SUITE @ blit ''|'' @ route_canonical"

definition derive_wrap_key :: "prims \<Rightarrow> bytes \<Rightarrow> bytes \<Rightarrow> bytes" where
  "derive_wrap_key P shared aad =
     (let info = ROUTE_INFO_WRAP @ blit ''|'' @ aad in hkdf_sha256 P [] shared info)"

section \<open>Cutting an envelope\<close>

text \<open>A length-prefixed field: \<open>usize\<close> has 64 bits, so the checked addition cannot overflow.\<close>

definition split_outer :: "bytes \<Rightarrow> (pqroute_error, bytes \<times> bytes) res" where
  "split_outer blob =
     (if length blob < LEN_PREFIX
      then Err (RouteFormat (lit ''blob too short for a route-header length prefix''))
      else let hdr_len = unat (u32_of_be (take 4 blob));
               start = LEN_PREFIX;
               fin = start + hdr_len
           in if 2 ^ 64 \<le> fin then Err (RouteFormat (lit ''route header length overflow''))
              else if length blob < fin
              then Err (RouteFormat (lit ''route header length exceeds blob size''))
              else Ok (take (fin - start) (drop start blob), drop fin blob))"

definition read_route_header :: "serde \<Rightarrow> bytes \<Rightarrow> (pqroute_error, json) res" where
  "read_route_header J blob =
     and_then (split_outer blob) (\<lambda>(route_bytes, sealed).
       case from_slice J route_bytes of
         Inl e \<Rightarrow> Err (RouteFormat (lit ''route header not valid JSON: '' @ e))
       | Inr v \<Rightarrow> Ok v)"

definition replace_route_header :: "serde \<Rightarrow> bytes \<Rightarrow> json \<Rightarrow> (pqroute_error, bytes) res" where
  "replace_route_header J blob new_route_hdr =
     and_then (split_outer blob) (\<lambda>(old_bytes, sealed).
       let route_bytes = canonical J new_route_hdr
       in Ok (u32_be (len_u32 route_bytes) @ route_bytes @ sealed))"

section \<open>Seal and open\<close>

definition seal_routed :: "prims \<Rightarrow> serde \<Rightarrow> json \<Rightarrow> bytes \<Rightarrow> bytes \<Rightarrow> json \<Rightarrow> world \<Rightarrow>
    (pqroute_error, bytes) res \<times> world" where
  "seal_routed P J inner_metadata content dest_hybrid_pub route_hdr w =
     (if length dest_hybrid_pub \<noteq> PUBLIC_KEY_LEN
      then (Err (RouteFormat (lit ''dest_hybrid_pub must be '' @ dec PUBLIC_KEY_LEN @
                 lit '' bytes, got '' @ dec (length dest_hybrid_pub))), w)
      else let route_bytes = canonical J route_hdr;
               meta_bytes = canonical J inner_metadata;
               inner = u32_be (len_u32 meta_bytes) @ meta_bytes @ content;
               aad = build_aad route_bytes
           in case hybrid_encap P dest_hybrid_pub w of
                (Err e, w1) \<Rightarrow> (Err (RouteKem e), w1)
              | (Panic, w1) \<Rightarrow> (Panic, w1)
              | (Ok (ciphertext, shared), w1) \<Rightarrow>
                  (let wrap_key = derive_wrap_key P shared aad;
                       (nonce_bytes, w2) = fill_bytes ROUTE_NONCE_LEN w1
                   in case gcm_encrypt P wrap_key nonce_bytes aad inner of
                        None \<Rightarrow> (Err (RouteFormat (lit ''AES-256-GCM seal failed'')), w2)
                      | Some sealed_inner \<Rightarrow>
                          (Ok (u32_be (len_u32 route_bytes) @ route_bytes @
                               ciphertext @ nonce_bytes @ sealed_inner), w2)))"

text \<open>Cutting the decrypted inner into metadata and content.\<close>

definition split_inner :: "serde \<Rightarrow> bytes \<Rightarrow> (pqroute_error, json \<times> bytes) res" where
  "split_inner J inner =
     (if length inner < LEN_PREFIX then Err (RouteOpen (lit ''decrypted inner is truncated''))
      else let meta_len = unat (u32_of_be (take 4 inner))
           in if length inner < LEN_PREFIX + meta_len
              then Err (RouteOpen (lit ''decrypted inner metadata length is out of range''))
              else let meta_bytes = take meta_len (drop LEN_PREFIX inner);
                       content = drop (LEN_PREFIX + meta_len) inner
                   in case from_slice J meta_bytes of
                        Inl e \<Rightarrow> Err (RouteOpen (lit ''inner metadata not valid JSON: '' @ e))
                      | Inr v \<Rightarrow> Ok (v, content))"

definition open_failed_text :: rstr where
  "open_failed_text =
     lit ''pqroute1 open failed '' @ [0x2014] @
     lit '' wrong key, tampered inner, or a rewritten route header (the header is AEAD-bound)''"

definition open_routed :: "prims \<Rightarrow> serde \<Rightarrow> bytes \<Rightarrow> bytes \<Rightarrow>
    (pqroute_error, json \<times> json \<times> bytes) res" where
  "open_routed P J blob dest_hybrid_priv =
     and_then (split_outer blob) (\<lambda>(route_bytes, sealed).
       if length sealed < ROUTE_SEALED_MIN_LEN
       then Err (RouteFormat (lit ''sealed inner must be >= '' @ dec ROUTE_SEALED_MIN_LEN @
                 lit '' bytes, got '' @ dec (length sealed)))
       else case from_slice J route_bytes of
         Inl e \<Rightarrow> Err (RouteFormat (lit ''route header not valid JSON: '' @ e))
       | Inr route_hdr \<Rightarrow>
          (let ciphertext = blob_ct sealed;
               nonce = blob_nonce sealed;
               body = blob_body sealed;
               aad = build_aad route_bytes
           in and_then (map_err (\<lambda>e. RouteOpen (lit ''hybrid decapsulation failed: '' @
                                                kem_error_display e))
                          (hybrid_decap P ciphertext dest_hybrid_priv)) (\<lambda>shared.
              let wrap_key = derive_wrap_key P shared aad
              in and_then (ok_or (RouteOpen open_failed_text)
                             (gcm_decrypt P wrap_key nonce aad body)) (\<lambda>inner.
                 and_then (split_inner J inner) (\<lambda>(inner_metadata, content).
                   Ok (route_hdr, inner_metadata, content))))))"

section \<open>Cutting what was joined\<close>

lemma split_outer_join:
  assumes "length route < 2 ^ 32"
  shows "split_outer (u32_be (len_u32 route) @ route @ sealed) = Ok (route, sealed)"
  using assms by (simp add: split_outer_def Let_def unat_len_u32_small)

lemma split_outer_OkD:
  assumes "split_outer blob = Ok (route, sealed)"
  shows "blob = u32_be (len_u32 route) @ route @ sealed" "length route < 2 ^ 32"
proof -
  define n where "n = unat (u32_of_be (take 4 blob))"
  have len: "4 \<le> length blob" "4 + n \<le> length blob" and r: "route = take n (drop 4 blob)"
    and s: "sealed = drop (4 + n) blob"
    using assms by (auto simp: split_outer_def Let_def n_def split: if_splits)
  have n: "n < 2 ^ 32" using unat_word_less [of "u32_of_be (take 4 blob)"] by (simp add: n_def)
  have rl: "length route = n" using r len by simp
  then show "length route < 2 ^ 32" using n by simp
  have "len_u32 route = u32_of_be (take 4 blob)" by (simp add: len_u32_def rl n_def)
  then have "u32_be (len_u32 route) = take 4 blob" using len by (simp add: u32_be_of_be)
  moreover have "route @ sealed = drop 4 blob"
    by (simp add: r s) (metis add.commute append_take_drop_id drop_drop)
  ultimately show "blob = u32_be (len_u32 route) @ route @ sealed"
    by (metis append_take_drop_id)
qed

lemma split_outer_not_Panic [simp]: "split_outer blob \<noteq> Panic"
  by (auto simp: split_outer_def Let_def)

lemma split_inner_not_Panic [simp]: "split_inner J inner \<noteq> Panic"
  by (auto simp: split_inner_def Let_def split: sum.split)

lemma split_inner_join:
  assumes "length meta < 2 ^ 32" "from_slice J meta = Inr v"
  shows "split_inner J (u32_be (len_u32 meta) @ meta @ content) = Ok (v, content)"
  using assms by (simp add: split_inner_def Let_def unat_len_u32_small)

section \<open>Seal and open again\<close>

interpretation route_seal: kem_dem "hybrid_encap P" "hybrid_decap P" "seal_pair P"
  "derive_wrap_key P" "gcm_encrypt P" "gcm_decrypt P" for P
  by (rule kem_dem_instance) (simp add: derive_wrap_key_def)

definition inner_bytes :: "serde \<Rightarrow> json \<Rightarrow> bytes \<Rightarrow> bytes" where
  "inner_bytes J inner_metadata content =
     u32_be (len_u32 (canonical J inner_metadata)) @ canonical J inner_metadata @ content"

lemma seal_routed_OkE:
  assumes "seal_routed P J meta content pk hdr w = (Ok blob, w')"
  obtains ct shared w1 nonce c where "length pk = 1216" "hybrid_encap P pk w = (Ok (ct, shared), w1)"
    "gcm_encrypt P (derive_wrap_key P shared (build_aad (canonical J hdr))) nonce
       (build_aad (canonical J hdr)) (inner_bytes J meta content) = Some c"
    "blob = u32_be (len_u32 (canonical J hdr)) @ canonical J hdr @ ct @ nonce @ c"
    "length nonce = 12"
  using assms unfolding seal_routed_def inner_bytes_def
  by (auto simp: Let_def dest: fill_bytes_length
      split: if_splits res.splits prod.splits option.splits)

lemma seal_routed_not_Panic: "fst (seal_routed P J meta content pk hdr w) \<noteq> Panic"
  using hybrid_encap_not_Panic [of P pk w]
  by (auto simp: seal_routed_def Let_def split: res.split prod.split option.split)

lemma open_routed_not_Panic: "open_routed P J blob sk \<noteq> Panic"
proof -
  have ok: "ok_or e x \<noteq> Panic" for e :: pqroute_error and x :: "bytes option" by (cases x) simp_all
  show ?thesis
    using hybrid_decap_not_Panic
    by (auto simp: open_routed_def Let_def and_then_eq_Panic ok split: if_splits sum.splits)
qed

lemma seal_routed_total:
  assumes "seal_pair P pk sk" "length (inner_bytes J meta content) < 2 ^ 32"
    "length (build_aad (canonical J hdr)) < 2 ^ 32"
  obtains blob w' where "seal_routed P J meta content pk hdr w = (Ok blob, w')"
proof -
  let ?aad = "build_aad (canonical J hdr)"
  obtain ct ss w1 where e: "hybrid_encap P pk w = (Ok (ct, ss), w1)"
    using dm_wrap.encap_total [OF assms(1)] by blast
  obtain n w2 where n: "fill_bytes 12 w1 = (n, w2)" by fastforce
  obtain c where "gcm_encrypt P (derive_wrap_key P ss ?aad) n ?aad (inner_bytes J meta content) = Some c"
    using route_seal.aead_total [OF assms(1) route_seal.kdf_size [OF assms(1)] fill_bytes_length [OF n]
        assms(2,3)] by blast
  with e n show ?thesis
    using that dm_wrap.keys_sizes [OF assms(1)] by (simp add: seal_routed_def Let_def inner_bytes_def)
qed

text \<open>
  What opening makes of an envelope whose sealed part is the sealed one and whose header bytes
  are any \<open>route\<close>.
\<close>

lemma open_routed_sealed:
  assumes pair: "seal_pair P pk sk" and sealed: "seal_routed P J meta content pk hdr w = (Ok blob, w')"
    and fits: "length (canonical J hdr) < 2 ^ 32"
  obtains shared sealed where
    "split_outer blob = Ok (canonical J hdr, sealed)"
    "length sealed = 1148 + length (inner_bytes J meta content)"
    "hybrid_decap P (blob_ct sealed) sk = Ok shared"
    "gcm_encrypt P (derive_wrap_key P shared (build_aad (canonical J hdr))) (blob_nonce sealed)
       (build_aad (canonical J hdr)) (inner_bytes J meta content) = Some (blob_body sealed)"
    "gcm_decrypt P (derive_wrap_key P shared (build_aad (canonical J hdr))) (blob_nonce sealed)
       (build_aad (canonical J hdr)) (blob_body sealed) = Some (inner_bytes J meta content)"
    "\<And>route v. length route < 2 ^ 32 \<Longrightarrow> from_slice J route = Inr v \<Longrightarrow>
       open_routed P J (u32_be (len_u32 route) @ route @ sealed) sk =
         and_then (ok_or (RouteOpen open_failed_text)
            (gcm_decrypt P (derive_wrap_key P shared (build_aad route)) (blob_nonce sealed)
               (build_aad route) (blob_body sealed)))
           (\<lambda>inner. and_then (split_inner J inner) (\<lambda>(m, c). Ok (v, m, c)))"
proof -
  obtain ct ss w1 n c where e: "hybrid_encap P pk w = (Ok (ct, ss), w1)" and n: "length n = 12"
    and c: "gcm_encrypt P (derive_wrap_key P ss (build_aad (canonical J hdr))) n
       (build_aad (canonical J hdr)) (inner_bytes J meta content) = Some c"
    and blob: "blob = u32_be (len_u32 (canonical J hdr)) @ canonical J hdr @ ct @ n @ c"
    using sealed by (rule seal_routed_OkE)
  note o = route_seal.sealed_opens [OF pair e n c]
  define sealed where "sealed = ct @ n @ c"
  note parts = o(1-3) [folded sealed_def]
  have blob': "blob = u32_be (len_u32 (canonical J hdr)) @ canonical J hdr @ sealed"
    by (simp add: blob sealed_def)
  show ?thesis
  proof (rule that)
    show "split_outer blob = Ok (canonical J hdr, sealed)" using split_outer_join [OF fits] by (simp add: blob')
    show len: "length sealed = 1148 + length (inner_bytes J meta content)" using o(6) by (simp add: sealed_def)
    show d: "hybrid_decap P (blob_ct sealed) sk = Ok ss" using o(4) by (simp add: parts)
    show "open_routed P J (u32_be (len_u32 route) @ route @ sealed) sk =
         and_then (ok_or (RouteOpen open_failed_text)
            (gcm_decrypt P (derive_wrap_key P ss (build_aad route)) (blob_nonce sealed)
               (build_aad route) (blob_body sealed)))
           (\<lambda>inner. and_then (split_inner J inner) (\<lambda>(m, c). Ok (v, m, c)))"
      if "length route < 2 ^ 32" "from_slice J route = Inr v" for route v
      using that len d by (simp add: open_routed_def Let_def split_outer_join)
  qed (use c o(5) in \<open>simp_all add: parts\<close>)
qed

lemma build_aad_inject [simp]: "build_aad x = build_aad y \<longleftrightarrow> x = y"
  by (simp add: build_aad_def)

text \<open>Sizes that fit the 32-bit prefixes and the AEAD, and values that JSON text preserves.\<close>

definition routable :: "serde \<Rightarrow> json \<Rightarrow> json \<Rightarrow> bytes \<Rightarrow> bool" where
  "routable J meta hdr content \<longleftrightarrow>
     json_plain meta \<and> json_depth meta \<le> 127 \<and> json_plain hdr \<and> json_depth hdr \<le> 127 \<and>
     length (canonical J hdr) + 9 < 2 ^ 32 \<and>
     length (canonical J meta) + length content + 4 < 2 ^ 32"

lemma routable_lengths:
  assumes "routable J meta hdr content"
  shows "length (build_aad (canonical J hdr)) < 2 ^ 32" "length (inner_bytes J meta content) < 2 ^ 32"
    "length (canonical J hdr) < 2 ^ 32" "length (canonical J meta) < 2 ^ 32"
  using assms by (simp_all add: routable_def build_aad_def ROUTE_SUITE_def inner_bytes_def)

lemma routed_opens:
  assumes pair: "seal_pair P pk sk" and "serde_laws J" "routable J meta hdr content"
  obtains blob w' where "seal_routed P J meta content pk hdr w = (Ok blob, w')"
    "read_route_header J blob = Ok hdr" "open_routed P J blob sk = Ok (hdr, meta, content)"
proof -
  note len = routable_lengths [OF assms(3)]
  have h: "from_slice J (canonical J hdr) = Inr hdr" and m: "from_slice J (canonical J meta) = Inr meta"
    using assms(2,3) by (simp_all add: routable_def serde_canonical)
  obtain blob w' where s: "seal_routed P J meta content pk hdr w = (Ok blob, w')"
    by (rule seal_routed_total [OF pair len(2,1)])
  obtain shared sealed where sp: "split_outer blob = Ok (canonical J hdr, sealed)"
    and d: "gcm_decrypt P (derive_wrap_key P shared (build_aad (canonical J hdr))) (blob_nonce sealed)
       (build_aad (canonical J hdr)) (blob_body sealed) = Some (inner_bytes J meta content)"
    and o: "\<And>route v. length route < 2 ^ 32 \<Longrightarrow> from_slice J route = Inr v \<Longrightarrow>
       open_routed P J (u32_be (len_u32 route) @ route @ sealed) sk =
         and_then (ok_or (RouteOpen open_failed_text)
            (gcm_decrypt P (derive_wrap_key P shared (build_aad route)) (blob_nonce sealed)
               (build_aad route) (blob_body sealed)))
           (\<lambda>inner. and_then (split_inner J inner) (\<lambda>(m, c). Ok (v, m, c)))"
    by (rule open_routed_sealed [OF pair s len(3)]) (rule that)
  have "read_route_header J blob = Ok hdr" using h by (simp add: read_route_header_def sp)
  moreover have "split_inner J (inner_bytes J meta content) = Ok (meta, content)"
    unfolding inner_bytes_def by (rule split_inner_join [OF len(4) m])
  then have "open_routed P J blob sk = Ok (hdr, meta, content)"
    using o [OF len(3) h] d split_outer_OkD(1) [OF sp] by simp
  ultimately show ?thesis using s that by blast
qed

end
