(* ===== verification/Json_Canonical.thy ===== *)
theory Json_Canonical
  imports Json "HOL-Library.Multiset"
begin

text \<open>
  What the canonical encoder promises: its output is printable ASCII, does not depend on the
  order in which an object lists its entries, and determines the value. The last is shown with
  a reader for canonical text, \<open>read_value\<close>, which takes the encoder's output back to the
  value; the reader also gives a concrete JSON library for the witnesses.
\<close>

section \<open>A reader for canonical text\<close>

definition hex_val :: "u8 \<Rightarrow> nat option" where
  "hex_val b =
     (if 48 \<le> unat b \<and> unat b \<le> 57 then Some (unat b - 48)
      else if 97 \<le> unat b \<and> unat b \<le> 102 then Some (unat b - 87) else None)"

fun read_hex4 :: "bytes \<Rightarrow> (nat \<times> bytes) option" where
  "read_hex4 (a # b # c # d # r) =
     (case (hex_val a, hex_val b, hex_val c, hex_val d) of
        (Some w, Some x, Some y, Some z) \<Rightarrow> Some (4096 * w + 256 * x + 16 * y + z, r)
      | _ \<Rightarrow> None)"
| "read_hex4 _ = None"

text \<open>A code unit after \<open>\u\<close>: a high surrogate must be followed by a low one.\<close>

definition read_unit :: "bytes \<Rightarrow> (nat \<times> bytes) option" where
  "read_unit bs =
     (case read_hex4 bs of
        None \<Rightarrow> None
      | Some (u, r) \<Rightarrow>
          if 0xD800 \<le> u \<and> u \<le> 0xDBFF then
            (if take 2 r = [0x5C, 0x75] then
               (case read_hex4 (drop 2 r) of
                  None \<Rightarrow> None
                | Some (l, r') \<Rightarrow> Some (0x10000 + (u - 0xD800) * 1024 + (l - 0xDC00), r'))
             else None)
          else Some (u, r))"

definition simple_escape :: "u8 \<Rightarrow> nat option" where
  "simple_escape e =
     (if e = 0x22 then Some 0x22 else if e = 0x5C then Some 0x5C
      else if e = 0x62 then Some 0x08 else if e = 0x74 then Some 0x09
      else if e = 0x6E then Some 0x0A else if e = 0x66 then Some 0x0C
      else if e = 0x72 then Some 0x0D else None)"

fun read_char :: "bytes \<Rightarrow> (nat \<times> bytes) option" where
  "read_char [] = None"
| "read_char (c # r) =
     (if c \<noteq> 0x5C then Some (unat c, r)
      else case r of
        [] \<Rightarrow> None
      | e # r' \<Rightarrow>
          if e = 0x75 then read_unit r' else map_option (\<lambda>x. (x, r')) (simple_escape e))"

text \<open>The characters up to the closing quote.\<close>

fun read_chars :: "nat \<Rightarrow> bytes \<Rightarrow> (rstr \<times> bytes) option" where
  "read_chars 0 bs = None"
| "read_chars (Suc n) bs =
     (if bs = [] then None
      else if hd bs = 0x22 then Some ([], tl bs)
      else case read_char bs of
        None \<Rightarrow> None
      | Some (c, r) \<Rightarrow> map_option (\<lambda>(s, r'). (c # s, r')) (read_chars n r))"

definition number_byte :: "u8 \<Rightarrow> bool" where
  "number_byte b \<longleftrightarrow> b = 45 \<or> is_digit (unat b)"

definition read_number :: "bytes \<Rightarrow> (json \<times> bytes) option" where
  "read_number bs =
     (let t = map unat (takeWhile number_byte bs); r = dropWhile number_byte bs
      in case t of
           [] \<Rightarrow> None
         | x # ds \<Rightarrow>
             if x = 45 then Some (JNum (NegInt (of_int (- int (undec ds)))), r)
             else map_option (\<lambda>n. (JNum (PosInt n), r)) (parse_u64 t))"

definition strip_bytes :: "bytes \<Rightarrow> bytes \<Rightarrow> bytes option" where
  "strip_bytes p bs = (if take (length p) bs = p then Some (drop (length p) bs) else None)"

definition next_is :: "u8 \<Rightarrow> bytes \<Rightarrow> bool" where
  "next_is b bs \<longleftrightarrow> bs \<noteq> [] \<and> hd bs = b"

text \<open>\<open>fuel\<close> bounds the recursion; more than the length of the text is always enough.\<close>

fun read_value :: "nat \<Rightarrow> bytes \<Rightarrow> (json \<times> bytes) option"
and read_elems :: "nat \<Rightarrow> bytes \<Rightarrow> (json list \<times> bytes) option"
and read_members :: "nat \<Rightarrow> bytes \<Rightarrow> ((rstr \<times> json) list \<times> bytes) option" where
  "read_value 0 bs = None"
| "read_value (Suc n) bs =
     (if next_is 0x6E bs then map_option (\<lambda>r. (JNull, r)) (strip_bytes (blit ''null'') bs)
      else if next_is 0x74 bs then map_option (\<lambda>r. (JBool True, r)) (strip_bytes (blit ''true'') bs)
      else if next_is 0x66 bs then map_option (\<lambda>r. (JBool False, r)) (strip_bytes (blit ''false'') bs)
      else if next_is 0x22 bs then map_option (\<lambda>(s, r). (JStr s, r)) (read_chars n (tl bs))
      else if next_is 0x5B bs then
        (if next_is 0x5D (tl bs) then Some (JArr [], tl (tl bs))
         else map_option (\<lambda>(vs, r). (JArr vs, r)) (read_elems n (tl bs)))
      else if next_is 0x7B bs then
        (if next_is 0x7D (tl bs) then Some (JObj [], tl (tl bs))
         else map_option (\<lambda>(kvs, r). (JObj kvs, r)) (read_members n (tl bs)))
      else read_number bs)"
| "read_elems 0 bs = None"
| "read_elems (Suc n) bs =
     (case read_value n bs of
        None \<Rightarrow> None
      | Some (v, r) \<Rightarrow>
          if next_is 0x2C r then map_option (\<lambda>(vs, r'). (v # vs, r')) (read_elems n (tl r))
          else if next_is 0x5D r then Some ([v], tl r) else None)"
| "read_members 0 bs = None"
| "read_members (Suc n) bs =
     (if \<not> next_is 0x22 bs then None
      else case read_chars n (tl bs) of
        None \<Rightarrow> None
      | Some (k, r) \<Rightarrow>
          if \<not> next_is 0x3A r then None
          else case read_value n (tl r) of
            None \<Rightarrow> None
          | Some (v, r') \<Rightarrow>
              if next_is 0x2C r' then
                map_option (\<lambda>(kvs, r''). ((k, v) # kvs, r'')) (read_members n (tl r'))
              else if next_is 0x7D r' then Some ([(k, v)], tl r') else None)"

section \<open>Characters\<close>

lemma next_is_Cons [simp]: "next_is b (c # r) \<longleftrightarrow> c = b"
  by (simp add: next_is_def)

lemma next_is_append: "xs \<noteq> [] \<Longrightarrow> next_is b (xs @ ys) = next_is b xs"
  by (simp add: next_is_def)

lemma HEX_bytes: "HEX = [48, 49, 50, 51, 52, 53, 54, 55, 56, 57, 97, 98, 99, 100, 101, 102]"
  by (simp add: HEX_def blit_def)

lemma hex_val_HEX: "k < 16 \<Longrightarrow> hex_val (HEX ! k) = Some k"
proof -
  have "map hex_val HEX = map Some [0..<16]" by (simp add: HEX_bytes hex_val_def upt_rec)
  then have "map hex_val HEX ! k = map Some [0..<16] ! k" by simp
  moreover have "length HEX = 16" by (simp add: HEX_bytes)
  ultimately show "k < 16 \<Longrightarrow> hex_val (HEX ! k) = Some k" by simp
qed

lemma unat_nibble: "unat (and (drop_bit k (c :: u32)) 0xF) = unat c div 2 ^ k mod 16"
proof -
  have "and (drop_bit k c) 0xF = take_bit 4 (drop_bit k c)"
    by (simp add: take_bit_eq_mask mask_eq_exp_minus_1)
  then have "unat (and (drop_bit k c) 0xF) = take_bit 4 (drop_bit k (unat c))"
    by (simp only: unsigned_take_bit_eq unat_drop_bit_eq)
  then show ?thesis by (simp only: take_bit_eq_mod drop_bit_eq_div) simp
qed

lemma push_u_escape_eq:
  "push_u_escape c = [0x5C, 0x75, HEX ! (unat c div 4096 mod 16), HEX ! (unat c div 256 mod 16),
     HEX ! (unat c div 16 mod 16), HEX ! (unat c mod 16)]"
  using unat_nibble [of 12 c] unat_nibble [of 8 c] unat_nibble [of 4 c] unat_nibble [of 0 c]
  by (simp add: push_u_escape_def blit_def)

lemma nibbles:
  fixes n :: nat
  shows "16 * q1 + r0 = n \<Longrightarrow> 16 * q2 + r1 = q1 \<Longrightarrow> 16 * q3 + r2 = q2 \<Longrightarrow>
    4096 * q3 + 256 * r2 + 16 * r1 + r0 = n"
  by simp

lemma hex_digits_sum:
  fixes n :: nat
  assumes "n < 65536"
  shows "4096 * (n div 4096 mod 16) + 256 * (n div 256 mod 16) + 16 * (n div 16 mod 16) + n mod 16 = n"
proof -
  have d: "n div 256 = n div 16 div 16" "n div 4096 = n div 16 div 16 div 16"
    using div_mult2_eq [of n 16 16] div_mult2_eq [of n "16 * 16" 16] by simp_all
  have t: "n div 4096 mod 16 = n div 4096" using assms by simp
  show ?thesis
    unfolding t unfolding d by (rule nibbles) (rule mult_div_mod_eq)+
qed

lemma read_hex4_digits:
  "a < 16 \<Longrightarrow> b < 16 \<Longrightarrow> c < 16 \<Longrightarrow> d < 16 \<Longrightarrow>
   read_hex4 (HEX ! a # HEX ! b # HEX ! c # HEX ! d # r) = Some (4096 * a + 256 * b + 16 * c + d, r)"
  by (simp add: hex_val_HEX)

lemma read_hex4_push:
  assumes "unat c < 65536"
  shows "push_u_escape c = [0x5C, 0x75] @ drop 2 (push_u_escape c)"
    "read_hex4 (drop 2 (push_u_escape c) @ r) = Some (unat c, r)"
proof -
  show "push_u_escape c = [0x5C, 0x75] @ drop 2 (push_u_escape c)"
    by (simp add: push_u_escape_eq)
  have "read_hex4 (drop 2 (push_u_escape c) @ r) =
      Some (4096 * (unat c div 4096 mod 16) + 256 * (unat c div 256 mod 16) +
        16 * (unat c div 16 mod 16) + unat c mod 16, r)"
    unfolding push_u_escape_eq
    using read_hex4_digits [of "unat c div 4096 mod 16" "unat c div 256 mod 16"
        "unat c div 16 mod 16" "unat c mod 16" r] by simp
  then show "read_hex4 (drop 2 (push_u_escape c) @ r) = Some (unat c, r)"
    by (simp only: hex_digits_sum [OF assms])
qed

lemma unat_u32_nat: "ch < 2 ^ 32 \<Longrightarrow> unat (of_nat ch :: u32) = ch"
  by (rule unat_of_nat_small) simp

lemma read_unit_bmp:
  assumes "unat c < 0xD800 \<or> (0xE000 \<le> unat c \<and> unat c < 0x10000)"
  shows "read_unit (drop 2 (push_u_escape c) @ r) = Some (unat c, r)"
proof -
  have "unat c < 65536" using assms by auto
  note h = read_hex4_push(2) [OF this, of r]
  show ?thesis using assms by (auto simp: read_unit_def h)
qed

lemma read_unit_pair:
  assumes "0xD800 \<le> unat hi" "unat hi \<le> 0xDBFF" "unat lo < 65536"
  shows "read_unit (drop 2 (push_u_escape hi) @ push_u_escape lo @ r) =
    Some (0x10000 + (unat hi - 0xD800) * 1024 + (unat lo - 0xDC00), r)"
proof -
  have "unat hi < 65536" using assms by simp
  note h = read_hex4_push(2) [OF this, of "push_u_escape lo @ r"]
  have l: "push_u_escape lo = [0x5C, 0x75] @ drop 2 (push_u_escape lo)"
    by (rule read_hex4_push(1) [OF assms(3)])
  have "take 2 (push_u_escape lo @ r) = [0x5C, 0x75]"
    "drop 2 (push_u_escape lo @ r) = drop 2 (push_u_escape lo) @ r"
    by (subst l, simp)+
  then show ?thesis
    using assms read_hex4_push(2) [OF assms(3), of r] by (simp add: read_unit_def h)
qed

lemma read_char_u: "read_char (0x5C # 0x75 # r) = read_unit r"
  by simp

text \<open>The surrogate pair of a character above \<open>0xFFFF\<close>.\<close>

lemma surrogates:
  assumes "0x10000 \<le> ch" "ch \<le> 0x10FFFF"
  shows "unat (0xD800 + drop_bit 10 (of_nat ch - 0x10000 :: u32)) = 0xD800 + (ch - 0x10000) div 1024"
    "unat (0xDC00 + and (of_nat ch - 0x10000) 0x3FF :: u32) = 0xDC00 + (ch - 0x10000) mod 1024"
proof -
  define m where "m = ch - 0x10000"
  have m: "m < 2 ^ 20" and ch: "ch = m + 0x10000" using assms by (simp_all add: m_def)
  have v: "of_nat ch - 0x10000 = (of_nat m :: u32)" by (simp add: ch)
  have um: "unat (of_nat m :: u32) = m" using m by (simp add: unat_u32_nat)
  have "unat (drop_bit 10 (of_nat m :: u32)) = m div 1024"
    by (simp only: unat_drop_bit_eq um) (simp add: drop_bit_eq_div)
  moreover have "unat (of_nat (m div 1024) :: u32) = m div 1024"
    by (rule unat_u32_nat) (use m in simp)
  ultimately have d: "drop_bit 10 (of_nat m :: u32) = of_nat (m div 1024)"
    by (simp only: word_unat_eq_iff)
  have a: "and (of_nat m) (0x3FF :: u32) = of_nat (m mod 1024)"
  proof -
    have "and (of_nat m) (0x3FF :: u32) = take_bit 10 (of_nat m)"
      by (simp add: take_bit_eq_mask mask_eq_exp_minus_1)
    also have "\<dots> = of_nat (take_bit 10 m)" by (simp add: take_bit_of_nat)
    finally show ?thesis by (simp add: take_bit_eq_mod)
  qed
  have "m div 1024 < 1024" using m by simp
  then show "unat (0xD800 + drop_bit 10 (of_nat ch - 0x10000 :: u32)) = 0xD800 + (ch - 0x10000) div 1024"
    unfolding v d m_def [symmetric]
    using unat_u32_nat [of "0xD800 + m div 1024"] by simp
  show "unat (0xDC00 + and (of_nat ch - 0x10000) 0x3FF :: u32) = 0xDC00 + (ch - 0x10000) mod 1024"
    unfolding v a m_def [symmetric]
    using unat_u32_nat [of "0xDC00 + m mod 1024"] by simp
qed

lemma u32_of_nat_le: "ch < 2 ^ 32 \<Longrightarrow> k < 2 ^ 32 \<Longrightarrow> (of_nat ch :: u32) \<le> of_nat k \<longleftrightarrow> ch \<le> k"
  by (simp add: word_le_nat_alt unat_u32_nat)

text \<open>\<open>escape_char\<close> by cases on the code point.\<close>

lemma escape_char_simple:
  "escape_char 0x22 = [0x5C, 0x22]" "escape_char 0x5C = [0x5C, 0x5C]" "escape_char 0x08 = [0x5C, 0x62]"
  "escape_char 0x09 = [0x5C, 0x74]" "escape_char 0x0A = [0x5C, 0x6E]" "escape_char 0x0C = [0x5C, 0x66]"
  "escape_char 0x0D = [0x5C, 0x72]"
  by (simp_all add: escape_char_def)

definition short_escaped :: "nat \<Rightarrow> bool" where
  "short_escaped ch \<longleftrightarrow> ch \<in> {0x22, 0x5C, 0x08, 0x09, 0x0A, 0x0C, 0x0D}"

lemma escape_char_printable:
  assumes "\<not> short_escaped ch" "0x20 \<le> ch" "ch \<le> 0x7E"
  shows "escape_char ch = [of_nat ch]"
proof -
  have "(0x20 :: u32) \<le> of_nat ch" "(of_nat ch :: u32) \<le> 0x7E"
    using assms u32_of_nat_le [of ch "0x7E"] u32_of_nat_le [of "0x20" ch] by simp_all
  moreover have "(ucast (of_nat ch :: u32) :: u8) = of_nat ch"
    using assms by (simp add: word_unat_eq_iff unat_of_nat unsigned_ucast_eq take_bit_eq_mod)
  ultimately show ?thesis using assms(1) by (simp add: escape_char_def short_escaped_def)
qed

lemma escape_char_bmp:
  assumes "\<not> short_escaped ch" "\<not> (0x20 \<le> ch \<and> ch \<le> 0x7E)" "ch \<le> 0xFFFF"
  shows "escape_char ch = push_u_escape (of_nat ch)"
proof -
  have "\<not> ((0x20 :: u32) \<le> of_nat ch \<and> (of_nat ch :: u32) \<le> 0x7E)" "(of_nat ch :: u32) \<le> 0xFFFF"
    using assms u32_of_nat_le [of ch "0x7E"] u32_of_nat_le [of "0x20" ch] u32_of_nat_le [of ch "0xFFFF"]
    by simp_all
  then show ?thesis using assms(1) by (auto simp: escape_char_def short_escaped_def Let_def)
qed

lemma escape_char_astral:
  assumes "0xFFFF < ch" "ch \<le> 0x10FFFF"
  shows "escape_char ch = push_u_escape (0xD800 + drop_bit 10 (of_nat ch - 0x10000)) @
    push_u_escape (0xDC00 + and (of_nat ch - 0x10000) 0x3FF)"
proof -
  have "\<not> (of_nat ch :: u32) \<le> 0x7E" "\<not> (of_nat ch :: u32) \<le> 0xFFFF"
    using assms u32_of_nat_le [of ch "0x7E"] u32_of_nat_le [of ch "0xFFFF"] by simp_all
  then show ?thesis using assms by (simp add: escape_char_def Let_def)
qed

lemma read_char_escape:
  assumes "scalar_value ch"
  shows "read_char (escape_char ch @ r) = Some (ch, r)"
proof -
  consider "short_escaped ch" | "\<not> short_escaped ch" "0x20 \<le> ch" "ch \<le> 0x7E"
    | "\<not> short_escaped ch" "\<not> (0x20 \<le> ch \<and> ch \<le> 0x7E)" "ch \<le> 0xFFFF" | "0xFFFF < ch" "ch \<le> 0x10FFFF"
    using assms by (fastforce simp: scalar_value_def)
  then show ?thesis
  proof cases
    case 1
    then show ?thesis
      by (auto simp: short_escaped_def escape_char_simple simple_escape_def)
  next
    case 2
    then have u: "unat (of_nat ch :: u8) = ch" by (simp add: unat_of_nat_small)
    moreover have "(of_nat ch :: u8) \<noteq> 0x5C"
      using 2(1) u by (auto simp: short_escaped_def word_unat_eq_iff)
    ultimately show ?thesis using escape_char_printable [OF 2] by simp
  next
    case 3
    have u: "unat (of_nat ch :: u32) = ch" using 3 by (simp add: unat_u32_nat)
    have "push_u_escape (of_nat ch) = [0x5C, 0x75] @ drop 2 (push_u_escape (of_nat ch))"
      by (rule read_hex4_push(1)) (use 3 u in simp)
    then have "read_char (escape_char ch @ r) = read_unit (drop 2 (push_u_escape (of_nat ch)) @ r)"
      unfolding escape_char_bmp [OF 3] by (metis append_Cons append_Nil read_char_u)
    also have "\<dots> = Some (unat (of_nat ch :: u32), r)"
      by (rule read_unit_bmp) (use 3 assms in \<open>auto simp: u scalar_value_def\<close>)
    finally show ?thesis by (simp add: u)
  next
    case 4
    let ?hi = "0xD800 + drop_bit 10 (of_nat ch - 0x10000) :: u32"
    let ?lo = "0xDC00 + and (of_nat ch - 0x10000) 0x3FF :: u32"
    have hl: "unat ?hi = 0xD800 + (ch - 0x10000) div 1024" "unat ?lo = 0xDC00 + (ch - 0x10000) mod 1024"
      using surrogates [of ch] 4 by simp_all
    have d: "(ch - 0x10000) div 1024 < 1024" using 4 by (simp add: less_mult_imp_div_less)
    have "push_u_escape ?hi = [0x5C, 0x75] @ drop 2 (push_u_escape ?hi)"
      by (rule read_hex4_push(1)) (use hl(1) d in simp)
    then have "read_char (escape_char ch @ r) =
        read_unit (drop 2 (push_u_escape ?hi) @ push_u_escape ?lo @ r)"
      unfolding escape_char_astral [OF 4] by (metis append_Cons append_Nil append_assoc read_char_u)
    also have "\<dots> = Some (0x10000 + (unat ?hi - 0xD800) * 1024 + (unat ?lo - 0xDC00), r)"
      by (rule read_unit_pair) (use hl d in simp_all)
    also have "0x10000 + (unat ?hi - 0xD800) * 1024 + (unat ?lo - 0xDC00) = ch"
      using 4 unfolding hl by simp
    finally show ?thesis .
  qed
qed

section \<open>Printable output\<close>

definition printable :: "u8 \<Rightarrow> bool" where
  "printable b \<longleftrightarrow> 0x20 \<le> unat b \<and> unat b \<le> 0x7E"

lemma HEX_printable: "k < 16 \<Longrightarrow> printable (HEX ! k)"
proof -
  have "list_all printable HEX" by (simp add: HEX_bytes printable_def)
  moreover have "length HEX = 16" by (simp add: HEX_bytes)
  ultimately show "k < 16 \<Longrightarrow> printable (HEX ! k)" by (simp add: list_all_length)
qed

lemma push_u_printable: "list_all printable (push_u_escape c)"
  unfolding push_u_escape_eq by (simp add: HEX_printable) (simp add: printable_def)

lemma escape_char_all_printable: "list_all printable (escape_char ch)"
proof -
  have "printable (ucast c)" if "(0x20 :: u32) \<le> c" "c \<le> 0x7E" for c
  proof -
    have "0x20 \<le> unat c" "unat c \<le> 0x7E" using that by (simp_all add: word_le_nat_alt)
    then show ?thesis by (simp add: printable_def unsigned_ucast_eq take_bit_eq_mod)
  qed
  then show ?thesis
    by (auto simp: escape_char_def Let_def push_u_printable) (simp_all add: printable_def)
qed

lemma escape_char_head:
  assumes "scalar_value ch"
  shows "escape_char ch \<noteq> []" "hd (escape_char ch) \<noteq> 0x22"
proof -
  have "escape_char ch \<noteq> [] \<and> hd (escape_char ch) \<noteq> 0x22"
  proof (cases "short_escaped ch")
    case True
    then show ?thesis by (auto simp: short_escaped_def escape_char_simple)
  next
    case False
    consider "0x20 \<le> ch" "ch \<le> 0x7E" | "\<not> (0x20 \<le> ch \<and> ch \<le> 0x7E)" "ch \<le> 0xFFFF"
      | "0xFFFF < ch" "ch \<le> 0x10FFFF"
      using assms by (fastforce simp: scalar_value_def)
    then show ?thesis
    proof cases
      case 1
      then have "(of_nat ch :: u8) \<noteq> 0x22"
        using False by (auto simp: word_unat_eq_iff short_escaped_def unat_of_nat_small)
      then show ?thesis using escape_char_printable [OF False 1] by simp
    next
      case 2
      then show ?thesis using escape_char_bmp [OF False 2] by (simp add: push_u_escape_eq)
    next
      case 3
      then show ?thesis using escape_char_astral [OF 3] by (simp add: push_u_escape_eq)
    qed
  qed
  then show "escape_char ch \<noteq> []" "hd (escape_char ch) \<noteq> 0x22" by auto
qed

section \<open>Reading back strings, numbers and values\<close>

lemma read_chars_escape:
  assumes "valid_str s" "length (concat (map escape_char s)) < n"
  shows "read_chars n (concat (map escape_char s) @ 0x22 # r) = Some (s, r)"
  using assms
proof (induction s arbitrary: n)
  case Nil
  then show ?case by (cases n) simp_all
next
  case (Cons ch s)
  have ch: "scalar_value ch" and s: "valid_str s" using Cons.prems by (simp_all add: valid_str_def)
  obtain m where n: "n = Suc m" using Cons.prems by (cases n) simp_all
  note e = escape_char_head [OF ch]
  have m: "length (concat (map escape_char s)) < m"
    using Cons.prems(2) e(1) by (cases "escape_char ch") (simp_all add: n)
  have "read_char (escape_char ch @ concat (map escape_char s) @ 0x22 # r) =
      Some (ch, concat (map escape_char s) @ 0x22 # r)"
    by (rule read_char_escape [OF ch])
  then show ?case using e Cons.IH [OF s m] by (simp add: n)
qed

text \<open>What follows a value in canonical text does not continue a number.\<close>

definition ends_value :: "bytes \<Rightarrow> bool" where
  "ends_value r \<longleftrightarrow> (r = [] \<or> \<not> number_byte (hd r))"

lemma number_span:
  assumes "list_all number_byte t" "ends_value r"
  shows "takeWhile number_byte (t @ r) = t" "dropWhile number_byte (t @ r) = r"
  using assms by (cases r; simp add: list_all_iff ends_value_def takeWhile_append2 dropWhile_append2)+

lemma digit_bytes:
  assumes "list_all is_digit s"
  shows "map unat (map of_nat s :: bytes) = s" "list_all number_byte (map of_nat s)"
proof -
  have u: "unat (of_nat c :: u8) = c" if "is_digit c" for c
    using that by (intro unat_of_nat_small) (simp add: is_digit_def)
  show "map unat (map of_nat s :: bytes) = s"
    using assms by (induction s) (simp_all add: u)
  show "list_all number_byte (map of_nat s)"
    using assms by (induction s) (simp_all add: u number_byte_def)
qed

lemma digits_no_minus: "list_all is_digit (x # ds) \<Longrightarrow> x \<noteq> 45"
  by (auto simp: is_digit_def)

lemma read_number_pos:
  assumes "ends_value r"
  shows "read_number (map of_nat (dec (unat n)) @ r) = Some (JNum (PosInt n), r)"
proof -
  note d = digit_bytes [OF dec_digits [of "unat n"]]
  obtain x ds where x: "dec (unat n) = x # ds" by (cases "dec (unat n)") simp_all
  then have "x \<noteq> 45" using dec_digits [of "unat n"] digits_no_minus by metis
  then show ?thesis
    using number_span [OF d(2) assms] d(1) x parse_u64_dec [of n] by (simp add: read_number_def Let_def)
qed

lemma read_number_neg:
  assumes "ends_value r" "sint i < 0"
  shows "read_number (map of_nat (45 # dec (nat (- sint i))) @ r) = Some (JNum (NegInt i), r)"
proof -
  let ?k = "nat (- sint i)"
  note d = digit_bytes [OF dec_digits [of ?k]]
  have "list_all number_byte (map of_nat (45 # dec ?k))" using d(2) by (simp add: number_byte_def)
  note sp = number_span [OF this assms(1)]
  have i: "(of_int (- int (undec (dec ?k))) :: u64) = i" using assms(2) by simp
  have "read_number (map of_nat (45 # dec ?k) @ r) =
      Some (JNum (NegInt (of_int (- int (undec (dec ?k))))), r)"
    unfolding read_number_def sp Let_def using d(1) by (simp del: undec_dec of_int_minus)
  then show ?thesis by (simp only: i)
qed

text \<open>The first byte of a value's text tells what kind of value follows.\<close>

lemma number_head:
  assumes "json_plain (JNum n)"
  obtains x xs where "map of_nat (number_text J n) = x # xs" "number_byte x"
proof (cases n)
  case (PosInt k)
  obtain x xs where x: "dec (unat k) = x # xs" by (cases "dec (unat k)") simp_all
  then show ?thesis
    using that PosInt digit_bytes(2) [OF dec_digits [of "unat k"]] by simp
next
  case (NegInt i)
  then show ?thesis using that by (simp add: number_byte_def)
next
  case (Float x)
  then show ?thesis using assms by simp
qed

lemma number_byte_next:
  assumes "number_byte x"
  shows "\<not> next_is 0x6E (x # xs)" "\<not> next_is 0x74 (x # xs)" "\<not> next_is 0x66 (x # xs)"
    "\<not> next_is 0x22 (x # xs)" "\<not> next_is 0x5B (x # xs)" "\<not> next_is 0x7B (x # xs)"
    "\<not> next_is 0x5D (x # xs)"
  using assms by (auto simp: number_byte_def is_digit_def)

text \<open>With its keys in increasing order an object is printed entry by entry.\<close>

lemma canonical_object:
  assumes "sorted_wrt (<) (map fst kvs)"
  shows "canonical J (JObj kvs) =
    [0x7B] @ comma_join (map (\<lambda>(k, v). encode_string_ascii k @ [0x3A] @ canonical J v) kvs) @ [0x7D]"
proof -
  have "map_of kvs k = Some v" if "(k, v) \<in> set kvs" for k v
    using that sorted_distinct_keys [OF assms] by simp
  then have "map (\<lambda>k. encode_string_ascii k @ [0x3A] @ canonical J (the (map_of kvs k))) (map fst kvs) =
      map (\<lambda>(k, v). encode_string_ascii k @ [0x3A] @ canonical J v) kvs"
    by (auto simp: comp_def)
  then show ?thesis by (simp only: canonical.simps sort_sorted_keys [OF assms])
qed

definition reads_back :: "serde \<Rightarrow> json \<Rightarrow> bool" where
  "reads_back J v \<longleftrightarrow>
     (\<forall>n r. ends_value r \<longrightarrow> length (canonical J v) < n \<longrightarrow>
        read_value n (canonical J v @ r) = Some (v, r))"

lemma reads_backD:
  "reads_back J v \<Longrightarrow> ends_value r \<Longrightarrow> length (canonical J v) < n \<Longrightarrow>
   read_value n (canonical J v @ r) = Some (v, r)"
  by (simp add: reads_back_def)

lemma ends_value_simps [simp]:
  "ends_value []" "ends_value (0x2C # r)" "ends_value (0x5D # r)" "ends_value (0x7D # r)"
  by (simp_all add: ends_value_def number_byte_def is_digit_def)

lemma canonical_head:
  assumes "json_plain v"
  obtains x xs where "canonical J v = x # xs" "x \<noteq> 0x5D"
proof (cases v)
  case (JNum n)
  then obtain x xs where "canonical J v = x # xs" "number_byte x"
    using assms number_head [of n J] by auto
  moreover from this(2) have "x \<noteq> 0x5D" by (auto simp: number_byte_def is_digit_def)
  ultimately show ?thesis using that by blast
next
  case (JBool b)
  then show ?thesis using that by (cases b) (auto simp: blit_def)
qed (use that in \<open>auto simp: blit_def encode_string_ascii_def\<close>)

lemma read_elems_join:
  assumes "arr \<noteq> []" "\<forall>v \<in> set arr. reads_back J v"
    "Suc (length (comma_join (map (canonical J) arr))) < n"
  shows "read_elems n (comma_join (map (canonical J) arr) @ 0x5D # r) = Some (arr, r)"
  using assms
proof (induction arr arbitrary: n)
  case (Cons v arr)
  obtain m where n: "n = Suc m" using Cons.prems(3) by (cases n) simp_all
  have v: "reads_back J v" using Cons.prems(2) by simp
  show ?case
  proof (cases arr)
    case Nil
    then show ?thesis using reads_backD [OF v, of "0x5D # r" m] Cons.prems(3) by (simp add: n)
  next
    case (Cons v' arr')
    let ?t = "comma_join (map (canonical J) arr)"
    have j: "comma_join (map (canonical J) (v # arr)) = canonical J v @ 0x2C # ?t" by (simp add: Cons)
    have "read_value m (canonical J v @ 0x2C # ?t @ 0x5D # r) = Some (v, 0x2C # ?t @ 0x5D # r)"
      by (rule reads_backD [OF v]) (use Cons.prems(3) n j in simp_all)
    moreover have "read_elems m (?t @ 0x5D # r) = Some (arr, r)"
      by (rule Cons.IH) (use Cons.prems n j Cons in simp_all)
    ultimately show ?thesis unfolding j by (simp add: n)
  qed
qed simp

definition member_text :: "serde \<Rightarrow> rstr \<times> json \<Rightarrow> bytes" where
  "member_text J kv = encode_string_ascii (fst kv) @ [0x3A] @ canonical J (snd kv)"

lemma read_member:
  assumes "valid_str k" "reads_back J v" "ends_value r" "length (member_text J (k, v)) \<le> m"
  obtains t where "member_text J (k, v) = 0x22 # t"
    "read_chars m (t @ r) = Some (k, 0x3A # canonical J v @ r)"
    "read_value m (canonical J v @ r) = Some (v, r)"
proof -
  let ?e = "concat (map escape_char k)"
  have len: "length ?e < m" "length (canonical J v) < m"
    using assms(4) by (simp_all add: member_text_def encode_string_ascii_def)
  show ?thesis
  proof (rule that)
    show "member_text J (k, v) = 0x22 # ?e @ 0x22 # 0x3A # canonical J v"
      by (simp add: member_text_def encode_string_ascii_def)
    show "read_chars m ((?e @ 0x22 # 0x3A # canonical J v) @ r) = Some (k, 0x3A # canonical J v @ r)"
      using read_chars_escape [OF assms(1) len(1), of "0x3A # canonical J v @ r"] by simp
    show "read_value m (canonical J v @ r) = Some (v, r)"
      by (rule reads_backD [OF assms(2,3) len(2)])
  qed
qed

lemma read_members_join:
  assumes "kvs \<noteq> []" "\<forall>(k, v) \<in> set kvs. valid_str k \<and> reads_back J v"
    "Suc (length (comma_join (map (member_text J) kvs))) < n"
  shows "read_members n (comma_join (map (member_text J) kvs) @ 0x7D # r) = Some (kvs, r)"
  using assms
proof (induction kvs arbitrary: n)
  case (Cons kv kvs)
  obtain k v where kv: "kv = (k, v)" by fastforce
  obtain m where n: "n = Suc m" using Cons.prems(3) by (cases n) simp_all
  have k: "valid_str k" and v: "reads_back J v" using Cons.prems(2) by (simp_all add: kv)
  show ?case
  proof (cases kvs)
    case Nil
    have "length (member_text J (k, v)) \<le> m" using Cons.prems(3) by (simp add: n kv Nil)
    from read_member [OF k v _ this, of "0x7D # r"] obtain t where t:
      "member_text J (k, v) = 0x22 # t" "read_chars m (t @ 0x7D # r) = Some (k, 0x3A # canonical J v @ 0x7D # r)"
      "read_value m (canonical J v @ 0x7D # r) = Some (v, 0x7D # r)" by auto
    then show ?thesis by (simp add: n kv Nil)
  next
    case (Cons kv' kvs')
    let ?t = "comma_join (map (member_text J) kvs)"
    let ?r = "0x2C # ?t @ 0x7D # r"
    have j: "comma_join (map (member_text J) (kv # kvs)) = member_text J (k, v) @ 0x2C # ?t"
      by (simp add: Cons kv)
    have "length (member_text J (k, v)) \<le> m" using Cons.prems(3) unfolding j by (simp add: n)
    from read_member [OF k v _ this, of ?r] obtain t where t:
      "member_text J (k, v) = 0x22 # t" "read_chars m (t @ ?r) = Some (k, 0x3A # canonical J v @ ?r)"
      "read_value m (canonical J v @ ?r) = Some (v, ?r)" by auto
    moreover have "read_members m (?t @ 0x7D # r) = Some (kvs, r)"
      by (rule Cons.IH) (use Cons.prems n j Cons in simp_all)
    ultimately show ?thesis unfolding j by (simp add: n kv)
  qed
qed simp

lemma reads_backI:
  assumes "\<And>m r. ends_value r \<Longrightarrow> length (canonical J v) \<le> m \<Longrightarrow>
    read_value (Suc m) (canonical J v @ r) = Some (v, r)"
  shows "reads_back J v"
  unfolding reads_back_def
proof (intro allI impI)
  fix n r
  assume "ends_value r" "length (canonical J v) < n"
  then show "read_value n (canonical J v @ r) = Some (v, r)"
    using assms by (cases n) simp_all
qed

lemma reads_back_number:
  assumes "json_plain (JNum num)"
  shows "reads_back J (JNum num)"
proof (rule reads_backI)
  fix m r
  assume r: "ends_value r"
  obtain x xs where x: "map of_nat (number_text J num) = x # xs" "number_byte x"
    using assms by (rule number_head)
  have "read_value (Suc m) (canonical J (JNum num) @ r) =
      read_number (map of_nat (number_text J num) @ r)"
    using number_byte_next [OF x(2), of "xs @ r"] unfolding canonical.simps x(1) by simp
  also have "\<dots> = Some (JNum num, r)"
    using assms read_number_pos [OF r] read_number_neg [OF r] by (cases num) simp_all
  finally show "read_value (Suc m) (canonical J (JNum num) @ r) = Some (JNum num, r)" .
qed

lemma reads_back_string:
  assumes "valid_str s"
  shows "reads_back J (JStr s)"
proof (rule reads_backI)
  fix m r
  assume "length (canonical J (JStr s)) \<le> m"
  then have "length (concat (map escape_char s)) < m" by (simp add: encode_string_ascii_def)
  then show "read_value (Suc m) (canonical J (JStr s) @ r) = Some (JStr s, r)"
    using read_chars_escape [OF assms, of m r] by (simp add: encode_string_ascii_def)
qed

lemma reads_back_array:
  assumes parts: "\<forall>v \<in> set arr. json_plain v \<and> reads_back J v"
  shows "reads_back J (JArr arr)"
proof (rule reads_backI)
  fix m r
  assume m: "length (canonical J (JArr arr)) \<le> m"
  show "read_value (Suc m) (canonical J (JArr arr) @ r) = Some (JArr arr, r)"
  proof (cases arr)
    case (Cons v arr')
    let ?t = "comma_join (map (canonical J) arr)"
    have "json_plain v" using parts Cons by simp
    then obtain x xs where x: "canonical J v = x # xs" "x \<noteq> 0x5D" by (rule canonical_head)
    then obtain ts where "?t = x # ts" using Cons by (cases arr') simp_all
    then have "\<not> next_is 0x5D (?t @ 0x5D # r)" using x(2) by simp
    moreover have "read_elems m (?t @ 0x5D # r) = Some (arr, r)"
      by (rule read_elems_join) (use Cons parts m in simp_all)
    ultimately show ?thesis by simp
  qed simp
qed

lemma canonical_members:
  assumes "sorted_wrt (<) (map fst kvs)"
  shows "canonical J (JObj kvs) = 0x7B # comma_join (map (member_text J) kvs) @ [0x7D]"
proof -
  have "member_text J = (\<lambda>(k, v). encode_string_ascii k @ [0x3A] @ canonical J v)"
    by (rule ext) (simp add: member_text_def split: prod.split)
  then show ?thesis unfolding canonical_object [OF assms] by (simp only: append_Cons append_Nil)
qed

lemma reads_back_object:
  assumes sorted: "sorted_wrt (<) (map fst kvs)"
    and parts: "\<forall>(k, v) \<in> set kvs. valid_str k \<and> reads_back J v"
  shows "reads_back J (JObj kvs)"
proof (rule reads_backI)
  fix m r
  assume m: "length (canonical J (JObj kvs)) \<le> m"
  note c = canonical_members [OF sorted, of J]
  let ?t = "comma_join (map (member_text J) kvs)"
  show "read_value (Suc m) (canonical J (JObj kvs) @ r) = Some (JObj kvs, r)"
  proof (cases kvs)
    case (Cons kv kvs')
    obtain ts where "?t = 0x22 # ts"
      using Cons by (cases kvs') (simp_all add: member_text_def encode_string_ascii_def)
    then have "\<not> next_is 0x7D (?t @ 0x7D # r)" by simp
    moreover have "read_members m (?t @ 0x7D # r) = Some (kvs, r)"
      by (rule read_members_join) (use Cons parts m c in simp_all)
    ultimately show ?thesis unfolding c by simp
  qed simp
qed

lemma canonical_reads_back: "json_plain v \<Longrightarrow> reads_back J v"
proof (induction J v rule: canonical.induct)
  case (1 J)
  show ?case by (rule reads_backI) (simp add: blit_def strip_bytes_def)
next
  case (2 J b)
  show ?case by (rule reads_backI, cases b) (simp_all add: blit_def strip_bytes_def)
next
  case (3 J num)
  then show ?case by (rule reads_back_number)
next
  case (4 J s)
  then show ?case by (simp add: reads_back_string)
next
  case (5 J arr)
  then show ?case by (intro reads_back_array) (simp add: list_all_iff)
next
  case (6 J kvs)
  have sorted: "sorted_wrt (<) (map fst kvs)" using 6 by simp
  have "valid_str k \<and> reads_back J v" if kv: "(k, v) \<in> set kvs" for k v
  proof -
    have k: "k \<in> set (sort (map fst kvs))" using kv by force
    have "json_plain v" "valid_str k" using 6(2) kv by (auto simp: list_all_iff)
    moreover have "the (map_of kvs k) = v" using kv sorted_distinct_keys [OF sorted] by simp
    ultimately show ?thesis using 6(1) [OF k] by simp
  qed
  then show ?case by (intro reads_back_object [OF sorted]) blast
qed

text \<open>Reading a whole text.\<close>

definition read_json :: "bytes \<Rightarrow> rstr + json" where
  "read_json bs =
     (case read_value (Suc (length bs)) bs of
        Some (v, []) \<Rightarrow> Inr v
      | _ \<Rightarrow> Inl (lit ''not canonical JSON''))"

lemma read_json_canonical:
  assumes "json_plain v"
  shows "read_json (canonical J v) = Inr v"
proof -
  have "read_value (Suc (length (canonical J v))) (canonical J v @ []) = Some (v, [])"
    by (rule reads_backD [OF canonical_reads_back [OF assms]]) simp_all
  then show ?thesis by (simp add: read_json_def)
qed

lemma canonical_plain_inject:
  "json_plain v \<Longrightarrow> json_plain v' \<Longrightarrow> canonical J v = canonical J v' \<Longrightarrow> v = v'"
  by (metis read_json_canonical sum.inject(2))

section \<open>The order of entries does not matter\<close>

text \<open>A value with every object's entries in increasing order of their keys.\<close>

fun json_sort :: "json \<Rightarrow> json" where
  "json_sort (JArr arr) = JArr (map json_sort arr)"
| "json_sort (JObj kvs) = JObj (sort_key fst (map (\<lambda>(k, v). (k, json_sort v)) kvs))"
| "json_sort v = v"

text \<open>Values as \<open>json_plain\<close>, but with the entries of an object in any order.\<close>

fun json_proper :: "json \<Rightarrow> bool" where
  "json_proper (JArr arr) = list_all json_proper arr"
| "json_proper (JObj kvs) =
     (distinct (map fst kvs) \<and> list_all valid_str (map fst kvs) \<and>
      list_all (\<lambda>(k, v). json_proper v) kvs)"
| "json_proper v = json_plain v"

lemma map_fst_sort_key: "map fst (sort_key fst kvs) = sort (map fst (kvs :: ('k::linorder \<times> 'v) list))"
  by (rule properties_for_sort [symmetric]) (simp_all del: sorted_map)

lemma map_of_sort_key:
  assumes "distinct (map fst kvs)"
  shows "map_of (sort_key fst kvs) = map_of (kvs :: ('k::linorder \<times> 'v) list)"
proof (rule map_of_inject_set [THEN iffD2])
  have "mset (map fst (sort_key fst kvs)) = mset (map fst kvs)" by simp
  then show "distinct (map fst (sort_key fst kvs))"
    using assms by (metis mset_eq_imp_distinct_iff)
qed (use assms in simp_all)

lemma map_of_json_sort:
  "map_of (map (\<lambda>(k, v). (k, json_sort v)) kvs) k = map_option json_sort (map_of kvs k)"
  by (induction kvs) auto

lemma map_fst_json_sort: "map fst (map (\<lambda>(k, v). (k, json_sort v)) kvs) = map fst kvs"
  by (simp add: comp_def case_prod_beta)

lemma canonical_json_sort: "json_proper v \<Longrightarrow> canonical J (json_sort v) = canonical J v"
proof (induction J v rule: canonical.induct)
  case (5 J arr)
  then have "map (canonical J) (map json_sort arr) = map (canonical J) arr"
    by (simp add: list_all_iff)
  then show ?case by (simp only: json_sort.simps canonical.simps)
next
  case (6 J kvs)
  let ?m = "map (\<lambda>(k, v). (k, json_sort v)) kvs"
  have d: "distinct (map fst ?m)" using 6 unfolding map_fst_json_sort by simp
  have keys: "sort (map fst (sort_key fst ?m)) = sort (map fst kvs)"
    unfolding map_fst_sort_key map_fst_json_sort by (simp add: sort_key_id_if_sorted)
  have "canonical J (the (map_of (sort_key fst ?m) k)) = canonical J (the (map_of kvs k))"
    if k: "k \<in> set (sort (map fst kvs))" for k
  proof -
    obtain v where v: "map_of kvs k = Some v" using k by (auto dest!: weak_map_of_SomeI)
    then have "json_proper v" using 6(2) by (auto simp: list_all_iff dest: map_of_SomeD)
    then have "canonical J (json_sort v) = canonical J v" using 6(1) [OF k] v by simp
    then show ?thesis using v by (simp add: map_of_sort_key [OF d] map_of_json_sort)
  qed
  then have "map (\<lambda>k. encode_string_ascii k @ [0x3A] @ canonical J (the (map_of (sort_key fst ?m) k)))
      (sort (map fst kvs)) =
    map (\<lambda>k. encode_string_ascii k @ [0x3A] @ canonical J (the (map_of kvs k))) (sort (map fst kvs))"
    by simp
  then show ?case by (simp only: json_sort.simps canonical.simps keys)
qed simp_all

lemma json_sort_plain: "json_proper v \<Longrightarrow> json_plain (json_sort v)"
proof (induction v rule: json_sort.induct)
  case (1 arr)
  then show ?case by (simp add: list_all_iff)
next
  case (2 kvs)
  let ?m = "map (\<lambda>(k, v). (k, json_sort v)) kvs"
  have keys: "map fst (sort_key fst ?m) = sort (map fst kvs)"
    unfolding map_fst_sort_key map_fst_json_sort ..
  have "sorted_wrt (<) (sort (map fst kvs))" using 2 by (simp add: strict_sorted_iff)
  moreover have "list_all valid_str (sort (map fst kvs))" using 2 by (simp add: list_all_iff)
  moreover have "list_all (\<lambda>(k, v). json_plain v) (sort_key fst ?m)"
    using 2 by (auto simp: list_all_iff)
  ultimately show ?case unfolding json_sort.simps json_plain.simps keys by blast
qed simp_all

lemma canonical_eq_iff:
  assumes "json_proper v" "json_proper v'"
  shows "canonical J v = canonical J v' \<longleftrightarrow> json_sort v = json_sort v'"
  using canonical_plain_inject [OF json_sort_plain [OF assms(1)] json_sort_plain [OF assms(2)], of J]
    canonical_json_sort [OF assms(1), of J] canonical_json_sort [OF assms(2), of J] by metis

lemma json_sort_permute:
  assumes "distinct (map fst kvs)" "mset kvs = mset kvs'"
  shows "json_sort (JObj kvs) = json_sort (JObj kvs')"
proof -
  let ?f = "\<lambda>(k, v). (k, json_sort v)"
  have "sort_key fst (map ?f kvs) = sort_key fst (map ?f kvs')"
  proof (rule sort_key_inj_key_eq)
    show "mset (map ?f kvs) = mset (sort_key fst (map ?f kvs'))" using assms(2) by simp
    have "distinct (map fst (map ?f kvs))" using assms(1) unfolding map_fst_json_sort .
    then show "inj_on fst (set (map ?f kvs))" by (simp only: distinct_map)
  qed (rule sorted_sort_key)
  then show ?thesis by simp
qed

section \<open>The output is printable ASCII\<close>

lemma printable_marks [simp]:
  "printable 0x22" "printable 0x2C" "printable 45" "printable 0x3A" "printable 0x5B" "printable 0x5D"
  "printable 0x7B" "printable 0x7D"
  by (simp_all add: printable_def)

lemma digits_printable: "list_all is_digit s \<Longrightarrow> list_all printable (map of_nat s)"
proof (induction s)
  case (Cons c s)
  then have "unat (of_nat c :: u8) = c" by (intro unat_of_nat_small) (simp add: is_digit_def)
  then show ?case using Cons by (simp add: printable_def is_digit_def)
qed simp

lemma comma_join_printable:
  "list_all (list_all printable) ts \<Longrightarrow> list_all printable (comma_join ts)"
  by (induction ts rule: comma_join.induct) simp_all

lemma encode_string_printable: "list_all printable (encode_string_ascii s)"
proof -
  have "list_all printable (concat (map escape_char s))"
    using escape_char_all_printable by (auto simp: list_all_iff)
  then show ?thesis by (simp add: encode_string_ascii_def)
qed

lemma canonical_printable: "json_proper v \<Longrightarrow> list_all printable (canonical J v)"
proof (induction J v rule: canonical.induct)
  case (3 J num)
  then show ?case using digits_printable [OF dec_digits] by (cases num) simp_all
next
  case (5 J arr)
  then have "list_all (list_all printable) (map (canonical J) arr)" by (simp add: list_all_iff)
  then show ?case using comma_join_printable by simp
next
  case (6 J kvs)
  have "list_all printable (canonical J (the (map_of kvs k)))" if k: "k \<in> set (sort (map fst kvs))" for k
  proof -
    obtain v where v: "map_of kvs k = Some v" using k by (auto dest!: weak_map_of_SomeI)
    then have "json_proper v" using 6(2) by (auto simp: list_all_iff dest: map_of_SomeD)
    then show ?thesis using 6(1) [OF k] v by simp
  qed
  then have "list_all (list_all printable)
      (map (\<lambda>k. encode_string_ascii k @ [0x3A] @ canonical J (the (map_of kvs k))) (sort (map fst kvs)))"
    using encode_string_printable by (auto simp: list_all_iff)
  then show ?case using comma_join_printable by simp
qed (auto simp: blit_def printable_def encode_string_printable)

section \<open>A concrete JSON library\<close>

definition sample_float_text :: "f64 \<Rightarrow> rstr" where
  "sample_float_text x = lit ''0.0''"

definition sample_serde :: serde where
  "sample_serde = \<lparr>float_text = sample_float_text, from_slice = read_json,
     to_vec = canonical \<lparr>float_text = sample_float_text, from_slice = read_json, to_vec = \<lambda>v. []\<rparr>\<rparr>"

lemma sample_serde_laws: "serde_laws sample_serde"
  by (simp add: serde_laws_def sample_serde_def read_json_canonical)

end
