(* ===== verification/Envelope_Correct.thy ===== *)
theory Envelope_Correct
  imports Pqdm Pqroute Json_Canonical Keys_Correct
begin

text \<open>
  Correctness of the two envelope formats: hybrid message sealing with its downgrade lock, and
  the routing envelope with its canonical header. Where a property rests on the AEAD rejecting
  what was not sealed, it is stated as a reduction: the outcome is the AEAD's answer on the blob's
  own nonce and body, under the secret that the blob's own ciphertext decapsulates to.
\<close>

section \<open>Hybrid message sealing\<close>

text \<open>
  C24: sealing a message below the AEAD limit to a generated public key succeeds with
  \<open>1148\<close> bytes more than the message, and opening it with the private key, the same parties
  and the hybrid suite gives the message back.
\<close>
theorem pqdm_roundtrip:
  assumes "prims_laws P" "hybrid_keypair P w0 = (kp, w1)" "length pt < 2 ^ 32"
    and "length (downgrade_lock_aad J HYBRID_SUITE sender recipient None) < 2 ^ 32"
  shows "\<exists>blob w'. seal P J pt (public_key kp) sender recipient w = (Ok blob, w') \<and>
    length blob = 1148 + length pt \<and>
    open_sealed P J dbg blob (private_key kp) sender recipient HYBRID_SUITE = Ok pt"
  by (rule pqdm_opens [OF hybrid_keypair_seal_pair [OF assms(1,2)] assms(3,4)]) blast

lemmas lock_aad_eval =
  downgrade_lock_aad_def lock_head_def json_object_def btree_collect_def sample_serde_def lit_def
  less_list_code encode_string_ascii_def escape_char_def Let_def insort_key_def dec.simps

lemma short_lock_aad:
  "length (downgrade_lock_aad sample_serde HYBRID_SUITE (lit ''alice'') (lit ''bob'') None) < 2 ^ 32"
  by (simp add: lock_aad_eval HYBRID_SUITE_def)

theorem pqdm_roundtrip_witness:
  "\<exists>blob w'. seal sample_prims sample_serde [1, 2, 3] (public_key sample_keys) (lit ''alice'') (lit ''bob'')
      (sample_world 4 0) = (Ok blob, w') \<and> length blob = 1148 + length [1, 2, 3 :: u8] \<and>
    open_sealed sample_prims sample_serde id blob (private_key sample_keys) (lit ''alice'') (lit ''bob'')
      HYBRID_SUITE = Ok [1, 2, 3]"
  unfolding sample_keys_def
  by (rule pqdm_roundtrip [OF sample_prims_laws])
     (rule prod.collapse [symmetric], simp, rule short_lock_aad)

text \<open>
  The downgrade-lock associated data determines the suite and both parties: two calls give
  the same bytes only when suite, sender and recipient agree.
\<close>

lemma downgrade_aad_binds:
  assumes "serde_laws J" "\<forall>x \<in> {suite, a, b, suite', a', b'}. valid_str x"
  shows "downgrade_lock_aad J suite a b None = downgrade_lock_aad J suite' a' b' None \<longleftrightarrow>
    suite = suite' \<and> a = a' \<and> b = b'"
  using lock_aad_inject [OF assms] by blast

text \<open>
  C5: a message sealed to a key pair and opened with the private key under any other suite or other
  parties. The recipient recomputes associated data that differ from the sender's, and the
  outcome is decided by the AEAD on this blob alone: for the secret that the blob's own
  ciphertext decapsulates to, and the blob's own nonce and body, which encrypt the message under
  the sender's data, either the AEAD refuses the body under the other data (and the key derived
  from them) and \<open>open_sealed\<close> reports \<open>DowngradeDetected\<close>, or this very body is a forgery for them.
\<close>
theorem downgrade_detected:
  assumes "seal_pair P pk sk" "seal P J pt pk a b w = (Ok blob, w')" "serde_laws J"
    and "\<forall>x \<in> {HYBRID_SUITE, a, b, suite, a', b'}. valid_str x"
    and "suite \<noteq> HYBRID_SUITE \<or> a' \<noteq> a \<or> b' \<noteq> b"
  shows "\<exists>shared. hybrid_decap P (blob_ct blob) sk = Ok shared \<and>
    (let aad = downgrade_lock_aad J HYBRID_SUITE a b None; aad' = downgrade_lock_aad J suite a' b' None;
         nonce = blob_nonce blob; body = blob_body blob
     in aad' \<noteq> aad \<and> gcm_encrypt P (wrap_key P shared aad) nonce aad pt = Some body \<and>
        open_sealed P J dbg blob sk a' b' suite =
          (case gcm_decrypt P (wrap_key P shared aad') nonce aad' body of
             None \<Rightarrow> Err (DowngradeDetected (downgrade_text dbg suite))
           | Some forged \<Rightarrow> Ok forged))"
proof -
  let ?aad = "downgrade_lock_aad J HYBRID_SUITE a b None"
  let ?aad' = "downgrade_lock_aad J suite a' b' None"
  have ne: "?aad' \<noteq> ?aad"
    using lock_aad_inject [OF assms(3), of suite a' b' HYBRID_SUITE a b] assms(4,5) by auto
  show ?thesis
  proof (rule open_sealed_sealed [OF assms(1,2), where dbg = dbg])
    fix key shared
    assume "hybrid_decap P (blob_ct blob) sk = Ok shared" "key = wrap_key P shared ?aad"
      "gcm_encrypt P key (blob_nonce blob) ?aad pt = Some (blob_body blob)"
      and "\<And>a' b' s. open_sealed P J dbg blob sk a' b' s =
        ok_or (DowngradeDetected (downgrade_text dbg s))
          (gcm_decrypt P (wrap_key P shared (downgrade_lock_aad J s a' b' None)) (blob_nonce blob)
             (downgrade_lock_aad J s a' b' None) (blob_body blob))"
    with ne show ?thesis unfolding Let_def by (intro exI [of _ shared]) (simp split: option.split)
  qed
qed

lemma sample_kdf_bytes:
  "wrap_key sample_prims shared aad = replicate 32 (digest (shared @ PQDM_INFO_WRAP @ blit ''|'' @ aad))"
  "derive_wrap_key sample_prims shared aad = replicate 32 (digest (shared @ ROUTE_INFO_WRAP @ blit ''|'' @ aad))"
  by (simp_all add: wrap_key_def derive_wrap_key_def sample_prims_def)

lemma sample_gcm_fields: "gcm_encrypt sample_prims = sample_encrypt" "gcm_decrypt sample_prims = sample_decrypt"
  by (simp_all add: sample_prims_def)

lemma sample_encap_world:
  assumes "hybrid_encap sample_prims pk (sample_world c t) = (Ok (ct, ss), w1)"
  shows "entropy w1 = sconst c" "length ct = 1120"
  using assms unfolding hybrid_encap_def expect_len_def
  by (auto simp: Let_def sample_prims_def sample_world_def draw_def split: if_splits)

lemma sample_nonce:
  assumes "seal sample_prims J pt pk a b (sample_world c t) = (Ok blob, w')"
  shows "blob_nonce blob = replicate 12 c"
proof -
  obtain ct ss w1 nonce body where "hybrid_encap sample_prims pk (sample_world c t) = (Ok (ct, ss), w1)"
    "blob = ct @ nonce @ body" "length nonce = 12" "fill_bytes 12 w1 = (nonce, w')"
    using assms by (rule pqdm_seal_OkE)
  then show ?thesis
    using sample_encap_world [of pk c t ct ss w1] by (auto simp: blob_parts fill_bytes_def map_replicate_const)
qed

lemma sample_suites_differ:
  "4 * digest (replicate 12 4 @ downgrade_lock_aad sample_serde HYBRID_SUITE (lit ''a'') (lit ''b'') None @ [1]) \<noteq>
   4 * digest (replicate 12 4 @ downgrade_lock_aad sample_serde CLASSICAL_SUITE (lit ''a'') (lit ''b'') None @ [1])"
proof -
  have "downgrade_lock_aad sample_serde HYBRID_SUITE (lit ''a'') (lit ''b'') None =
      blit ''{\"negotiated_suite\":\"x25519-mlkem768\",\"recipient\":\"b\",\"sender\":\"a\",\"v\":1}''"
    "downgrade_lock_aad sample_serde CLASSICAL_SUITE (lit ''a'') (lit ''b'') None =
      blit ''{\"negotiated_suite\":\"x25519-pgp-wrap-v1\",\"recipient\":\"b\",\"sender\":\"a\",\"v\":1}''"
    by (simp_all add: lock_aad_eval HYBRID_SUITE_def CLASSICAL_SUITE_def blit_def)
  then show ?thesis by (simp only: blit_def digest_def) code_simp
qed

theorem downgrade_detected_witness:
  "\<exists>blob w'. seal sample_prims sample_serde [1] (public_key sample_keys) (lit ''a'') (lit ''b'')
      (sample_world 4 0) = (Ok blob, w') \<and>
    open_sealed sample_prims sample_serde id blob (private_key sample_keys) (lit ''a'') (lit ''b'')
       CLASSICAL_SUITE = Err (DowngradeDetected (downgrade_text id CLASSICAL_SUITE))"
proof -
  let ?aad = "\<lambda>s. downgrade_lock_aad sample_serde s (lit ''a'') (lit ''b'') None"
  have v: "\<forall>x \<in> {HYBRID_SUITE, lit ''a'', lit ''b'', CLASSICAL_SUITE, lit ''a'', lit ''b''}. valid_str x"
    by (simp add: HYBRID_SUITE_def CLASSICAL_SUITE_def lit_def valid_str_def scalar_value_def)
  have aad: "length (?aad HYBRID_SUITE) < 2 ^ 32" by (simp add: lock_aad_eval HYBRID_SUITE_def)
  have one: "length [1 :: u8] < 2 ^ 32" by simp
  obtain blob w' where s: "seal sample_prims sample_serde [1] (public_key sample_keys) (lit ''a'') (lit ''b'')
      (sample_world 4 0) = (Ok blob, w')"
    by (rule pqdm_seal_total [OF sample_seal_pair one aad])
  have ne: "CLASSICAL_SUITE \<noteq> HYBRID_SUITE" by (simp add: HYBRID_SUITE_def CLASSICAL_SUITE_def)
  obtain shared where e: "sample_encrypt (wrap_key sample_prims shared (?aad HYBRID_SUITE)) (blob_nonce blob)
        (?aad HYBRID_SUITE) [1] = Some (blob_body blob)"
    and o: "open_sealed sample_prims sample_serde id blob (private_key sample_keys) (lit ''a'') (lit ''b'') CLASSICAL_SUITE =
      (case sample_decrypt (wrap_key sample_prims shared (?aad CLASSICAL_SUITE)) (blob_nonce blob)
          (?aad CLASSICAL_SUITE) (blob_body blob) of
         None \<Rightarrow> Err (DowngradeDetected (downgrade_text id CLASSICAL_SUITE)) | Some forged \<Rightarrow> Ok forged)"
    using downgrade_detected [OF sample_seal_pair s sample_serde_laws v disjI1 [OF ne], of id]
    by (auto simp: Let_def sample_gcm_fields)
  have "sample_decrypt (wrap_key sample_prims shared (?aad CLASSICAL_SUITE)) (blob_nonce blob)
      (?aad CLASSICAL_SUITE) (blob_body blob) = None"
    using e unfolding sample_kdf_bytes sample_nonce [OF s]
    by (rule sample_refuses) (rule sample_suites_differ)
  then show ?thesis using s o by simp
qed

text \<open>
  C32: \<open>open_sealed\<close> never panics; a blob shorter than 1148 bytes is a format error, a private key
  of the wrong length a KEM error, and everything else opens or is reported as a downgrade.
\<close>
theorem open_sealed_outcomes:
  assumes "mlkem_total P"
  shows "case open_sealed P J dbg blob sk a b suite of
      Ok pt \<Rightarrow> 1148 \<le> length blob \<and> length sk = 2432
    | Err e \<Rightarrow>
        if length blob < 1148 then \<exists>m. e = DmFormat m
        else if length sk \<noteq> 2432 then e = DmKem (BadLength (lit ''hybrid private key'') 2432 (length sk))
        else e = DowngradeDetected (downgrade_text dbg suite)
    | Panic \<Rightarrow> False"
proof (cases "length blob < 1148")
  case True
  then show ?thesis by (simp add: open_sealed_def)
next
  case False
  then have ct: "length (blob_ct blob) = 1120" by (simp add: blob_lengths)
  show ?thesis
  proof (cases "length sk = 2432")
    case True
    then obtain ss where "mlkem_decap P (drop 32 sk) (drop 32 (blob_ct blob)) = Some ss"
      using assms ct unfolding mlkem_total_def by fastforce
    then obtain shared where "hybrid_decap P (blob_ct blob) sk = Ok shared"
      using hybrid_decap_eq [OF ct True] by simp
    then show ?thesis
      using False True open_sealed_not_Panic [of P J dbg blob sk a b suite]
      by (auto simp: open_sealed_def Let_def split: res.split)
  next
    case sk: False
    then show ?thesis
      using False hybrid_decap_bad_length(2) [OF ct sk] by (simp add: open_sealed_def Let_def)
  qed
qed

theorem open_sealed_outcomes_witness:
  "case open_sealed sample_prims sample_serde id (replicate 1148 0) [] [] [] [] of
      Ok pt \<Rightarrow> False | Err e \<Rightarrow> e = DmKem (BadLength (lit ''hybrid private key'') 2432 0) | Panic \<Rightarrow> False"
  using open_sealed_outcomes [OF sample_mlkem_total, where J = sample_serde and dbg = id
      and blob = "replicate 1148 0" and sk = "[]" and a = "[]" and b = "[]" and suite = "[]"]
  by (simp split: res.splits)

section \<open>The canonical encoding\<close>

text \<open>
  C13: the canonical encoding of a value (without floats) is printable ASCII, whatever characters
  its strings hold, and two values have the same encoding exactly when they are equal up to the
  order in which their objects list the entries.
\<close>
theorem canonical_determines:
  assumes "json_proper v" "json_proper v'"
  shows "list_all printable (canonical J v) \<and>
    (canonical J v = canonical J v' \<longleftrightarrow> json_sort v = json_sort v')"
  using canonical_printable [OF assms(1)] canonical_eq_iff [OF assms] by blast

theorem canonical_determines_witness:
  "canonical sample_serde (JObj [(lit ''to'', JStr [0x1F600]), (lit ''a'', JNum (PosInt 1))]) =
   canonical sample_serde (JObj [(lit ''a'', JNum (PosInt 1)), (lit ''to'', JStr [0x1F600])])"
proof -
  let ?v = "JObj [(lit ''to'', JStr [0x1F600]), (lit ''a'', JNum (PosInt 1))]"
  let ?v' = "JObj [(lit ''a'', JNum (PosInt 1)), (lit ''to'', JStr [0x1F600])]"
  have "json_proper ?v" "json_proper ?v'" by (simp_all add: valid_str_def scalar_value_def lit_def)
  moreover have "json_sort ?v = json_sort ?v'"
    by (rule json_sort_permute) (simp_all add: lit_def)
  ultimately show ?thesis using canonical_determines [of ?v ?v' sample_serde] by simp
qed

text \<open>
  The canonical encoding is lossless: the reader \<open>read_value\<close> gets every value without floats
  back from its text, also when other text follows.
\<close>

lemma canonical_readable:
  assumes "json_plain v" "ends_value rest"
  shows "read_value (Suc (length (canonical J v))) (canonical J v @ rest) = Some (v, rest)"
  by (rule reads_backD [OF canonical_reads_back [OF assms(1)] assms(2)]) simp

section \<open>The routing envelope\<close>

text \<open>
  \<open>split_outer\<close> accepts exactly the blobs that are a header's 32-bit length, the header and
  the rest, and returns those two parts.
\<close>

lemma split_outer_exact:
  "split_outer blob = Ok (route, sealed) \<longleftrightarrow>
     blob = u32_be (len_u32 route) @ route @ sealed \<and> length route < 2 ^ 32"
  using split_outer_OkD split_outer_join by blast

text \<open>
  C23: an envelope sealed to a generated public key shows its header to anyone, and gives header,
  metadata and content back to the owner of the private key.
\<close>
theorem route_roundtrip:
  assumes "prims_laws P" "hybrid_keypair P w0 = (kp, w1)" "serde_laws J" "routable J meta hdr content"
  shows "\<exists>blob w'. seal_routed P J meta content (public_key kp) hdr w = (Ok blob, w') \<and>
    read_route_header J blob = Ok hdr \<and>
    open_routed P J blob (private_key kp) = Ok (hdr, meta, content)"
  by (rule routed_opens [OF hybrid_keypair_seal_pair [OF assms(1,2)] assms(3,4)]) blast

lemma sample_routable: "routable sample_serde (JStr (lit ''m'')) (JNum (PosInt 1)) [1, 2]"
  by (simp add: routable_def sample_serde_def encode_string_ascii_def escape_char_def Let_def lit_def
      valid_str_def scalar_value_def dec.simps)

theorem route_roundtrip_witness:
  "\<exists>blob w'. seal_routed sample_prims sample_serde (JStr (lit ''m'')) [1, 2] (public_key sample_keys)
      (JNum (PosInt 1)) (sample_world 6 0) = (Ok blob, w') \<and>
    read_route_header sample_serde blob = Ok (JNum (PosInt 1)) \<and>
    open_routed sample_prims sample_serde blob (private_key sample_keys) =
      Ok (JNum (PosInt 1), JStr (lit ''m''), [1, 2])"
  unfolding sample_keys_def
  by (rule route_roundtrip [OF sample_prims_laws _ sample_serde_laws sample_routable])
     (rule prod.collapse [symmetric])

text \<open>
  C6: the header of a sealed envelope replaced by a different one. Anyone can read the new header,
  and what the destination makes of the envelope is decided by the AEAD on its own sealed part:
  for the secret that its ciphertext decapsulates to, and its nonce and body, which encrypt
  metadata and content under the old header, either the AEAD refuses the body under the new
  header (and the key derived from it) and \<open>open_routed\<close> gives the open error, or this very body is
  a forgery for the new header.
\<close>
theorem rewritten_header_refused:
  assumes "seal_pair P pk sk" "seal_routed P J meta content pk hdr w = (Ok blob, w')" "serde_laws J"
    and "routable J meta hdr content" "routable J meta hdr' content" "hdr' \<noteq> hdr"
  shows "\<exists>sealed shared blob'. split_outer blob = Ok (canonical J hdr, sealed) \<and>
    hybrid_decap P (blob_ct sealed) sk = Ok shared \<and>
    replace_route_header J blob hdr' = Ok blob' \<and> read_route_header J blob' = Ok hdr' \<and>
    (let aad = build_aad (canonical J hdr); aad' = build_aad (canonical J hdr');
         nonce = blob_nonce sealed; body = blob_body sealed
     in aad' \<noteq> aad \<and>
        gcm_encrypt P (derive_wrap_key P shared aad) nonce aad (inner_bytes J meta content) = Some body \<and>
        open_routed P J blob' sk =
          (case gcm_decrypt P (derive_wrap_key P shared aad') nonce aad' body of
             None \<Rightarrow> Err (RouteOpen open_failed_text)
           | Some forged \<Rightarrow> and_then (split_inner J forged) (\<lambda>(m, c). Ok (hdr', m, c))))"
proof -
  note len = routable_lengths [OF assms(4)] and len' = routable_lengths [OF assms(5)]
  have h': "from_slice J (canonical J hdr') = Inr hdr'"
    using assms(3,5) by (simp add: routable_def serde_canonical)
  have ne: "build_aad (canonical J hdr') \<noteq> build_aad (canonical J hdr)"
    using assms(4-6) canonical_plain_inject by (auto simp: routable_def)
  then have ne': "canonical J hdr' \<noteq> canonical J hdr" by simp
  show ?thesis
  proof (rule open_routed_sealed [OF assms(1,2) len(3)])
    fix shared sealed
    assume sp: "split_outer blob = Ok (canonical J hdr, sealed)"
      and d: "hybrid_decap P (blob_ct sealed) sk = Ok shared"
      and e: "gcm_encrypt P (derive_wrap_key P shared (build_aad (canonical J hdr))) (blob_nonce sealed)
         (build_aad (canonical J hdr)) (inner_bytes J meta content) = Some (blob_body sealed)"
      and o: "\<And>route v. length route < 2 ^ 32 \<Longrightarrow> from_slice J route = Inr v \<Longrightarrow>
         open_routed P J (u32_be (len_u32 route) @ route @ sealed) sk =
           and_then (ok_or (RouteOpen open_failed_text)
              (gcm_decrypt P (derive_wrap_key P shared (build_aad route)) (blob_nonce sealed)
                 (build_aad route) (blob_body sealed)))
             (\<lambda>inner. and_then (split_inner J inner) (\<lambda>(m, c). Ok (v, m, c)))"
    let ?blob' = "u32_be (len_u32 (canonical J hdr')) @ canonical J hdr' @ sealed"
    have r: "replace_route_header J blob hdr' = Ok ?blob'" by (simp add: replace_route_header_def sp Let_def)
    have rd: "read_route_header J ?blob' = Ok hdr'"
      using h' split_outer_join [OF len'(3), of sealed] by (simp add: read_route_header_def)
    show ?thesis
      unfolding Let_def
      by (rule exI [of _ sealed], rule exI [of _ shared], rule exI [of _ ?blob'])
         (simp add: sp d r rd ne' e o [OF len'(3) h'] split: option.split)
  qed
qed

lemma sample_headers_differ:
  "4 * digest (n @ build_aad (canonical sample_serde (JNum (PosInt 1))) @
     inner_bytes sample_serde (JStr (lit ''m'')) [1, 2]) \<noteq>
   4 * digest (n @ build_aad (canonical sample_serde (JNum (PosInt 2))) @
     inner_bytes sample_serde (JStr (lit ''m'')) [1, 2])"
proof -
  let ?f = "\<lambda>a b. 3 * a + b + 1 :: u8" and ?m = "inner_bytes sample_serde (JStr (lit ''m'')) [1, 2]"
  define x where "x = 3 * digest (n @ ROUTE_SUITE @ blit ''|'') + 50"
  have len: "length ?m = 9"
    by (simp add: inner_bytes_def encode_string_ascii_def escape_char_def Let_def lit_def)
  have numbers: "canonical sample_serde (JNum (PosInt 1)) = [49]" "canonical sample_serde (JNum (PosInt 2)) = [50]"
    by (simp_all add: dec.simps)
  have "digest (n @ build_aad [49] @ ?m) = foldl ?f x ?m" "digest (n @ build_aad [50] @ ?m) = foldl ?f (x + 1) ?m"
    by (simp_all add: digest_def build_aad_def x_def ac_simps)
  moreover have "foldl ?f (x + 1) ?m = foldl ?f x ?m + 19683" by (simp add: digest_shift len)
  moreover have "4 * y \<noteq> 4 * (y + 19683)" for y :: u8 by (simp add: distrib_left)
  ultimately show ?thesis by (simp only: numbers) simp
qed

theorem rewritten_header_refused_witness:
  "\<exists>blob w' blob'. seal_routed sample_prims sample_serde (JStr (lit ''m'')) [1, 2] (public_key sample_keys)
      (JNum (PosInt 1)) (sample_world 6 0) = (Ok blob, w') \<and>
    replace_route_header sample_serde blob (JNum (PosInt 2)) = Ok blob' \<and>
    read_route_header sample_serde blob' = Ok (JNum (PosInt 2)) \<and>
    open_routed sample_prims sample_serde blob' (private_key sample_keys) = Err (RouteOpen open_failed_text)"
proof -
  let ?aad = "\<lambda>h. build_aad (canonical sample_serde (JNum (PosInt h)))"
  let ?inner = "inner_bytes sample_serde (JStr (lit ''m'')) [1, 2]"
  note len = routable_lengths [OF sample_routable]
  obtain blob w' where s: "seal_routed sample_prims sample_serde (JStr (lit ''m'')) [1, 2]
      (public_key sample_keys) (JNum (PosInt 1)) (sample_world 6 0) = (Ok blob, w')"
    by (rule seal_routed_total [OF sample_seal_pair len(2,1)])
  have hdr': "routable sample_serde (JStr (lit ''m'')) (JNum (PosInt 2)) [1, 2]"
    using sample_routable by (simp add: routable_def sample_serde_def dec.simps)
  have "JNum (PosInt 2) \<noteq> JNum (PosInt 1)" by simp
  from rewritten_header_refused [OF sample_seal_pair s sample_serde_laws sample_routable hdr' this]
  obtain sealed shared blob' where b: "replace_route_header sample_serde blob (JNum (PosInt 2)) = Ok blob'"
      "read_route_header sample_serde blob' = Ok (JNum (PosInt 2))"
    and e: "sample_encrypt (derive_wrap_key sample_prims shared (?aad 1)) (blob_nonce sealed) (?aad 1) ?inner =
      Some (blob_body sealed)"
    and o: "open_routed sample_prims sample_serde blob' (private_key sample_keys) =
      (case sample_decrypt (derive_wrap_key sample_prims shared (?aad 2)) (blob_nonce sealed) (?aad 2) (blob_body sealed) of
         None \<Rightarrow> Err (RouteOpen open_failed_text)
       | Some forged \<Rightarrow> and_then (split_inner sample_serde forged) (\<lambda>(m, c). Ok (JNum (PosInt 2), m, c)))"
    unfolding Let_def sample_gcm_fields by blast
  have "sample_decrypt (derive_wrap_key sample_prims shared (?aad 2)) (blob_nonce sealed) (?aad 2) (blob_body sealed) = None"
    using e unfolding sample_kdf_bytes by (rule sample_refuses) (rule sample_headers_differ)
  then show ?thesis using s b o by simp
qed

text \<open>
  No input makes the routing functions panic: sealing, reading a header, replacing it and
  opening return a value or an error for every blob and every key.
\<close>
lemma route_never_panics:
  "fst (seal_routed P J meta content pk hdr w) \<noteq> Panic \<and> read_route_header J blob \<noteq> Panic \<and>
   replace_route_header J blob hdr \<noteq> Panic \<and> open_routed P J blob sk \<noteq> Panic"
  using seal_routed_not_Panic open_routed_not_Panic
  by (auto simp: read_route_header_def replace_route_header_def Let_def and_then_eq_Panic split: sum.splits)

end
