(* ===== verification/Anon_Queue.thy ===== *)
theory Anon_Queue
  imports World Codecs
begin

text \<open>
  Anonymous queue addressing (\<open>src/src/anon_queue.rs\<close>): the pair of queue ids with its redraw
  loop, the \<open>aqid:\<close> address codec and the deniable authenticator.
\<close>

section \<open>Constants and errors\<close>

definition ANON_SUITE :: rstr where "ANON_SUITE = lit ''aqid-v1''"
definition QUEUE_ID_LEN :: nat where "QUEUE_ID_LEN = 16"
definition AQID_SCHEME :: rstr where "AQID_SCHEME = lit ''aqid:''"
definition AUTH_TAG_LEN :: nat where "AUTH_TAG_LEN = 32"

lemma queue_lengths [simp]: "QUEUE_ID_LEN = 16" "AUTH_TAG_LEN = 32"
  by (simp_all add: QUEUE_ID_LEN_def AUTH_TAG_LEN_def)

datatype anon_queue_error = BadRelay rstr | BadIdLen rstr nat | BadAddress rstr | BadBase64

fun anon_queue_error_display :: "anon_queue_error \<Rightarrow> rstr" where
  "anon_queue_error_display (BadRelay msg) = lit ''relay '' @ msg"
| "anon_queue_error_display (BadIdLen what got) =
     what @ lit '' must be '' @ dec QUEUE_ID_LEN @ lit '' bytes, got '' @ dec got"
| "anon_queue_error_display (BadAddress msg) = lit ''address '' @ msg"
| "anon_queue_error_display BadBase64 = lit ''id is not valid base64url''"

section \<open>Queue ids\<close>

text \<open>The loop that draws the sender id again while it equals the recipient id.\<close>

partial_function (option) redraw :: "bytes \<Rightarrow> bytes \<Rightarrow> world \<Rightarrow> (bytes \<times> world) option" where
  "redraw recipient_id sender_id w =
     (if sender_id = recipient_id then
        (let (fresh, w1) = fill_bytes QUEUE_ID_LEN w in redraw recipient_id fresh w1)
      else Some (sender_id, w))"

definition new_queue_pair :: "world \<Rightarrow> ((bytes \<times> bytes) \<times> world) option" where
  "new_queue_pair w =
     (let (recipient_id, w1) = fill_bytes QUEUE_ID_LEN w;
          (sender_id, w2) = fill_bytes QUEUE_ID_LEN w1
      in case redraw recipient_id sender_id w2 of
           None \<Rightarrow> None
         | Some (sender, w3) \<Rightarrow> Some ((recipient_id, sender), w3))"

section \<open>Addresses\<close>

definition encode_aqid :: "codecs \<Rightarrow> rstr \<Rightarrow> bytes \<Rightarrow> (anon_queue_error, rstr) res" where
  "encode_aqid C relay sender_id =
     (if relay = [] then Err (BadRelay (lit ''must be a non-empty string''))
      else if 0x2F \<in> set relay then Err (BadRelay (lit ''must not contain '' @ [0x27, 0x2F, 0x27]))
      else if length sender_id \<noteq> QUEUE_ID_LEN then Err (BadIdLen (lit ''sender_id'') (length sender_id))
      else let b64 = b64url_encode C sender_id
           in Ok (AQID_SCHEME @ relay @ [0x2F] @ b64))"

definition decode_aqid :: "codecs \<Rightarrow> rstr \<Rightarrow> (anon_queue_error, rstr \<times> bytes) res" where
  "decode_aqid C s =
     and_then (ok_or (BadAddress (lit ''must start with '' @ [0x27] @ AQID_SCHEME @ [0x27]))
                 (strip_prefix AQID_SCHEME s)) (\<lambda>body.
     and_then (ok_or (BadAddress (lit ''must be '' @ [0x27] @ lit ''aqid:<relay>/<id>'' @ [0x27]))
                 (split_once 0x2F body)) (\<lambda>(relay, b64).
       if relay = [] then Err (BadAddress (lit ''relay must be non-empty''))
       else if b64 = [] then Err (BadAddress (lit ''id must be non-empty''))
       else case b64url_decode C b64 of
              Inl e \<Rightarrow> Err BadBase64
            | Inr raw \<Rightarrow>
                if length raw \<noteq> QUEUE_ID_LEN then Err (BadIdLen (lit ''decoded id'') (length raw))
                else Ok (relay, raw)))"

section \<open>The authenticator\<close>

text \<open>The two \<open>update\<close> calls feed nonce and message one after the other.\<close>

definition auth_tag :: "prims \<Rightarrow> bytes \<Rightarrow> bytes \<Rightarrow> bytes \<Rightarrow> bytes" where
  "auth_tag P secret message nonce = hmac_sha256 P secret (nonce @ message)"

definition verify_tag :: "prims \<Rightarrow> bytes \<Rightarrow> bytes \<Rightarrow> bytes \<Rightarrow> bytes \<Rightarrow> bool" where
  "verify_tag P secret message nonce tag =
     (let expected = auth_tag P secret message nonce in ct_eq P expected tag)"

section \<open>The redraw loop\<close>

definition id_block :: "u8 stream \<Rightarrow> nat \<Rightarrow> bytes" where
  "id_block e k = stake 16 (sdrop (16 * k) e)"

lemma id_block_Suc: "id_block (sdrop 16 e) k = id_block e (Suc k)"
  by (simp add: id_block_def sdrop_add)

lemma redraw_same: "redraw r r w = redraw r (stake 16 (entropy w)) (w\<lparr>entropy := sdrop 16 (entropy w)\<rparr>)"
  by (subst redraw.simps) (simp add: fill_bytes_def)

lemma redraw_other: "s \<noteq> r \<Longrightarrow> redraw r s w = Some (s, w)"
  by (subst redraw.simps) simp

text \<open>The loop stops at the first block that differs from the recipient id.\<close>

lemma redraw_stops:
  assumes "\<forall>j < k. id_block (entropy w) j = r" "id_block (entropy w) k \<noteq> r"
  shows "redraw r r w =
    Some (id_block (entropy w) k, w\<lparr>entropy := sdrop (16 * Suc k) (entropy w)\<rparr>)"
  using assms
proof (induction k arbitrary: w)
  case 0
  then show ?case by (simp add: redraw_same redraw_other id_block_def)
next
  case (Suc k)
  let ?w = "w\<lparr>entropy := sdrop 16 (entropy w)\<rparr>"
  have "redraw r r ?w = Some (id_block (entropy ?w) k, ?w\<lparr>entropy := sdrop (16 * Suc k) (entropy ?w)\<rparr>)"
    by (rule Suc.IH) (use Suc.prems in \<open>auto simp: id_block_Suc\<close>)
  moreover have "stake 16 (entropy w) = r" using Suc.prems(1) by (auto simp: id_block_def)
  ultimately show ?case
    using redraw_same [of r w] by (simp add: id_block_Suc sdrop_add)
qed

lemma redraw_result:
  assumes "redraw r s w = Some y"
  shows "fst y \<noteq> r \<and> (s = r \<longrightarrow> (\<exists>k. id_block (entropy w) k \<noteq> r))"
proof (rule redraw.raw_induct [where P = "\<lambda>r s w y. fst y \<noteq> r \<and>
    (s = r \<longrightarrow> (\<exists>k. id_block (entropy w) k \<noteq> r))", OF _ assms])
  fix f r s w and y :: "bytes \<times> world"
  assume ih: "\<And>r s w y. f r s w = Some y \<Longrightarrow>
      fst y \<noteq> r \<and> (s = r \<longrightarrow> (\<exists>k. id_block (entropy w) k \<noteq> r))"
    and step: "(if s = r then let (fresh, w1) = fill_bytes QUEUE_ID_LEN w in f r fresh w1
      else Some (s, w)) = Some y"
  show "fst y \<noteq> r \<and> (s = r \<longrightarrow> (\<exists>k. id_block (entropy w) k \<noteq> r))"
  proof (cases "s = r")
    case True
    let ?w = "w\<lparr>entropy := sdrop 16 (entropy w)\<rparr>"
    have "f r (stake 16 (entropy w)) ?w = Some y" using step True by (simp add: fill_bytes_def)
    from ih [OF this] have later: "fst y \<noteq> r"
      "stake 16 (entropy w) = r \<longrightarrow> (\<exists>k. id_block (sdrop 16 (entropy w)) k \<noteq> r)" by simp_all
    have "\<exists>k. id_block (entropy w) k \<noteq> r"
    proof (cases "stake 16 (entropy w) = r")
      case True
      then show ?thesis using later(2) by (auto simp: id_block_Suc)
    next
      case False
      then have "id_block (entropy w) 0 \<noteq> r" by (simp add: id_block_def)
      then show ?thesis by blast
    qed
    with later(1) show ?thesis by simp
  next
    case False
    then show ?thesis using step by auto
  qed
qed

text \<open>The first block of the stream is the recipient id; the sender id is the first other one.\<close>

lemma new_queue_pair_stops:
  assumes "\<forall>j. 1 \<le> j \<and> j < k \<longrightarrow> id_block (entropy w) j = id_block (entropy w) 0"
    and "id_block (entropy w) k \<noteq> id_block (entropy w) 0"
  shows "new_queue_pair w =
    Some ((id_block (entropy w) 0, id_block (entropy w) k),
          w\<lparr>entropy := sdrop (16 * Suc k) (entropy w)\<rparr>)"
proof -
  let ?e = "entropy w" and ?r = "id_block (entropy w) 0"
  have start: "new_queue_pair w =
      (case redraw ?r (id_block ?e 1) (w\<lparr>entropy := sdrop 32 ?e\<rparr>) of
         None \<Rightarrow> None | Some (s, w') \<Rightarrow> Some ((?r, s), w'))"
    by (simp add: new_queue_pair_def fill_bytes_def id_block_def sdrop_add cong: option.case_cong)
  have block: "id_block (sdrop 32 ?e) j = id_block ?e (Suc (Suc j))" for j
    by (simp add: id_block_def sdrop_add)
  obtain i where k: "k = Suc i" using assms(2) by (cases k) simp_all
  show ?thesis
  proof (cases i)
    case 0
    then show ?thesis using assms(2) by (simp add: start k redraw_other)
  next
    case (Suc n)
    have "id_block ?e 1 = ?r" using assms(1) by (simp add: k Suc)
    moreover have "redraw ?r ?r (w\<lparr>entropy := sdrop 32 ?e\<rparr>) =
        Some (id_block ?e k, w\<lparr>entropy := sdrop (16 * Suc k) ?e\<rparr>)"
      using redraw_stops [of n "w\<lparr>entropy := sdrop 32 ?e\<rparr>" ?r] assms
      by (simp add: block k Suc sdrop_add)
    ultimately show ?thesis by (simp add: start)
  qed
qed

lemma new_queue_pair_SomeD:
  assumes "new_queue_pair w = Some ((r, s), w')"
  shows "s \<noteq> r" "\<exists>k. id_block (entropy w) k \<noteq> id_block (entropy w) 0"
proof -
  let ?e = "entropy w"
  have r: "r = id_block ?e 0"
    and re: "redraw r (id_block ?e 1) (w\<lparr>entropy := sdrop 32 ?e\<rparr>) = Some (s, w')"
    using assms by (auto simp: new_queue_pair_def fill_bytes_def id_block_def sdrop_add
        split: option.splits)
  note d = redraw_result [OF re]
  then show "s \<noteq> r" by simp
  have block: "id_block (sdrop 32 ?e) j = id_block ?e (Suc (Suc j))" for j
    by (simp add: id_block_def sdrop_add)
  show "\<exists>k. id_block ?e k \<noteq> id_block ?e 0"
    using d unfolding r by (auto simp: block)
qed

section \<open>The address codec\<close>

lemma encode_aqid_OkD:
  assumes "encode_aqid C relay i = Ok s"
  shows "relay \<noteq> []" "0x2F \<notin> set relay" "length i = 16"
    "s = AQID_SCHEME @ relay @ 0x2F # b64url_encode C i"
  using assms by (simp_all add: encode_aqid_def Let_def split: if_splits)

lemma decode_encode_aqid:
  assumes "b64url_laws C" "encode_aqid C relay i = Ok s"
  shows "decode_aqid C s = Ok (relay, i)"
proof -
  note e = encode_aqid_OkD [OF assms(2)]
  have "b64url_encode C i \<noteq> []" using assms(1) e(3) by (auto simp: b64url_laws_def)
  then show ?thesis
    using e(1,2,3) b64url_roundtrip [OF assms(1), of i]
    by (simp add: e(4) decode_aqid_def split_once_append)
qed

lemma decode_aqid_OkD:
  assumes "decode_aqid C s = Ok (relay, i)"
  obtains b64 where "s = AQID_SCHEME @ relay @ 0x2F # b64" "relay \<noteq> []" "0x2F \<notin> set relay"
    "b64url_decode C b64 = Inr i" "length i = 16"
  using assms
  by (auto simp: decode_aqid_def and_then_eq_Ok ok_or_eq_Ok strip_prefix_eq_Some split_once_eq_Some
      split: if_splits sum.splits)

end
