(* ===== verification/Suites.thy ===== *)
theory Suites
  imports Json Hash_Maps "HOL-Library.Product_Lexorder"
begin

text \<open>
  The crypto-suite registry of \<open>src/src/suites.rs\<close>: kinds, statuses and their wire strings, the
  suite record, and the registry with its registration, lookups and ordered listings.
\<close>

section \<open>Kinds and statuses\<close>

datatype SuiteKind = SuiteKem | SuiteSig | SuiteAead

fun SuiteKind_as_str :: "SuiteKind \<Rightarrow> rstr" where
  "SuiteKind_as_str SuiteKem = lit ''kem''"
| "SuiteKind_as_str SuiteSig = lit ''sig''"
| "SuiteKind_as_str SuiteAead = lit ''aead''"

datatype SuiteStatus = Classical | HybridPq | Pq | Symmetric

fun SuiteStatus_as_str :: "SuiteStatus \<Rightarrow> rstr" where
  "SuiteStatus_as_str Classical = lit ''classical''"
| "SuiteStatus_as_str HybridPq = lit ''hybrid-pq''"
| "SuiteStatus_as_str Pq = lit ''pq''"
| "SuiteStatus_as_str Symmetric = lit ''symmetric''"

definition SuiteStatus_from_wire :: "rstr \<Rightarrow> SuiteStatus" where
  "SuiteStatus_from_wire s =
     (if s = lit ''hybrid-pq'' then HybridPq
      else if s = lit ''pq'' then Pq
      else if s = lit ''symmetric'' then Symmetric
      else Classical)"

fun SuiteStatus_is_quantum_resistant :: "SuiteStatus \<Rightarrow> bool" where
  "SuiteStatus_is_quantum_resistant HybridPq = True"
| "SuiteStatus_is_quantum_resistant Pq = True"
| "SuiteStatus_is_quantum_resistant Symmetric = True"
| "SuiteStatus_is_quantum_resistant _ = False"

section \<open>Suites\<close>

record CryptoSuite =
  cs_suite_id :: rstr
  cs_kind :: SuiteKind
  cs_status :: SuiteStatus
  cs_primitives :: "rstr list"
  cs_fips_refs :: "rstr list"
  cs_description :: rstr
  cs_active :: bool
  cs_replaces :: "rstr option"

definition CryptoSuite_new ::
  "rstr \<Rightarrow> SuiteKind \<Rightarrow> SuiteStatus \<Rightarrow> rstr list \<Rightarrow> rstr list \<Rightarrow> rstr \<Rightarrow> bool \<Rightarrow> CryptoSuite" where
  "CryptoSuite_new suite_id kind status primitives fips_refs description active =
     \<lparr>cs_suite_id = suite_id, cs_kind = kind, cs_status = status, cs_primitives = primitives,
      cs_fips_refs = fips_refs, cs_description = description, cs_active = active,
      cs_replaces = None\<rparr>"

definition CryptoSuite_replacing :: "CryptoSuite \<Rightarrow> rstr \<Rightarrow> CryptoSuite" where
  "CryptoSuite_replacing s suite_id = s\<lparr>cs_replaces := Some suite_id\<rparr>"

definition CryptoSuite_is_quantum_resistant :: "CryptoSuite \<Rightarrow> bool" where
  "CryptoSuite_is_quantum_resistant s = SuiteStatus_is_quantum_resistant (cs_status s)"

definition CryptoSuite_to_dict :: "CryptoSuite \<Rightarrow> json" where
  "CryptoSuite_to_dict s =
     json_object
       [(lit ''suite_id'', JStr (cs_suite_id s)),
        (lit ''kind'', JStr (SuiteKind_as_str (cs_kind s))),
        (lit ''status'', JStr (SuiteStatus_as_str (cs_status s))),
        (lit ''primitives'', JArr (map JStr (cs_primitives s))),
        (lit ''fips_refs'', JArr (map JStr (cs_fips_refs s))),
        (lit ''description'', JStr (cs_description s)),
        (lit ''active'', JBool (cs_active s)),
        (lit ''quantum_resistant'', JBool (CryptoSuite_is_quantum_resistant s)),
        (lit ''replaces'', (case cs_replaces s of None \<Rightarrow> JNull | Some r \<Rightarrow> JStr r))]"

definition DEFAULT_AT_REST_SUITE :: rstr where "DEFAULT_AT_REST_SUITE = lit ''aes256-gcm-v1''"
definition DEFAULT_KEM_SUITE :: rstr where "DEFAULT_KEM_SUITE = lit ''x25519-pgp-wrap-v1''"

section \<open>The registry\<close>

record Registry =
  by_id :: "(rstr, CryptoSuite) fmap"

definition Registry_empty :: Registry where
  "Registry_empty = \<lparr>by_id = fmempty\<rparr>"

definition Registry_register :: "CryptoSuite \<Rightarrow> Registry \<Rightarrow> CryptoSuite \<times> Registry" where
  "Registry_register suite r =
     (let stored = suite
      in (stored, r\<lparr>by_id := fmupd (cs_suite_id suite) suite (by_id r)\<rparr>))"

definition pgp_wrap_suite :: CryptoSuite where
  "pgp_wrap_suite =
     CryptoSuite_new (lit ''x25519-pgp-wrap-v1'') SuiteKem Classical
       [lit ''X25519 (Curve25519) PGP key-wrap'', lit ''AES-256 session key'']
       [lit ''RFC 7748'', lit ''RFC 9580'']
       (lit ''Classical X25519 PGP key-wrap of an AES-256 session key (skcomms envelope payload / DM wrap today).'')
       True"

definition aes256_gcm_suite :: CryptoSuite where
  "aes256_gcm_suite =
     CryptoSuite_new (lit ''aes256-gcm-v1'') SuiteAead Symmetric
       [lit ''AES-256-GCM'', lit ''HKDF-SHA256'']
       [lit ''FIPS 197'', lit ''SP 800-38D'', lit ''SP 800-108'']
       (lit ''AES-256-GCM bulk cipher '' @ [0x2014] @
        lit '' Grover-only (~128-bit), quantum-acceptable. Do not migrate.'')
       True"

definition mlkem_suite :: CryptoSuite where
  "mlkem_suite =
     CryptoSuite_replacing
       (CryptoSuite_new (lit ''x25519-mlkem768'') SuiteKem HybridPq
          [lit ''X25519 (ephemeral-static DHKEM)'', lit ''ML-KEM-768 (FIPS 203, liboqs)'',
           lit ''HKDF-SHA256 concat-KDF combiner'']
          [lit ''FIPS 203'', lit ''RFC 7748'', lit ''RFC 5869'']
          (lit ''LIVE hybrid X25519 || ML-KEM-768 key-encapsulation primitive (sk_pqc::kem). Secret unless BOTH primitives break. Cross-impl interoperable with sk_pqc (Dart) and skcomms.pqkem.'')
          True)
       (lit ''x25519-pgp-wrap-v1'')"

definition Registry_seeded :: Registry where
  "Registry_seeded =
     (let r = Registry_empty;
          (s1, r) = Registry_register pgp_wrap_suite r;
          (s2, r) = Registry_register aes256_gcm_suite r;
          (s3, r) = Registry_register mlkem_suite r
      in r)"

definition Registry_get_suite :: "Registry \<Rightarrow> rstr \<Rightarrow> CryptoSuite option" where
  "Registry_get_suite r suite_id = fmlookup (by_id r) suite_id"

definition suite_sort_key :: "CryptoSuite \<Rightarrow> bool \<times> rstr \<times> rstr" where
  "suite_sort_key a = (\<not> cs_active a, SuiteStatus_as_str (cs_status a), cs_suite_id a)"

definition Registry_all_suites :: "Registry \<Rightarrow> CryptoSuite list" where
  "Registry_all_suites r = sort_key suite_sort_key (map snd (hash_entries (by_id r)))"

definition Registry_active_suites :: "Registry \<Rightarrow> CryptoSuite list" where
  "Registry_active_suites r = filter cs_active (Registry_all_suites r)"

definition Registry_suite_status :: "Registry \<Rightarrow> rstr \<Rightarrow> SuiteStatus" where
  "Registry_suite_status r suite_id =
     (case Registry_get_suite r suite_id of Some s \<Rightarrow> cs_status s | None \<Rightarrow> Classical)"

definition Registry_is_quantum_resistant :: "Registry \<Rightarrow> rstr \<Rightarrow> bool" where
  "Registry_is_quantum_resistant r suite_id =
     (case Registry_get_suite r suite_id of
        Some s \<Rightarrow> CryptoSuite_is_quantum_resistant s
      | None \<Rightarrow> False)"

text \<open>The singleton is seeded on its first use and never changed after.\<close>

definition Registry_global :: Registry where
  "Registry_global = Registry_seeded"

definition get_suite :: "rstr \<Rightarrow> CryptoSuite option" where
  "get_suite suite_id = Registry_get_suite Registry_global suite_id"

definition all_suites :: "CryptoSuite list" where
  "all_suites = Registry_all_suites Registry_global"

definition active_suites :: "CryptoSuite list" where
  "active_suites = Registry_active_suites Registry_global"

definition suite_status :: "rstr \<Rightarrow> SuiteStatus" where
  "suite_status suite_id = Registry_suite_status Registry_global suite_id"

definition is_quantum_resistant :: "rstr \<Rightarrow> bool" where
  "is_quantum_resistant suite_id = Registry_is_quantum_resistant Registry_global suite_id"

section \<open>Wire strings\<close>

lemma from_wire_as_str [simp]: "SuiteStatus_from_wire (SuiteStatus_as_str st) = st"
  by (cases st) (simp_all add: SuiteStatus_from_wire_def)

lemma status_as_str_inject [simp]: "SuiteStatus_as_str a = SuiteStatus_as_str b \<longleftrightarrow> a = b"
  by (metis from_wire_as_str)

section \<open>Registration and lookup\<close>

text \<open>Every suite is filed under its own id; registration keeps this.\<close>

definition registry_wf :: "Registry \<Rightarrow> bool" where
  "registry_wf r \<longleftrightarrow> (\<forall>i s. fmlookup (by_id r) i = Some s \<longrightarrow> cs_suite_id s = i)"

lemma registry_wf_empty: "registry_wf Registry_empty"
  by (simp add: registry_wf_def Registry_empty_def)

lemma registry_wf_register: "registry_wf r \<Longrightarrow> registry_wf (snd (Registry_register s r))"
  by (simp add: registry_wf_def Registry_register_def Let_def)

lemma register_get:
  "Registry_get_suite (snd (Registry_register s r)) i =
     (if i = cs_suite_id s then Some s else Registry_get_suite r i)"
  by (simp add: Registry_register_def Registry_get_suite_def Let_def)

lemma registry_seeded_eq:
  "Registry_seeded = snd (Registry_register mlkem_suite
     (snd (Registry_register aes256_gcm_suite (snd (Registry_register pgp_wrap_suite Registry_empty)))))"
  by (simp add: Registry_seeded_def Registry_register_def Let_def)

lemma registry_wf_seeded: "registry_wf Registry_seeded"
  by (simp only: registry_seeded_eq registry_wf_register registry_wf_empty)

lemma seeded_ids [simp]:
  "cs_suite_id pgp_wrap_suite = lit ''x25519-pgp-wrap-v1''"
  "cs_suite_id aes256_gcm_suite = lit ''aes256-gcm-v1''"
  "cs_suite_id mlkem_suite = lit ''x25519-mlkem768''"
  "cs_status pgp_wrap_suite = Classical" "cs_status aes256_gcm_suite = Symmetric"
  "cs_status mlkem_suite = HybridPq"
  by (simp_all add: pgp_wrap_suite_def aes256_gcm_suite_def mlkem_suite_def CryptoSuite_new_def
      CryptoSuite_replacing_def)

lemma get_suite_eq:
  "get_suite i =
     (if i = lit ''x25519-mlkem768'' then Some mlkem_suite
      else if i = lit ''aes256-gcm-v1'' then Some aes256_gcm_suite
      else if i = lit ''x25519-pgp-wrap-v1'' then Some pgp_wrap_suite
      else None)"
  unfolding get_suite_def Registry_global_def registry_seeded_eq register_get
  by (simp add: Registry_get_suite_def Registry_empty_def)

text \<open>
  Over the global registry exactly the hybrid KEM and AES-256-GCM are quantum-resistant; an
  unknown suite id has status classical and is not.
\<close>

lemma unknown_suite_is_classical:
  "suite_status i =
     (if i = lit ''x25519-mlkem768'' then HybridPq else if i = lit ''aes256-gcm-v1'' then Symmetric
      else Classical) \<and>
   (is_quantum_resistant i \<longleftrightarrow> i = lit ''x25519-mlkem768'' \<or> i = lit ''aes256-gcm-v1'')"
  using get_suite_eq [of i]
  by (simp add: is_quantum_resistant_def Registry_is_quantum_resistant_def suite_status_def
      Registry_suite_status_def get_suite_def [symmetric] CryptoSuite_is_quantum_resistant_def)

section \<open>The listing does not depend on the map's iteration order\<close>

lemma registry_values_distinct_ids:
  assumes "registry_wf r"
  shows "distinct (map cs_suite_id (map snd (hash_entries (by_id r))))"
proof -
  have "map cs_suite_id (map snd (hash_entries (by_id r))) = map fst (hash_entries (by_id r))"
    using assms by (auto simp: registry_wf_def set_hash_entries)
  then show ?thesis using distinct_hash_entries by metis
qed

lemma set_registry_values:
  "set (map snd (hash_entries (by_id r))) = {s. \<exists>i. fmlookup (by_id r) i = Some s}"
  by (auto simp: image_iff set_hash_entries) (metis set_hash_entries snd_conv)

lemma all_suites_any_order:
  assumes "registry_wf r" "mset vs = mset (map snd (hash_entries (by_id r)))"
  shows "sort_key suite_sort_key vs = Registry_all_suites r"
  unfolding Registry_all_suites_def
proof (rule sort_key_inj_key_eq)
  show "mset vs = mset (sort_key suite_sort_key (map snd (hash_entries (by_id r))))"
    using assms(2) by simp
  have "set vs = set (map snd (hash_entries (by_id r)))" using assms(2) by (rule mset_eq_setD)
  moreover have "inj_on cs_suite_id (set (map snd (hash_entries (by_id r))))"
    using registry_values_distinct_ids [OF assms(1)] by (simp only: distinct_map)
  ultimately show "inj_on suite_sort_key (set vs)"
    by (auto simp: inj_on_def suite_sort_key_def)
qed (rule sorted_sort_key)

lemma set_all_suites: "set (Registry_all_suites r) = {s. \<exists>i. fmlookup (by_id r) i = Some s}"
  by (simp add: Registry_all_suites_def set_registry_values [symmetric])

lemma distinct_all_suites: "registry_wf r \<Longrightarrow> distinct (map cs_suite_id (Registry_all_suites r))"
proof -
  assume "registry_wf r"
  moreover have "mset (map cs_suite_id (Registry_all_suites r)) =
      mset (map cs_suite_id (map snd (hash_entries (by_id r))))"
    by (simp add: Registry_all_suites_def multiset.map_comp)
  ultimately show ?thesis using registry_values_distinct_ids by (metis mset_eq_imp_distinct_iff)
qed

end
