(* ===== verification/Report.thy ===== *)
theory Report
  imports Suites
begin

text \<open>
  The self-report of \<open>src/src/report.rs\<close>: the forbidden-word screen, the two surface builders
  with their notes, the honesty assertion that panics, the top-level claim and the report.
\<close>

section \<open>Constants and the screen\<close>

definition FORBIDDEN_WORDS :: "rstr list" where
  "FORBIDDEN_WORDS = [lit ''quantum-proof'', lit ''quantum-safe'', lit ''unbreakable'']"

definition DEFAULT_CONVERSATION_SUITE :: rstr where
  "DEFAULT_CONVERSATION_SUITE = lit ''x25519-pgp-wrap-v1''"
definition REPORT_HYBRID_KEM_SUITE :: rstr where
  "REPORT_HYBRID_KEM_SUITE = lit ''x25519-mlkem768''"

definition is_honest_note :: "rstr \<Rightarrow> bool" where
  "is_honest_note note =
     (let lower = to_ascii_lowercase note
      in \<not> list_ex (\<lambda>w. str_contains w lower) FORBIDDEN_WORDS)"

section \<open>Ratchet levels and surfaces\<close>

datatype RatchetLevel = L2Oneshot | L3Epoch

fun RatchetLevel_as_str :: "RatchetLevel \<Rightarrow> rstr" where
  "RatchetLevel_as_str L2Oneshot = lit ''L2-oneshot''"
| "RatchetLevel_as_str L3Epoch = lit ''L3-epoch''"

definition RatchetLevel_from_wire :: "rstr \<Rightarrow> RatchetLevel" where
  "RatchetLevel_from_wire s = (if s = lit ''L3-epoch'' then L3Epoch else L2Oneshot)"

record SurfaceReport =
  sr_surface :: rstr
  sr_component :: rstr
  sr_active_suite :: rstr
  sr_status :: rstr
  sr_quantum_resistant :: bool
  sr_primitives :: "rstr list"
  sr_fips_refs :: "rstr list"
  sr_note :: rstr

text \<open>The two assertions; a failing one panics.\<close>

definition assert_honest :: "SurfaceReport \<Rightarrow> (unit, unit) res" where
  "assert_honest s =
     (if \<not> is_honest_note (sr_note s) then Panic
      else if sr_status s = lit ''classical'' \<and> sr_quantum_resistant s then Panic
      else Ok ())"

record Resolved =
  rs_status :: SuiteStatus
  rs_primitives :: "rstr list"
  rs_fips_refs :: "rstr list"
  rs_quantum_resistant :: bool

definition resolve_suite :: "rstr \<Rightarrow> Resolved" where
  "resolve_suite suite_id =
     (case get_suite suite_id of
        Some s \<Rightarrow> \<lparr>rs_status = cs_status s, rs_primitives = cs_primitives s,
                    rs_fips_refs = cs_fips_refs s,
                    rs_quantum_resistant = CryptoSuite_is_quantum_resistant s\<rparr>
      | None \<Rightarrow> \<lparr>rs_status = Classical, rs_primitives = [lit ''unknown''], rs_fips_refs = [],
                  rs_quantum_resistant = False\<rparr>)"

definition surface_from :: "rstr \<Rightarrow> rstr \<Rightarrow> rstr \<Rightarrow> rstr \<Rightarrow> (unit, SurfaceReport) res" where
  "surface_from surface component suite_id note =
     (let r = resolve_suite suite_id;
          report = \<lparr>sr_surface = surface, sr_component = component, sr_active_suite = suite_id,
                    sr_status = SuiteStatus_as_str (rs_status r),
                    sr_quantum_resistant = rs_quantum_resistant r,
                    sr_primitives = rs_primitives r, sr_fips_refs = rs_fips_refs r,
                    sr_note = note\<rparr>
      in and_then (assert_honest report) (\<lambda>_. Ok report))"

definition who :: "rstr \<Rightarrow> rstr" where
  "who peer = (if peer = [] then [] else lit '' with '' @ peer)"

section \<open>Notes\<close>

text \<open>The three notes of \<open>dm_ratchet_surface_for\<close>; \<open>0x2014\<close> is the em dash.\<close>

definition dm_classical_note :: "rstr \<Rightarrow> rstr \<Rightarrow> rstr \<Rightarrow> rstr" where
  "dm_classical_note w suite_id level =
     lit ''DM'' @ w @ lit '' on the CLASSICAL PGP key-wrap ('' @ suite_id @ lit '') '' @ [0x2014] @
     lit '' HNDL-exposed: recorded ciphertext is retroactively decryptable. The '' @ level @
     lit '' ratchet structure provides NO post-quantum confidentiality while the KEM is classical; negotiate the hybrid X25519+ML-KEM-768 (FIPS 203) suite to close the harvest-now-decrypt-later gap.''"

definition dm_epoch_note :: "rstr \<Rightarrow> u64 \<Rightarrow> rstr" where
  "dm_epoch_note w epoch =
     lit ''DM'' @ w @ lit '' on the running epoch-ratchet, FS + PCS, hybrid X25519+ML-KEM-768 rekey per epoch (epoch '' @
     dec (unat epoch) @
     lit ''). Each epoch re-derives the chain from a fresh hybrid-KEM secret, so a compromised key neither decrypts past epochs (forward secrecy) nor future ones once healed (post-compromise security). Secure while EITHER the X25519 or the ML-KEM-768 (FIPS 203) leg holds.''"

definition dm_oneshot_note :: "rstr \<Rightarrow> rstr" where
  "dm_oneshot_note w =
     lit ''DM'' @ w @ lit '' sealed with a stateless one-shot hybrid seal '' @ [0x2014] @
     lit '' PQ at the published prekey only, no running ratchet. Forward secrecy is limited to prekey rotation (no per-message/per-epoch rekey, no post-compromise security). Secure while EITHER the X25519 or the ML-KEM-768 (FIPS 203) leg holds; upgrade to the L3 epoch-ratchet for FS + PCS.''"

definition dm_ratchet_surface_for ::
  "rstr \<Rightarrow> RatchetLevel \<Rightarrow> u64 \<Rightarrow> rstr \<Rightarrow> (unit, SurfaceReport) res" where
  "dm_ratchet_surface_for negotiated_suite ratchet_level epoch peer =
     (let suite_id = (if negotiated_suite = [] then DEFAULT_CONVERSATION_SUITE else negotiated_suite);
          resolved = resolve_suite suite_id;
          is_hybrid = rs_quantum_resistant resolved;
          w = who peer;
          level = RatchetLevel_as_str ratchet_level;
          note = (if \<not> is_hybrid then dm_classical_note w suite_id level
                  else if ratchet_level = L3Epoch then dm_epoch_note w epoch
                  else dm_oneshot_note w)
      in surface_from (lit ''dm'') (lit ''skchat (DmRatchet)'') suite_id note)"

datatype ConversationKind = ConvDm | ConvEnvelope

definition conv_hybrid_note :: "rstr \<Rightarrow> rstr \<Rightarrow> rstr" where
  "conv_hybrid_note upper w =
     upper @ lit '' conversation'' @ w @
     lit '' negotiated the hybrid KEM: the body symmetric key is wrapped via X25519+ML-KEM-768 (PQXDH-style signed prekey) and AES-256-GCM seals the body. Negotiated suite is bound into the AEAD AAD (downgrade-lock). HNDL-resistant.''"

definition conv_classical_note :: "rstr \<Rightarrow> rstr \<Rightarrow> rstr" where
  "conv_classical_note upper w =
     upper @ lit '' conversation'' @ w @
     lit '' on the CLASSICAL PGP key-wrap (HNDL-exposed). Either the peer advertised no hybrid prekey or a downgrade occurred '' @ [0x2014] @
     lit '' recorded honestly. Hybrid engages only when both sides advertise a hybrid prekey.''"

definition conversation_surface_for ::
  "rstr \<Rightarrow> ConversationKind \<Rightarrow> rstr \<Rightarrow> (unit, SurfaceReport) res" where
  "conversation_surface_for negotiated_suite kind peer =
     (let suite_id = (if negotiated_suite = [] then DEFAULT_CONVERSATION_SUITE else negotiated_suite);
          (surface, component) =
            (case kind of
               ConvEnvelope \<Rightarrow> (lit ''envelope-payload'', lit ''skcomms (EnvelopeCrypto)'')
             | ConvDm \<Rightarrow> (lit ''dm'', lit ''skchat (ChatCrypto)''));
          resolved = resolve_suite suite_id;
          w = who peer;
          upper = to_ascii_uppercase surface;
          note = (if rs_quantum_resistant resolved then conv_hybrid_note upper w
                  else conv_classical_note upper w)
      in surface_from surface component suite_id note)"

section \<open>The claim and the report\<close>

definition ALL_QR_CLAIM :: rstr where
  "ALL_QR_CLAIM = lit ''All owned surfaces are quantum-resistant.''"
definition NOT_QR_CLAIM :: rstr where
  "NOT_QR_CLAIM = lit ''NOT quantum-resistant end-to-end. Asymmetric surfaces reported here are CLASSICAL (Shor-breakable) unless a hybrid X25519+ML-KEM-768 (FIPS 203) suite was negotiated. Symmetric/at-rest layers are quantum-acceptable. Do not claim hybrid/post-quantum protection where a surface reads classical.''"
definition SYMMETRIC_CLAIM :: rstr where
  "SYMMETRIC_CLAIM = lit ''Only symmetric surfaces present; no asymmetric PQ migration done.''"

definition count_where :: "('a \<Rightarrow> bool) \<Rightarrow> 'a list \<Rightarrow> nat" where
  "count_where p xs = length (filter p xs)"

definition honest_claim :: "SurfaceReport list \<Rightarrow> rstr" where
  "honest_claim surfaces =
     (let total = length surfaces;
          qr = count_where sr_quantum_resistant surfaces;
          any_classical = list_ex (\<lambda>s. sr_status s = lit ''classical'') surfaces
      in if 0 < total \<and> qr = total then ALL_QR_CLAIM
         else if any_classical then NOT_QR_CLAIM
         else SYMMETRIC_CLAIM)"

record Summary =
  sm_total_surfaces :: nat
  sm_quantum_resistant :: nat
  sm_classical :: nat
  sm_symmetric :: nat

record Report =
  rp_report :: rstr
  rp_surfaces :: "SurfaceReport list"
  rp_summary :: Summary
  rp_honest_claim :: rstr

fun assert_all_honest :: "SurfaceReport list \<Rightarrow> (unit, unit) res" where
  "assert_all_honest [] = Ok ()"
| "assert_all_honest (s # ss) = and_then (assert_honest s) (\<lambda>_. assert_all_honest ss)"

definition Report_from_surfaces :: "SurfaceReport list \<Rightarrow> (unit, Report) res" where
  "Report_from_surfaces surfaces =
     and_then (assert_all_honest surfaces) (\<lambda>_.
       let total_surfaces = length surfaces;
           quantum_resistant = count_where sr_quantum_resistant surfaces;
           classical = count_where (\<lambda>s. sr_status s = lit ''classical'') surfaces;
           symmetric = count_where (\<lambda>s. sr_status s = lit ''symmetric'') surfaces;
           claim = honest_claim surfaces
       in Ok \<lparr>rp_report = lit ''pqc-self-report'', rp_surfaces = surfaces,
              rp_summary = \<lparr>sm_total_surfaces = total_surfaces,
                            sm_quantum_resistant = quantum_resistant, sm_classical = classical,
                            sm_symmetric = symmetric\<rparr>,
              rp_honest_claim = claim\<rparr>)"

section \<open>Serialisation\<close>

text \<open>
  The derived \<open>Serialize\<close> of a struct: its fields in the order of their declaration (no map in
  between that would sort them). Pretty-printing is \<open>serde_json\<close>'s, the argument \<open>pretty\<close>.
\<close>

definition struct_value :: "(string \<times> json) list \<Rightarrow> json" where
  "struct_value kvs = JObj (map (\<lambda>(k, v). (lit k, v)) kvs)"

definition SurfaceReport_value :: "SurfaceReport \<Rightarrow> json" where
  "SurfaceReport_value s =
     struct_value
       [(''surface'', JStr (sr_surface s)), (''component'', JStr (sr_component s)),
        (''active_suite'', JStr (sr_active_suite s)), (''status'', JStr (sr_status s)),
        (''quantum_resistant'', JBool (sr_quantum_resistant s)),
        (''primitives'', JArr (map JStr (sr_primitives s))),
        (''fips_refs'', JArr (map JStr (sr_fips_refs s))), (''note'', JStr (sr_note s))]"

definition Summary_value :: "Summary \<Rightarrow> json" where
  "Summary_value sm =
     (let count = (\<lambda>n. JNum (PosInt (of_nat n)))
      in struct_value
           [(''total_surfaces'', count (sm_total_surfaces sm)),
            (''quantum_resistant'', count (sm_quantum_resistant sm)),
            (''classical'', count (sm_classical sm)), (''symmetric'', count (sm_symmetric sm))])"

definition Report_value :: "Report \<Rightarrow> json" where
  "Report_value r =
     struct_value
       [(''report'', JStr (rp_report r)), (''surfaces'', JArr (map SurfaceReport_value (rp_surfaces r))),
        (''summary'', Summary_value (rp_summary r)), (''honest_claim'', JStr (rp_honest_claim r))]"

definition Report_to_json :: "(json \<Rightarrow> rstr) \<Rightarrow> Report \<Rightarrow> rstr" where
  "Report_to_json pretty r = pretty (Report_value r)"

section \<open>Forbidden words do not cross a separator\<close>

lemma str_contains_separator:
  assumes "w \<noteq> []" "c \<notin> set w"
  shows "str_contains w (a @ c # b) \<longleftrightarrow> str_contains w a \<or> str_contains w b"
proof (induction a)
  case Nil
  have "take (length w) (c # b) \<noteq> w" using assms by (cases w) auto
  then show ?case using assms(1) by simp
next
  case (Cons x a)
  have "take (length w) (x # a @ c # b) = w \<longleftrightarrow> take (length w) (x # a) = w"
  proof (cases "length w \<le> length (x # a)")
    case True
    then show ?thesis by (metis append_Cons take_append append.right_neutral diff_is_0_eq' take0)
  next
    case False
    then obtain k where "length w = length (x # a) + Suc k"
      by (metis less_imp_Suc_add add_Suc_right not_le)
    then have "c \<in> set (take (length w) ((x # a) @ c # b))" by simp
    then have "take (length w) (x # a @ c # b) \<noteq> w" using assms(2) by auto
    moreover have "take (length w) (x # a) \<noteq> w" using False by (metis length_take min.cobounded1 nle_le)
    ultimately show ?thesis by blast
  qed
  with Cons show ?case by simp
qed

text \<open>Space and parentheses are in no forbidden word, in either case.\<close>

definition separator :: "nat \<Rightarrow> bool" where
  "separator c \<longleftrightarrow> c = 0x20 \<or> c = 0x28 \<or> c = 0x29"

lemma separator_forbidden:
  "separator c \<Longrightarrow> w \<in> set FORBIDDEN_WORDS \<Longrightarrow> w \<noteq> [] \<and> c \<notin> set w"
  by (auto simp: separator_def FORBIDDEN_WORDS_def lit_def)

lemma honest_separator:
  assumes "separator c"
  shows "is_honest_note (a @ c # b) \<longleftrightarrow> is_honest_note a \<and> is_honest_note b"
proof -
  have "ascii_lower c = c" using assms by (auto simp: separator_def ascii_lower_def)
  then have "str_contains w (to_ascii_lowercase (a @ c # b)) \<longleftrightarrow>
      str_contains w (to_ascii_lowercase a) \<or> str_contains w (to_ascii_lowercase b)"
    if "w \<in> set FORBIDDEN_WORDS" for w
    using separator_forbidden [OF assms that] by (simp add: to_ascii_lowercase_def str_contains_separator)
  then show ?thesis by (auto simp: is_honest_note_def list_ex_iff)
qed

lemma honest_Nil [simp]: "is_honest_note []"
  by (simp add: is_honest_note_def to_ascii_lowercase_def FORBIDDEN_WORDS_def)

lemma honest_splits:
  "is_honest_note (a @ 0x20 # b) \<longleftrightarrow> is_honest_note a \<and> is_honest_note b"
  "is_honest_note (a @ 0x28 # b) \<longleftrightarrow> is_honest_note a \<and> is_honest_note b"
  "is_honest_note (a @ 0x29 # b) \<longleftrightarrow> is_honest_note a \<and> is_honest_note b"
  by (simp_all add: honest_separator separator_def)

lemma honest_split_front:
  "is_honest_note (0x20 # b) = is_honest_note b" "is_honest_note (0x29 # b) = is_honest_note b"
  using honest_splits(1) [of "[]" b] honest_splits(3) [of "[]" b] by simp_all

lemma lit_space: "lit (CHR '' '' # s) = 0x20 # lit s"
  by (simp add: lit_def)

lemma who_honest:
  "is_honest_note (a @ who peer @ 0x20 # b) \<longleftrightarrow>
     is_honest_note a \<and> is_honest_note peer \<and> is_honest_note b"
proof (cases "peer = []")
  case True
  then show ?thesis by (simp add: who_def honest_splits)
next
  case False
  have "is_honest_note (lit ''with'')" by code_simp
  moreover have "a @ who peer @ 0x20 # b = a @ 0x20 # lit ''with'' @ 0x20 # peer @ 0x20 # b"
    using False by (simp add: who_def lit_def)
  ultimately show ?thesis by (simp add: honest_splits)
qed

text \<open>Screening a fixed text, position by position.\<close>

lemma str_contains_scan:
  "str_contains (d # w) (c # s) = ((c = d \<and> take (length w) s = w) \<or> str_contains (d # w) s)"
  by auto

lemmas screen_simps =
  is_honest_note_def FORBIDDEN_WORDS_def to_ascii_lowercase_def lit_def ascii_lower_def str_contains_scan

definition dm_classical_tail :: "RatchetLevel \<Rightarrow> rstr" where
  "dm_classical_tail lvl =
     0x20 # 0x2014 # lit '' HNDL-exposed: recorded ciphertext is retroactively decryptable. The '' @
     RatchetLevel_as_str lvl @
     lit '' ratchet structure provides NO post-quantum confidentiality while the KEM is classical; negotiate the hybrid X25519+ML-KEM-768 (FIPS 203) suite to close the harvest-now-decrypt-later gap.''"

lemma dm_classical_note_parts:
  "dm_classical_note w suite_id (RatchetLevel_as_str lvl) =
     lit ''DM'' @ w @ 0x20 # lit ''on the CLASSICAL PGP key-wrap '' @ 0x28 # suite_id @ 0x29 # dm_classical_tail lvl"
  by (simp add: dm_classical_note_def dm_classical_tail_def lit_def)

definition dm_epoch_head :: rstr where
  "dm_epoch_head = lit ''on the running epoch-ratchet, FS + PCS, hybrid X25519+ML-KEM-768 rekey per epoch (epoch''"
definition dm_epoch_tail :: rstr where
  "dm_epoch_tail = lit ''. Each epoch re-derives the chain from a fresh hybrid-KEM secret, so a compromised key neither decrypts past epochs (forward secrecy) nor future ones once healed (post-compromise security). Secure while EITHER the X25519 or the ML-KEM-768 (FIPS 203) leg holds.''"

lemma dm_epoch_note_parts:
  "dm_epoch_note w epoch =
     lit ''DM'' @ w @ 0x20 # dm_epoch_head @ 0x20 # dec (unat epoch) @ 0x29 # dm_epoch_tail"
  by (simp add: dm_epoch_note_def dm_epoch_head_def dm_epoch_tail_def lit_def)

definition dm_oneshot_tail :: rstr where
  "dm_oneshot_tail = lit ''sealed with a stateless one-shot hybrid seal '' @ [0x2014] @
     lit '' PQ at the published prekey only, no running ratchet. Forward secrecy is limited to prekey rotation (no per-message/per-epoch rekey, no post-compromise security). Secure while EITHER the X25519 or the ML-KEM-768 (FIPS 203) leg holds; upgrade to the L3 epoch-ratchet for FS + PCS.''"

lemma dm_oneshot_note_parts: "dm_oneshot_note w = lit ''DM'' @ w @ 0x20 # dm_oneshot_tail"
  by (simp add: dm_oneshot_note_def dm_oneshot_tail_def lit_def)

definition conv_hybrid_tail :: rstr where
  "conv_hybrid_tail = lit ''negotiated the hybrid KEM: the body symmetric key is wrapped via X25519+ML-KEM-768 (PQXDH-style signed prekey) and AES-256-GCM seals the body. Negotiated suite is bound into the AEAD AAD (downgrade-lock). HNDL-resistant.''"
definition conv_classical_tail :: rstr where
  "conv_classical_tail = lit ''on the CLASSICAL PGP key-wrap (HNDL-exposed). Either the peer advertised no hybrid prekey or a downgrade occurred '' @ [0x2014] @
     lit '' recorded honestly. Hybrid engages only when both sides advertise a hybrid prekey.''"

lemma conv_note_parts:
  "conv_hybrid_note upper w = (upper @ lit '' conversation'') @ w @ 0x20 # conv_hybrid_tail"
  "conv_classical_note upper w = (upper @ lit '' conversation'') @ w @ 0x20 # conv_classical_tail"
  by (simp_all add: conv_hybrid_note_def conv_classical_note_def conv_hybrid_tail_def
      conv_classical_tail_def lit_def)

lemma honest_DM: "is_honest_note (lit ''DM'')"
  by (simp add: screen_simps del: str_contains.simps(2))

lemma honest_dm_classical: "is_honest_note (lit ''on the CLASSICAL PGP key-wrap '')"
  by (simp add: screen_simps del: str_contains.simps(2))

lemma honest_dm_classical_tail: "is_honest_note (dm_classical_tail lvl)"
  by (cases lvl) (simp_all add: dm_classical_tail_def screen_simps del: str_contains.simps(2))

lemma honest_dm_epoch: "is_honest_note dm_epoch_head" "is_honest_note dm_epoch_tail"
  by (simp_all add: dm_epoch_head_def dm_epoch_tail_def screen_simps del: str_contains.simps(2))

lemma honest_dm_oneshot: "is_honest_note dm_oneshot_tail"
  by (simp add: dm_oneshot_tail_def screen_simps del: str_contains.simps(2))

lemma honest_conv: "is_honest_note conv_hybrid_tail" "is_honest_note conv_classical_tail"
  by (simp_all add: conv_hybrid_tail_def conv_classical_tail_def screen_simps del: str_contains.simps(2))

lemma honest_conv_heads:
  "is_honest_note (to_ascii_uppercase (lit ''dm'') @ lit '' conversation'')"
  "is_honest_note (to_ascii_uppercase (lit ''envelope-payload'') @ lit '' conversation'')"
  by (simp_all add: screen_simps to_ascii_uppercase_def ascii_upper_def del: str_contains.simps(2))

lemma honest_dec: "is_honest_note (dec n)"
proof -
  have "\<not> str_contains w (to_ascii_lowercase (dec n))" if w: "w \<in> set FORBIDDEN_WORDS" for w
  proof
    have "\<exists>c \<in> set w. \<not> is_digit c"
      using w by (auto simp: FORBIDDEN_WORDS_def lit_def is_digit_def)
    moreover assume "str_contains w (to_ascii_lowercase (dec n))"
    then obtain a b where "to_ascii_lowercase (dec n) = a @ w @ b" by (auto simp: str_contains_iff)
    moreover have "to_ascii_lowercase (dec n) = dec n"
      using dec_digits [of n]
      by (auto simp: to_ascii_lowercase_def ascii_lower_def is_digit_def list_all_iff intro!: map_idI)
    ultimately show False using dec_digits [of n] by (auto simp: list_all_iff)
  qed
  then show ?thesis by (auto simp: is_honest_note_def list_ex_iff)
qed

text \<open>A note is honest exactly when the texts it quotes are.\<close>

lemma dm_notes_honest:
  "is_honest_note (dm_classical_note (who peer) suite_id (RatchetLevel_as_str lvl)) \<longleftrightarrow>
     is_honest_note peer \<and> is_honest_note suite_id"
  "is_honest_note (dm_epoch_note (who peer) epoch) \<longleftrightarrow> is_honest_note peer"
  "is_honest_note (dm_oneshot_note (who peer)) \<longleftrightarrow> is_honest_note peer"
  unfolding dm_classical_note_parts dm_epoch_note_parts dm_oneshot_note_parts
  by (simp_all add: who_honest honest_splits honest_DM honest_dm_classical honest_dm_classical_tail
      honest_dm_epoch honest_dm_oneshot honest_dec)

lemma conv_notes_honest:
  assumes "is_honest_note (upper @ lit '' conversation'')"
  shows "is_honest_note (conv_hybrid_note upper (who peer)) \<longleftrightarrow> is_honest_note peer"
    "is_honest_note (conv_classical_note upper (who peer)) \<longleftrightarrow> is_honest_note peer"
  unfolding conv_note_parts by (simp_all only: who_honest assms honest_conv simp_thms)

section \<open>Surfaces\<close>

lemma resolve_suite_eq:
  "rs_status (resolve_suite i) = suite_status i"
  "rs_quantum_resistant (resolve_suite i) = is_quantum_resistant i"
  by (simp_all add: resolve_suite_def suite_status_def Registry_suite_status_def get_suite_def
      is_quantum_resistant_def Registry_is_quantum_resistant_def split: option.split)

lemma is_quantum_resistant_status:
  "is_quantum_resistant i = SuiteStatus_is_quantum_resistant (suite_status i)"
  by (simp add: suite_status_def Registry_suite_status_def is_quantum_resistant_def
      Registry_is_quantum_resistant_def CryptoSuite_is_quantum_resistant_def split: option.split)

definition surface_of :: "rstr \<Rightarrow> rstr \<Rightarrow> rstr \<Rightarrow> rstr \<Rightarrow> SurfaceReport" where
  "surface_of surface component suite_id note =
     \<lparr>sr_surface = surface, sr_component = component, sr_active_suite = suite_id,
      sr_status = SuiteStatus_as_str (suite_status suite_id),
      sr_quantum_resistant = is_quantum_resistant suite_id,
      sr_primitives = rs_primitives (resolve_suite suite_id),
      sr_fips_refs = rs_fips_refs (resolve_suite suite_id), sr_note = note\<rparr>"

lemma classical_str_iff: "SuiteStatus_as_str st = lit ''classical'' \<longleftrightarrow> st = Classical"
  by (cases st) simp_all

lemma surface_from_eq:
  "surface_from surface component suite_id note =
     (if is_honest_note note then Ok (surface_of surface component suite_id note) else Panic)"
  by (auto simp: surface_from_def assert_honest_def surface_of_def resolve_suite_eq Let_def
      classical_str_iff is_quantum_resistant_status)

lemma surface_of_honest:
  "sr_note (surface_of a b i note) = note"
  "sr_quantum_resistant (surface_of a b i note) \<longleftrightarrow> sr_status (surface_of a b i note) \<noteq> lit ''classical''"
  by (simp_all add: surface_of_def classical_str_iff is_quantum_resistant_status)
     (cases "suite_status i"; simp)

lemma surface_fromD:
  assumes "surface_from a b i note = Ok s"
  shows "is_honest_note (sr_note s) \<and> (sr_quantum_resistant s \<longleftrightarrow> sr_status s \<noteq> lit ''classical'')"
  using assms surface_of_honest [where a = a and b = b and i = i] by (auto simp: surface_from_eq split: if_splits)

lemma built_surfaceD:
  "dm_ratchet_surface_for ns level epoch peer = Ok s \<Longrightarrow>
     is_honest_note (sr_note s) \<and> (sr_quantum_resistant s \<longleftrightarrow> sr_status s \<noteq> lit ''classical'')"
  "conversation_surface_for ns kind peer = Ok s \<Longrightarrow>
     is_honest_note (sr_note s) \<and> (sr_quantum_resistant s \<longleftrightarrow> sr_status s \<noteq> lit ''classical'')"
  unfolding dm_ratchet_surface_for_def conversation_surface_for_def Let_def
  by (auto dest!: surface_fromD split: ConversationKind.splits)

lemma assert_all_honest_Ok:
  assumes "\<And>s. s \<in> set surfaces \<Longrightarrow>
    is_honest_note (sr_note s) \<and> (sr_quantum_resistant s \<longleftrightarrow> sr_status s \<noteq> lit ''classical'')"
  shows "assert_all_honest surfaces = Ok ()"
  using assms by (induction surfaces) (auto simp: assert_honest_def)

section \<open>What the builders return\<close>

text \<open>
  \<open>dm_ratchet_surface_for\<close> returns the surface of the negotiated suite (the classical wrap
  when none is named) with the registry's status, or panics; it panics exactly when the peer's
  name contains a forbidden word, or the suite is not quantum-resistant and its id contains one.
\<close>
lemma dm_surface_spec:
  "dm_ratchet_surface_for ns level epoch peer =
     (let suite = (if ns = [] then DEFAULT_CONVERSATION_SUITE else ns);
          note = (if \<not> is_quantum_resistant suite
                  then dm_classical_note (who peer) suite (RatchetLevel_as_str level)
                  else if level = L3Epoch then dm_epoch_note (who peer) epoch
                  else dm_oneshot_note (who peer))
      in if is_honest_note peer \<and> (is_quantum_resistant suite \<or> is_honest_note suite)
         then Ok (surface_of (lit ''dm'') (lit ''skchat (DmRatchet)'') suite note)
         else Panic)"
  by (simp add: dm_ratchet_surface_for_def Let_def resolve_suite_eq surface_from_eq dm_notes_honest)

text \<open>
  \<open>conversation_surface_for\<close> returns the negotiated suite's surface, with a note that claims
  the hybrid only for a quantum-resistant suite, and panics exactly when the peer's name contains
  a forbidden word.
\<close>

lemma conversation_surface_spec:
  "conversation_surface_for ns kind peer =
     (let suite = (if ns = [] then DEFAULT_CONVERSATION_SUITE else ns);
          surface = (case kind of ConvEnvelope \<Rightarrow> lit ''envelope-payload'' | ConvDm \<Rightarrow> lit ''dm'');
          component = (case kind of ConvEnvelope \<Rightarrow> lit ''skcomms (EnvelopeCrypto)''
                                  | ConvDm \<Rightarrow> lit ''skchat (ChatCrypto)'');
          note = (if is_quantum_resistant suite
                  then conv_hybrid_note (to_ascii_uppercase surface) (who peer)
                  else conv_classical_note (to_ascii_uppercase surface) (who peer))
      in if is_honest_note peer then Ok (surface_of surface component suite note) else Panic)"
  by (cases kind)
     (simp_all add: conversation_surface_for_def Let_def resolve_suite_eq surface_from_eq
        conv_notes_honest honest_conv_heads)

end
