(* ===== verification/Bindings.thy ===== *)
theory Bindings
  imports Ratchet
begin

text \<open>
  The three thin binding layers: Dart (\<open>src/src/frb_api.rs\<close>), Python (\<open>src/src/python.rs\<close>) and
  the browser (\<open>src/wasm/src/lib.rs\<close>). Each calls the core and turns the core's errors into
  their display text (a Dart exception, a \<open>ValueError\<close>, a \<open>JsValue\<close> string). \<open>Frb_Wire\<close> has
  the generated glue under the Dart layer; that of PyO3 and \<open>wasm_bindgen\<close> is macro-generated.
\<close>

section \<open>Dart\<close>

record FrbHybridKeyPair =
  frb_public_key :: bytes
  frb_private_key :: bytes

record FrbEncapResult =
  frb_ciphertext :: bytes
  frb_shared_secret :: bytes

definition frb_hybrid_keypair :: "prims \<Rightarrow> world \<Rightarrow> FrbHybridKeyPair \<times> world" where
  "frb_hybrid_keypair P w =
     (let (kp, w1) = hybrid_keypair P w
      in (\<lparr>frb_public_key = public_key kp, frb_private_key = private_key kp\<rparr>, w1))"

definition frb_hybrid_encap :: "prims \<Rightarrow> bytes \<Rightarrow> world \<Rightarrow> (rstr, FrbEncapResult) res \<times> world" where
  "frb_hybrid_encap P peer_public_key w =
     (let (r, w1) = hybrid_encap P peer_public_key w
      in (and_then (map_err kem_error_display r) (\<lambda>(ciphertext, shared).
            Ok \<lparr>frb_ciphertext = ciphertext, frb_shared_secret = shared\<rparr>), w1))"

definition frb_hybrid_decap :: "prims \<Rightarrow> bytes \<Rightarrow> bytes \<Rightarrow> (rstr, bytes) res" where
  "frb_hybrid_decap P ciphertext priv =
     and_then (map_err kem_error_display (hybrid_decap P ciphertext priv)) (\<lambda>shared. Ok shared)"

definition frb_derive_dm_message_key :: "prims \<Rightarrow> bytes \<Rightarrow> u64 \<Rightarrow> u64 \<Rightarrow> (rstr, bytes) res" where
  "frb_derive_dm_message_key P epoch_secret epoch index =
     and_then (map_err ratchet_error_display (derive_dm_message_key P epoch_secret epoch index))
       (\<lambda>key. Ok key)"

definition frb_suite_id :: rstr where "frb_suite_id = SUITE_ID"

definition frb_wire_sizes :: "u64 list" where
  "frb_wire_sizes =
     [of_nat PUBLIC_KEY_LEN, of_nat PRIVATE_KEY_LEN, of_nat CIPHERTEXT_LEN, of_nat SHARED_SECRET_LEN]"

section \<open>Python\<close>

definition py_hybrid_keypair :: "prims \<Rightarrow> world \<Rightarrow> (bytes \<times> bytes) \<times> world" where
  "py_hybrid_keypair P w =
     (let (kp, w1) = hybrid_keypair P w in ((public_key kp, private_key kp), w1))"

definition py_hybrid_encap :: "prims \<Rightarrow> bytes \<Rightarrow> world \<Rightarrow> (rstr, bytes \<times> bytes) res \<times> world" where
  "py_hybrid_encap P peer_public_key w =
     (let (r, w1) = hybrid_encap P peer_public_key w
      in (and_then (map_err kem_error_display r) (\<lambda>(ct, ss). Ok (ct, ss)), w1))"

definition py_hybrid_decap :: "prims \<Rightarrow> bytes \<Rightarrow> bytes \<Rightarrow> (rstr, bytes) res" where
  "py_hybrid_decap P ciphertext priv =
     and_then (map_err kem_error_display (hybrid_decap P ciphertext priv)) (\<lambda>ss. Ok ss)"

definition py_derive_dm_message_key :: "prims \<Rightarrow> bytes \<Rightarrow> u64 \<Rightarrow> u64 \<Rightarrow> (rstr, bytes) res" where
  "py_derive_dm_message_key P epoch_secret epoch index =
     and_then (map_err ratchet_error_display (derive_dm_message_key P epoch_secret epoch index))
       (\<lambda>key. Ok key)"

text \<open>The constants that the module initialisation registers.\<close>

definition py_module_constants :: "(rstr \<times> nat) list" where
  "py_module_constants =
     [(lit ''PUBLIC_KEY_LEN'', PUBLIC_KEY_LEN), (lit ''PRIVATE_KEY_LEN'', PRIVATE_KEY_LEN),
      (lit ''CIPHERTEXT_LEN'', CIPHERTEXT_LEN), (lit ''SHARED_SECRET_LEN'', SHARED_SECRET_LEN)]"

section \<open>The browser\<close>

record WasmKeyPair =
  wasm_public_key :: bytes
  wasm_private_key :: bytes

record WasmEncapResult =
  wasm_ciphertext :: bytes
  wasm_shared_secret :: bytes

definition wasm_hybrid_keypair :: "prims \<Rightarrow> world \<Rightarrow> WasmKeyPair \<times> world" where
  "wasm_hybrid_keypair P w =
     (let (kp, w1) = hybrid_keypair P w
      in (\<lparr>wasm_public_key = public_key kp, wasm_private_key = private_key kp\<rparr>, w1))"

definition wasm_hybrid_encap :: "prims \<Rightarrow> bytes \<Rightarrow> world \<Rightarrow> (rstr, WasmEncapResult) res \<times> world" where
  "wasm_hybrid_encap P peer_public_key w =
     (let (r, w1) = hybrid_encap P peer_public_key w
      in (and_then (map_err kem_error_display r) (\<lambda>(ciphertext, shared).
            Ok \<lparr>wasm_ciphertext = ciphertext, wasm_shared_secret = shared\<rparr>), w1))"

definition wasm_hybrid_decap :: "prims \<Rightarrow> bytes \<Rightarrow> bytes \<Rightarrow> (rstr, bytes) res" where
  "wasm_hybrid_decap P ciphertext priv =
     and_then (map_err kem_error_display (hybrid_decap P ciphertext priv)) (\<lambda>ss. Ok ss)"

definition wasm_derive_dm_message_key :: "prims \<Rightarrow> bytes \<Rightarrow> u64 \<Rightarrow> u64 \<Rightarrow> (rstr, bytes) res" where
  "wasm_derive_dm_message_key P epoch_secret epoch index =
     and_then (map_err ratchet_error_display (derive_dm_message_key P epoch_secret epoch index))
       (\<lambda>key. Ok key)"

definition wasm_suite_id :: rstr where "wasm_suite_id = SUITE_ID"

section \<open>The layers add nothing but the text of an error\<close>

lemma and_then_Ok_id: "and_then r (\<lambda>x. Ok x) = r"
  by (cases r) simp_all

lemma bindings_decap:
  "frb_hybrid_decap P ct sk = map_err kem_error_display (hybrid_decap P ct sk)"
  "py_hybrid_decap P ct sk = map_err kem_error_display (hybrid_decap P ct sk)"
  "wasm_hybrid_decap P ct sk = map_err kem_error_display (hybrid_decap P ct sk)"
  by (simp_all add: frb_hybrid_decap_def py_hybrid_decap_def wasm_hybrid_decap_def and_then_Ok_id)

lemma bindings_encap_OkD:
  "frb_hybrid_encap P pk w = (Ok r, w') \<Longrightarrow>
     hybrid_encap P pk w = (Ok (frb_ciphertext r, frb_shared_secret r), w')"
  "py_hybrid_encap P pk w = (Ok (ct, ss), w') \<Longrightarrow> hybrid_encap P pk w = (Ok (ct, ss), w')"
  "wasm_hybrid_encap P pk w = (Ok q, w') \<Longrightarrow>
     hybrid_encap P pk w = (Ok (wasm_ciphertext q, wasm_shared_secret q), w')"
  by (auto simp: frb_hybrid_encap_def py_hybrid_encap_def wasm_hybrid_encap_def and_then_eq_Ok
      split: prod.splits)

end
