(* ===== verification/Services_Correct.thy ===== *)
theory Services_Correct
  imports Anon_Queue Report Bindings Keys_Correct
begin

text \<open>
  Correctness of queue addressing and its authenticator, of the suite registry, of the
  self-report and of the language bindings.
\<close>

section \<open>Anonymous queues\<close>

text \<open>
  C26: the complete behaviour of \<open>new_queue_pair\<close>: the recipient id is the first 16-byte block of
  the entropy, the sender id the first later block that differs from it, so the two are never
  equal; the redraw loop fails to return only on entropy that repeats one block for ever.
\<close>
theorem queue_pair_spec:
  "new_queue_pair w =
    (if \<forall>k. id_block (entropy w) k = id_block (entropy w) 0 then None
     else let k = (LEAST k. id_block (entropy w) k \<noteq> id_block (entropy w) 0)
          in Some ((id_block (entropy w) 0, id_block (entropy w) k),
                   w\<lparr>entropy := sdrop (16 * Suc k) (entropy w)\<rparr>))"
proof (cases "\<forall>k. id_block (entropy w) k = id_block (entropy w) 0")
  case True
  have "new_queue_pair w = None"
  proof (rule ccontr)
    assume "new_queue_pair w \<noteq> None"
    then obtain y where y: "new_queue_pair w = Some y" by (rule not_None_eq [THEN iffD1, THEN exE])
    obtain r s w' where "y = ((r, s), w')" by (metis surj_pair)
    with y have "new_queue_pair w = Some ((r, s), w')" by (simp only:)
    then have "\<exists>k. id_block (entropy w) k \<noteq> id_block (entropy w) 0"
      by (rule new_queue_pair_SomeD)
    with True show False by blast
  qed
  then show ?thesis unfolding if_P [OF True] .
next
  case False
  define k where "k = (LEAST k. id_block (entropy w) k \<noteq> id_block (entropy w) 0)"
  have k: "id_block (entropy w) k \<noteq> id_block (entropy w) 0"
    unfolding k_def by (rule LeastI_ex) (use False in blast)
  have least: "\<forall>j. 1 \<le> j \<and> j < k \<longrightarrow> id_block (entropy w) j = id_block (entropy w) 0"
  proof (intro allI impI)
    fix j
    assume "1 \<le> j \<and> j < k"
    then have "j < (LEAST k. id_block (entropy w) k \<noteq> id_block (entropy w) 0)" by (simp only: k_def)
    from not_less_Least [OF this] show "id_block (entropy w) j = id_block (entropy w) 0"
      by (simp only: not_not)
  qed
  have "new_queue_pair w = Some ((id_block (entropy w) 0, id_block (entropy w) k),
      w\<lparr>entropy := sdrop (16 * Suc k) (entropy w)\<rparr>)"
    using least k by (rule new_queue_pair_stops)
  then show ?thesis unfolding if_not_P [OF False] Let_def k_def .
qed

text \<open>
  C38: an address is issued exactly for a non-empty relay without a slash and a 16-byte sender id,
  and \<open>decode_aqid\<close> gives both back.
\<close>
theorem aqid_roundtrip:
  assumes "b64url_laws C"
  shows "if relay \<noteq> [] \<and> 0x2F \<notin> set relay \<and> length i = 16
    then \<exists>s. encode_aqid C relay i = Ok s \<and> decode_aqid C s = Ok (relay, i)
    else \<exists>e. encode_aqid C relay i = Err e"
proof (cases "relay \<noteq> [] \<and> 0x2F \<notin> set relay \<and> length i = 16")
  case True
  then have e: "encode_aqid C relay i = Ok (AQID_SCHEME @ relay @ 0x2F # b64url_encode C i)"
    by (simp add: encode_aqid_def Let_def)
  show ?thesis using True decode_encode_aqid [OF assms e] e by simp
qed (auto simp: encode_aqid_def)

theorem aqid_roundtrip_witness:
  "\<exists>s. encode_aqid sample_codecs (lit ''relay.example:443'') (replicate 16 7) = Ok s \<and>
     decode_aqid sample_codecs s = Ok (lit ''relay.example:443'', replicate 16 7)"
  using aqid_roundtrip [OF sample_codecs_laws(2), of "lit ''relay.example:443''" "replicate 16 7"]
  by (simp add: lit_def)

text \<open>
  \<open>decode_aqid\<close> never panics, and whatever it accepts has the address form with a non-empty
  relay free of slashes and an id part that decodes to exactly 16 bytes.
\<close>

lemma aqid_decode_accepts:
  "case decode_aqid C s of
     Ok (relay, i) \<Rightarrow> relay \<noteq> [] \<and> 0x2F \<notin> set relay \<and> length i = 16 \<and>
       (\<exists>b64. s = AQID_SCHEME @ relay @ 0x2F # b64 \<and> b64url_decode C b64 = Inr i)
   | Err e \<Rightarrow> True
   | Panic \<Rightarrow> False"
proof (cases "decode_aqid C s")
  case (Ok ri)
  obtain relay i where ri: "ri = (relay, i)" by fastforce
  with Ok have "decode_aqid C s = Ok (relay, i)" by simp
  then obtain b64 where "s = AQID_SCHEME @ relay @ 0x2F # b64" "relay \<noteq> []" "0x2F \<notin> set relay"
    "b64url_decode C b64 = Inr i" "length i = 16" by (rule decode_aqid_OkD)
  then show ?thesis unfolding Ok ri by auto
next
  case Panic
  have "ok_or e x \<noteq> Panic" for e :: anon_queue_error and x :: "'a option" by (cases x) simp_all
  then show ?thesis
    using Panic by (auto simp: decode_aqid_def and_then_eq_Panic split: if_splits sum.splits)
qed simp

text \<open>
  \<open>verify_tag\<close> accepts a tag exactly when it is the authenticator of nonce and message under
  the secret; but since the two are only concatenated, a tag also verifies for any other cut of
  the same bytes into nonce and message.
\<close>

lemma verify_tag_accepts:
  assumes "ct_eq_law P"
  shows "verify_tag P secret message nonce tag \<longleftrightarrow> tag = auth_tag P secret message nonce"
    and "verify_tag P secret (x @ message) nonce (auth_tag P secret message (nonce @ x))"
  by (auto simp: verify_tag_def ct_eq_iff [OF assms] auth_tag_def)

section \<open>The registry\<close>

text \<open>The registry after registering suites one after the other, from the empty one on.\<close>

definition registered :: "CryptoSuite list \<Rightarrow> Registry" where
  "registered ss = fold (\<lambda>s r. snd (Registry_register s r)) ss Registry_empty"

lemma registered_wf: "registry_wf (registered ss)"
proof -
  have "registry_wf (fold (\<lambda>s r. snd (Registry_register s r)) ss r)" if "registry_wf r" for r
    using that by (induction ss arbitrary: r) (simp_all add: registry_wf_register)
  then show ?thesis using registry_wf_empty by (simp add: registered_def)
qed

text \<open>The last suite registered under an id.\<close>

definition last_registered :: "CryptoSuite list \<Rightarrow> rstr \<Rightarrow> CryptoSuite option" where
  "last_registered ss i = find (\<lambda>s. cs_suite_id s = i) (rev ss)"

lemma last_registered_SomeD:
  "last_registered ss i = Some s \<Longrightarrow> cs_suite_id s = i \<and> s \<in> set ss"
  using nth_mem [of _ "rev ss"] unfolding last_registered_def find_Some_iff by (metis length_rev set_rev)

lemma registered_get: "Registry_get_suite (registered ss) i = last_registered ss i"
proof (induction ss rule: rev_induct)
  case Nil
  then show ?case
    by (simp add: registered_def last_registered_def Registry_get_suite_def Registry_empty_def)
next
  case (snoc s ss)
  then show ?case by (simp add: registered_def last_registered_def register_get)
qed

lemma registered_all:
  "set (Registry_all_suites (registered ss)) = {s. last_registered ss (cs_suite_id s) = Some s}"
proof -
  have "fmlookup (by_id (registered ss)) i = last_registered ss i" for i
    using registered_get [of ss i] by (simp add: Registry_get_suite_def)
  then have "set (Registry_all_suites (registered ss)) = {s. \<exists>i. last_registered ss i = Some s}"
    by (simp only: set_all_suites)
  then show ?thesis using last_registered_SomeD by fast
qed

lemma registered_ids:
  "cs_suite_id ` {s. last_registered ss (cs_suite_id s) = Some s} = cs_suite_id ` set ss"
proof (intro equalityI image_subsetI)
  fix s
  assume "s \<in> set ss"
  then have "last_registered ss (cs_suite_id s) \<noteq> None" by (auto simp: last_registered_def find_None_iff)
  then obtain t where t: "last_registered ss (cs_suite_id s) = Some t" by auto
  then have e: "cs_suite_id t = cs_suite_id s" using last_registered_SomeD by blast
  then show "cs_suite_id s \<in> cs_suite_id ` {s. last_registered ss (cs_suite_id s) = Some s}"
    using t by (intro image_eqI [of _ _ t]) simp_all
qed (use last_registered_SomeD in blast)

text \<open>
  C39: the registry refines a map in which the last registration under an id wins. After
  registering any suites in turn (an id more than once, perhaps), a lookup finds the last suite
  registered under the id; the listing has exactly these suites, as many as there are different
  ids, the active listing those that are active; and the seeded registry is the one of the
  three canonical suites.
\<close>
theorem registry_last_write_wins:
  "let r = registered ss
   in (\<forall>i. Registry_get_suite r i = last_registered ss i) \<and>
      set (Registry_all_suites r) = {s. last_registered ss (cs_suite_id s) = Some s} \<and>
      set (Registry_active_suites r) = {s. last_registered ss (cs_suite_id s) = Some s \<and> cs_active s} \<and>
      length (Registry_all_suites r) = card (cs_suite_id ` set ss) \<and>
      Registry_seeded = registered [pgp_wrap_suite, aes256_gcm_suite, mlkem_suite]"
proof -
  have "length (Registry_all_suites (registered ss)) = card (cs_suite_id ` set ss)"
    using distinct_card [OF distinct_all_suites [OF registered_wf [of ss]]] registered_ids [of ss]
    by (simp add: registered_all)
  moreover have "Registry_seeded = registered [pgp_wrap_suite, aes256_gcm_suite, mlkem_suite]"
    by (simp add: registered_def registry_seeded_eq)
  ultimately show ?thesis
    by (auto simp: registered_get registered_all Registry_active_suites_def)
qed

text \<open>
  C37: the listing is the registered suites, each id once, active ones first, then by status and
  id; and it is the same list whatever order the hash map yields its values in.
\<close>
theorem all_suites_stable:
  assumes "registry_wf r" "mset vs = mset (map snd (hash_entries (by_id r)))"
  shows "sort_key suite_sort_key vs = Registry_all_suites r \<and>
    sorted (map suite_sort_key (Registry_all_suites r)) \<and>
    distinct (map cs_suite_id (Registry_all_suites r)) \<and>
    set (Registry_all_suites r) = {s. \<exists>i. Registry_get_suite r i = Some s}"
  using all_suites_any_order [OF assms] distinct_all_suites [OF assms(1)] set_all_suites [of r]
  by (simp add: Registry_get_suite_def Registry_all_suites_def)

theorem all_suites_stable_witness:
  "sort_key suite_sort_key (rev (map snd (hash_entries (by_id Registry_seeded)))) =
     Registry_all_suites Registry_seeded"
  by (rule conjunct1 [OF all_suites_stable [OF registry_wf_seeded]]) simp

section \<open>The self-report\<close>

text \<open>
  C35: every surface the builders return has a note without forbidden words, carries the
  registry's status, and is never both classical and quantum-resistant; so a report over such
  surfaces is built without a panic, counts each surface as quantum-resistant or classical, and
  claims full resistance exactly when it has surfaces and none of them is classical.
\<close>
theorem report_of_built_surfaces:
  assumes "\<forall>s \<in> set surfaces.
      (\<exists>ns level epoch peer. dm_ratchet_surface_for ns level epoch peer = Ok s) \<or>
      (\<exists>ns kind peer. conversation_surface_for ns kind peer = Ok s)"
  shows "\<exists>r. Report_from_surfaces surfaces = Ok r \<and> rp_surfaces r = surfaces \<and>
    sm_quantum_resistant (rp_summary r) + sm_classical (rp_summary r) = length surfaces \<and>
    rp_honest_claim r =
      (if surfaces = [] then SYMMETRIC_CLAIM
       else if sm_classical (rp_summary r) = 0 then ALL_QR_CLAIM else NOT_QR_CLAIM)"
proof -
  have built: "is_honest_note (sr_note s) \<and> (sr_quantum_resistant s \<longleftrightarrow> sr_status s \<noteq> lit ''classical'')"
    if "s \<in> set surfaces" for s
    using assms that by (auto simp: built_surfaceD)
  have honest: "assert_all_honest surfaces = Ok ()"
    using built by (rule assert_all_honest_Ok)
  have "filter sr_quantum_resistant surfaces = filter (\<lambda>s. \<not> sr_status s = lit ''classical'') surfaces"
    by (rule filter_cong) (use built in auto)
  then have count: "count_where sr_quantum_resistant surfaces +
      count_where (\<lambda>s. sr_status s = lit ''classical'') surfaces = length surfaces"
    using sum_length_filter_compl [of "\<lambda>s. sr_status s = lit ''classical''" surfaces]
    by (simp add: count_where_def)
  have "list_ex (\<lambda>s. sr_status s = lit ''classical'') surfaces \<longleftrightarrow>
      count_where (\<lambda>s. sr_status s = lit ''classical'') surfaces \<noteq> 0"
    by (simp add: count_where_def list_ex_iff filter_empty_conv)
  then show ?thesis
    using count by (auto simp: Report_from_surfaces_def honest Let_def honest_claim_def)
qed

theorem report_of_built_surfaces_witness:
  "\<exists>r s. dm_ratchet_surface_for [] L3Epoch 0 (lit ''bob'') = Ok s \<and> Report_from_surfaces [s] = Ok r \<and>
     rp_honest_claim r = (if [s] = [] then SYMMETRIC_CLAIM
       else if sm_classical (rp_summary r) = 0 then ALL_QR_CLAIM else NOT_QR_CLAIM)"
proof -
  have "is_honest_note (lit ''bob'')" "is_honest_note DEFAULT_CONVERSATION_SUITE"
    by (simp_all add: screen_simps DEFAULT_CONVERSATION_SUITE_def del: str_contains.simps(2))
  then have "\<exists>s. dm_ratchet_surface_for [] L3Epoch 0 (lit ''bob'') = Ok s"
    by (cases "is_quantum_resistant DEFAULT_CONVERSATION_SUITE")
       (simp_all add: dm_ratchet_surface_for_def Let_def resolve_suite_eq surface_from_eq
          dm_notes_honest dm_notes_honest(1) [where lvl = L3Epoch, simplified])
  then obtain s where s: "dm_ratchet_surface_for [] L3Epoch 0 (lit ''bob'') = Ok s" ..
  have "\<forall>t \<in> set [s]. (\<exists>ns level epoch peer. dm_ratchet_surface_for ns level epoch peer = Ok t) \<or>
      (\<exists>ns kind peer. conversation_surface_for ns kind peer = Ok t)"
    using s by (metis empty_iff empty_set set_ConsD)
  from report_of_built_surfaces [OF this] s show ?thesis by blast
qed

section \<open>Bindings\<close>

text \<open>
  A wrong-length key is the same error text in every binding, and message-key derivation
  agrees in all of them: the core's key, or its error's text for a secret that is not 32 bytes.
\<close>

lemma bindings_agree:
  "frb_derive_dm_message_key P es e i = py_derive_dm_message_key P es e i \<and>
   wasm_derive_dm_message_key P es e i = py_derive_dm_message_key P es e i \<and>
   py_derive_dm_message_key P es e i =
     (if length es = 32
      then Ok (case dm_message_kdf_input es e i of (salt, ikm, info) \<Rightarrow> hkdf_sha256 P salt ikm info)
      else Err (lit ''epoch_secret must be 32 bytes, got '' @ dec (length es)))"
  by (simp add: frb_derive_dm_message_key_def py_derive_dm_message_key_def
      wasm_derive_dm_message_key_def derive_dm_message_key_eq derive_dm_message_key_bad_len
      dec.simps lit_def)

end
