(* ===== verification/Utf8.thy ===== *)
theory Utf8
  imports Prelude
begin

text \<open>
  UTF-8 as the standard library has it: \<open>String::into_bytes\<close> and the strict \<open>String::from_utf8\<close>,
  which accepts exactly the encodings of sequences of scalar values.
\<close>

section \<open>Encoding\<close>

definition byte :: "nat \<Rightarrow> u8" where
  "byte n = of_nat n"

definition utf8_char :: "nat \<Rightarrow> bytes" where
  "utf8_char c =
     (if c < 0x80 then [byte c]
      else if c < 0x800 then [byte (0xC0 + c div 64), byte (0x80 + c mod 64)]
      else if c < 0x10000
      then [byte (0xE0 + c div 4096), byte (0x80 + c div 64 mod 64), byte (0x80 + c mod 64)]
      else [byte (0xF0 + c div 262144), byte (0x80 + c div 4096 mod 64),
            byte (0x80 + c div 64 mod 64), byte (0x80 + c mod 64)])"

definition into_bytes :: "rstr \<Rightarrow> bytes" where
  "into_bytes s = concat (map utf8_char s)"

section \<open>Decoding\<close>

text \<open>
  The length and the code point that the bytes at the front stand for, if they stand for any; a
  character is accepted when it is a scalar value and the bytes are its shortest encoding.
\<close>

definition tail_bits :: "bytes \<Rightarrow> nat \<Rightarrow> nat" where
  "tail_bits bs i = unat (bs ! i) - 0x80"

definition utf8_candidate :: "bytes \<Rightarrow> nat \<times> nat" where
  "utf8_candidate bs =
     (let b = unat (hd bs)
      in if b < 0xC0 \<or> length bs < 2 then (1, b)
         else if b < 0xE0 \<or> length bs < 3 then (2, (b - 0xC0) * 64 + tail_bits bs 1)
         else if b < 0xF0 \<or> length bs < 4
         then (3, (b - 0xE0) * 4096 + tail_bits bs 1 * 64 + tail_bits bs 2)
         else (4, (b - 0xF0) * 262144 + tail_bits bs 1 * 4096 + tail_bits bs 2 * 64 + tail_bits bs 3))"

definition read_utf8 :: "bytes \<Rightarrow> (nat \<times> bytes) option" where
  "read_utf8 bs =
     (let (n, c) = utf8_candidate bs
      in if scalar_value c \<and> utf8_char c = take n bs then Some (c, drop n bs) else None)"

lemma utf8_candidate_pos: "0 < fst (utf8_candidate bs)"
  by (simp add: utf8_candidate_def Let_def)

lemma read_utf8_shorter: "read_utf8 (b # bs) = Some (c, rest) \<Longrightarrow> length rest < Suc (length bs)"
  using utf8_candidate_pos [of "b # bs"]
  by (auto simp: read_utf8_def split: prod.splits if_splits)

function from_utf8 :: "bytes \<Rightarrow> rstr option" where
  "from_utf8 [] = Some []"
| "from_utf8 (b # bs) =
     (case read_utf8 (b # bs) of
        None \<Rightarrow> None
      | Some (c, rest) \<Rightarrow> map_option (Cons c) (from_utf8 rest))"
  by pat_completeness auto

termination from_utf8
  by (relation "measure length") (auto dest: read_utf8_shorter)

section \<open>The two are inverse\<close>

lemma unat_byte [simp]: "n < 256 \<Longrightarrow> unat (byte n) = n"
  by (simp add: byte_def unat_of_nat_small)

lemma base64_digits:
  "c div 4096 * 4096 + c div 64 mod 64 * 64 + c mod 64 = (c :: nat)"
  "c div 262144 * 262144 + c div 4096 mod 64 * 4096 + c div 64 mod 64 * 64 + c mod 64 = c"
proof -
  have d: "x div 64 * 64 + x mod 64 = x" for x :: nat by (rule div_mult_mod_eq)
  have q: "c div 64 div 64 = c div 4096" "c div 4096 div 64 = c div 262144"
    by (simp_all add: div_mult2_eq [symmetric])
  show 3: "c div 4096 * 4096 + c div 64 mod 64 * 64 + c mod 64 = c"
    using d [of c] d [of "c div 64"] unfolding q by linarith
  show "c div 262144 * 262144 + c div 4096 mod 64 * 4096 + c div 64 mod 64 * 64 + c mod 64 = c"
    using 3 d [of "c div 4096"] unfolding q by linarith
qed

lemma utf8_candidate_char:
  assumes "scalar_value c"
  shows "utf8_candidate (utf8_char c @ rest) = (length (utf8_char c), c)"
proof -
  have c: "c \<le> 0x10FFFF" using assms by (auto simp: scalar_value_def)
  have m: "x mod 64 < 128" for x :: nat
    using mod_less_divisor [of 64 x] by linarith
  note eval = utf8_char_def utf8_candidate_def tail_bits_def Let_def
  consider "c < 0x80" | "0x80 \<le> c" "c < 0x800" | "0x800 \<le> c" "c < 0x10000" | "0x10000 \<le> c" by linarith
  then show ?thesis
  proof cases
    case 1
    then show ?thesis by (simp add: eval)
  next
    case 2
    define h l where "h = c div 64" and "l = c mod 64"
    have "h < 32" "l < 128" using 2 m by (simp_all add: h_def l_def)
    moreover have "utf8_char c = [byte (0xC0 + h), byte (0x80 + l)]"
      using 2 by (simp add: utf8_char_def h_def l_def)
    moreover have "h * 64 + l = c" by (simp add: h_def l_def)
    ultimately show ?thesis by (simp add: utf8_candidate_def tail_bits_def)
  next
    case 3
    define h k l where "h = c div 4096" and "k = c div 64 mod 64" and "l = c mod 64"
    have "h < 16" "k < 128" "l < 128" using 3 m by (simp_all add: h_def k_def l_def)
    moreover have "utf8_char c = [byte (0xE0 + h), byte (0x80 + k), byte (0x80 + l)]"
      using 3 by (simp add: utf8_char_def h_def k_def l_def)
    moreover have "h * 4096 + k * 64 + l = c" unfolding h_def k_def l_def by (rule base64_digits)
    ultimately show ?thesis by (simp add: utf8_candidate_def tail_bits_def)
  next
    case 4
    define h j k l where "h = c div 262144" and "j = c div 4096 mod 64"
      and "k = c div 64 mod 64" and "l = c mod 64"
    have "h < 8" "j < 128" "k < 128" "l < 128" using c m by (simp_all add: h_def j_def k_def l_def)
    moreover have "utf8_char c = [byte (0xF0 + h), byte (0x80 + j), byte (0x80 + k), byte (0x80 + l)]"
      using 4 by (simp add: utf8_char_def h_def j_def k_def l_def)
    moreover have "h * 262144 + j * 4096 + k * 64 + l = c"
      unfolding h_def j_def k_def l_def by (rule base64_digits)
    ultimately show ?thesis by (simp add: utf8_candidate_def tail_bits_def)
  qed
qed

lemma read_utf8_char: "scalar_value c \<Longrightarrow> read_utf8 (utf8_char c @ rest) = Some (c, rest)"
  by (simp add: read_utf8_def utf8_candidate_char)

lemma read_utf8_SomeD: "read_utf8 bs = Some (c, rest) \<Longrightarrow> scalar_value c \<and> bs = utf8_char c @ rest"
  by (auto simp: read_utf8_def split: prod.splits if_splits)

lemma utf8_char_nonempty [simp]: "utf8_char c \<noteq> []"
  by (simp add: utf8_char_def)

lemma from_utf8_char:
  assumes "scalar_value c"
  shows "from_utf8 (utf8_char c @ rest) = map_option (Cons c) (from_utf8 rest)"
proof -
  obtain b bs where b: "utf8_char c @ rest = b # bs" by (cases "utf8_char c") auto
  then show ?thesis using read_utf8_char [OF assms, of rest] by simp
qed

lemma from_utf8_into_bytes: "valid_str s \<Longrightarrow> from_utf8 (into_bytes s) = Some s"
  by (induction s) (simp_all add: into_bytes_def valid_str_def from_utf8_char)

lemma from_utf8_SomeD: "from_utf8 bs = Some s \<Longrightarrow> valid_str s \<and> bs = into_bytes s"
proof (induction bs arbitrary: s rule: from_utf8.induct)
  case (2 b bs)
  from "2.prems" obtain c rest t where r: "read_utf8 (b # bs) = Some (c, rest)"
    and t: "from_utf8 rest = Some t" "s = c # t" by (auto split: option.splits)
  from "2.IH" [OF r refl t(1)] read_utf8_SomeD [OF r] t(2)
  show ?case by (simp add: into_bytes_def valid_str_def)
qed (simp add: into_bytes_def valid_str_def)

lemma from_utf8_iff: "from_utf8 bs = Some s \<longleftrightarrow> valid_str s \<and> bs = into_bytes s"
  using from_utf8_SomeD from_utf8_into_bytes by blast

end
