(* ===== verification/Sse_Codec.thy ===== *)
theory Sse_Codec
  imports Utf8 Bindings
begin

text \<open>
  The serialisation layer of the Dart glue (\<open>SseDecode\<close> and \<open>SseEncode\<close> in
  \<open>src/src/frb_generated.rs\<close>). A decoder works on the bytes the cursor has left and panics
  where the code's \<open>unwrap\<close> does; \<open>le\<close> says whether the target is little-endian
  (\<open>NativeEndian\<close>). The contract of a codec and its two combinations are locales.
\<close>

type_synonym 'a decoder = "bytes \<Rightarrow> (unit, 'a \<times> bytes) res"

section \<open>The contract of a codec\<close>

locale sse_codec =
  fixes enc :: "'a \<Rightarrow> bytes" and dec :: "'a decoder" and valid :: "'a \<Rightarrow> bool"
  assumes dec_enc: "valid x \<Longrightarrow> dec (enc x @ rest) = Ok (x, rest)"
    and dec_sound: "dec bs = Ok (x, rest) \<Longrightarrow> valid x \<and> bs = enc x @ rest"
    and dec_no_err: "dec bs \<noteq> Err e"
begin

lemma dec_iff: "dec bs = Ok (x, rest) \<longleftrightarrow> valid x \<and> bs = enc x @ rest"
  using dec_enc dec_sound by blast

lemma enc_prefix_free:
  assumes "valid x" "valid y" "enc x @ r = enc y @ r'"
  shows "x = y \<and> r = r'"
proof -
  have "Ok (x, r) = dec (enc x @ r)" by (rule dec_enc [OF assms(1), symmetric])
  also have "\<dots> = dec (enc y @ r')" by (simp only: assms(3))
  also have "\<dots> = Ok (y, r')" by (rule dec_enc [OF assms(2)])
  finally show ?thesis by simp
qed

lemma dec_Panic_iff: "dec bs = Panic \<longleftrightarrow> (\<forall>x rest. valid x \<longrightarrow> bs \<noteq> enc x @ rest)"
proof
  assume panic: "dec bs = Panic"
  show "\<forall>x rest. valid x \<longrightarrow> bs \<noteq> enc x @ rest"
  proof (intro allI impI notI)
    fix x rest
    assume "valid x" "bs = enc x @ rest"
    then have "dec bs = Ok (x, rest)" by (simp only: dec_enc)
    with panic show False by simp
  qed
next
  assume none: "\<forall>x rest. valid x \<longrightarrow> bs \<noteq> enc x @ rest"
  show "dec bs = Panic"
  proof (cases "dec bs")
    case (Ok p)
    then have "dec bs = Ok (fst p, snd p)" by simp
    from dec_sound [OF this] none show ?thesis by blast
  next
    case (Err e)
    with dec_no_err show ?thesis by blast
  qed
qed

text \<open>A message that has to be one value and nothing after it.\<close>

lemma read_all:
  assumes "\<And>rest. fin rest \<longleftrightarrow> rest = []"
  shows "(\<exists>x. valid x \<and> msg = enc x \<and>
        and_then (dec msg) (\<lambda>(x, rest). if fin rest then k x else Panic) = k x) \<or>
      (\<forall>x. valid x \<longrightarrow> msg \<noteq> enc x) \<and>
        and_then (dec msg) (\<lambda>(x, rest). if fin rest then k x else Panic) = Panic"
proof (cases "dec msg")
  case (Ok p)
  then have d: "dec msg = Ok (fst p, snd p)" by simp
  note s = dec_sound [OF d]
  show ?thesis
  proof (cases "snd p = []")
    case True
    then show ?thesis using s d assms by (intro disjI1 exI [of _ "fst p"]) simp
  next
    case False
    have "msg \<noteq> enc x" if "valid x" for x
      using enc_prefix_free [of x "fst p" "[]" "snd p"] that s False by auto
    then show ?thesis using d False assms by (cases p) auto
  qed
next
  case Panic
  then show ?thesis using dec_Panic_iff [of msg] by auto
qed (simp add: dec_no_err)

end

section \<open>One value after the other\<close>

definition decode_pair :: "'a decoder \<Rightarrow> 'b decoder \<Rightarrow> ('a \<times> 'b) decoder" where
  "decode_pair da db bs =
     and_then (da bs) (\<lambda>(x, bs1). and_then (db bs1) (\<lambda>(y, bs2). Ok ((x, y), bs2)))"

locale sse_pair = fst_codec: sse_codec enc_a dec_a valid_a + snd_codec: sse_codec enc_b dec_b valid_b
  for enc_a :: "'a \<Rightarrow> bytes" and dec_a valid_a and enc_b :: "'b \<Rightarrow> bytes" and dec_b valid_b
begin

lemma pair_codec:
  "sse_codec (\<lambda>(x, y). enc_a x @ enc_b y) (decode_pair dec_a dec_b) (\<lambda>(x, y). valid_a x \<and> valid_b y)"
proof
  fix x :: "'a \<times> 'b" and rest
  assume "case x of (x, y) \<Rightarrow> valid_a x \<and> valid_b y"
  then show "decode_pair dec_a dec_b ((case x of (x, y) \<Rightarrow> enc_a x @ enc_b y) @ rest) = Ok (x, rest)"
    by (auto simp: decode_pair_def fst_codec.dec_enc snd_codec.dec_enc)
next
  fix bs x rest
  assume "decode_pair dec_a dec_b bs = Ok (x, rest)"
  then show "(case x of (x, y) \<Rightarrow> valid_a x \<and> valid_b y) \<and>
      bs = (case x of (x, y) \<Rightarrow> enc_a x @ enc_b y) @ rest"
    by (auto simp: decode_pair_def and_then_eq_Ok dest!: fst_codec.dec_sound snd_codec.dec_sound)
next
  fix bs e
  show "decode_pair dec_a dec_b bs \<noteq> Err e"
    by (auto simp: decode_pair_def and_then_eq_Err fst_codec.dec_no_err snd_codec.dec_no_err)
qed

end

section \<open>Integers\<close>

definition read_exact :: "nat \<Rightarrow> bytes decoder" where
  "read_exact n bs = (if length bs < n then Panic else Ok (take n bs, drop n bs))"

definition native :: "bool \<Rightarrow> bytes \<Rightarrow> bytes" where
  "native le be = (if le then rev be else be)"

definition sse_encode_u8 :: "u8 \<Rightarrow> bytes" where
  "sse_encode_u8 b = [b]"

definition sse_decode_u8 :: "u8 decoder" where
  "sse_decode_u8 bs = and_then (read_exact 1 bs) (\<lambda>(x, bs1). Ok (hd x, bs1))"

definition sse_encode_u64 :: "bool \<Rightarrow> u64 \<Rightarrow> bytes" where
  "sse_encode_u64 le w = native le (u64_be w)"

definition sse_decode_u64 :: "bool \<Rightarrow> u64 decoder" where
  "sse_decode_u64 le bs = and_then (read_exact 8 bs) (\<lambda>(x, bs1). Ok (u64_of_be (native le x), bs1))"

text \<open>An \<open>i32\<close> is its 32 bits, read with \<open>sint\<close>.\<close>

definition sse_encode_i32 :: "bool \<Rightarrow> 32 word \<Rightarrow> bytes" where
  "sse_encode_i32 le w = native le (u32_be w)"

definition sse_decode_i32 :: "bool \<Rightarrow> (32 word) decoder" where
  "sse_decode_i32 le bs = and_then (read_exact 4 bs) (\<lambda>(x, bs1). Ok (u32_of_be (native le x), bs1))"

definition sse_encode_bool :: "bool \<Rightarrow> bytes" where
  "sse_encode_bool b = [if b then 1 else 0]"

definition sse_decode_bool :: "bool decoder" where
  "sse_decode_bool bs = and_then (read_exact 1 bs) (\<lambda>(x, bs1). Ok (hd x \<noteq> 0, bs1))"

definition sse_encode_unit :: "unit \<Rightarrow> bytes" where
  "sse_encode_unit u = []"

definition sse_decode_unit :: "unit decoder" where
  "sse_decode_unit bs = Ok ((), bs)"

lemma native_native [simp]: "native le (native le bs) = bs"
  by (simp add: native_def)

lemma length_native [simp]: "length (native le bs) = length bs"
  by (simp add: native_def)

lemma read_exact_append: "length xs = n \<Longrightarrow> read_exact n (xs @ rest) = Ok (xs, rest)"
  by (simp add: read_exact_def)

lemma read_exact_eq_Ok: "read_exact n bs = Ok (xs, rest) \<longleftrightarrow> bs = xs @ rest \<and> length xs = n"
  by (auto simp: read_exact_def)

lemma read_exact_no_err [simp]: "read_exact n bs \<noteq> Err e"
  by (simp add: read_exact_def)

lemmas read_simps = and_then_eq_Ok and_then_eq_Err read_exact_append read_exact_eq_Ok length_Suc_conv

interpretation u8: sse_codec sse_encode_u8 sse_decode_u8 "\<lambda>_. True"
proof
  show "sse_decode_u8 (sse_encode_u8 x @ rest) = Ok (x, rest)" for x rest
    by (simp add: sse_encode_u8_def sse_decode_u8_def read_exact_def)
qed (auto simp: sse_encode_u8_def sse_decode_u8_def read_simps)

interpretation u64: sse_codec "sse_encode_u64 le" "sse_decode_u64 le" "\<lambda>_. True" for le
  by unfold_locales (auto simp: sse_encode_u64_def sse_decode_u64_def read_simps u64_be_of_be)

interpretation i32: sse_codec "sse_encode_i32 le" "sse_decode_i32 le" "\<lambda>_. True" for le
  by unfold_locales (auto simp: sse_encode_i32_def sse_decode_i32_def read_simps u32_be_of_be)

section \<open>Vectors\<close>

text \<open>
  The length travels as an \<open>i32\<close>. A negative one makes \<open>Vec::with_capacity(len as usize)\<close>
  panic (capacity overflow); otherwise so many items are read.
\<close>

fun decode_items :: "'a decoder \<Rightarrow> nat \<Rightarrow> ('a list) decoder" where
  "decode_items d 0 bs = Ok ([], bs)"
| "decode_items d (Suc n) bs =
     and_then (d bs) (\<lambda>(x, bs1). and_then (decode_items d n bs1) (\<lambda>(xs, bs2). Ok (x # xs, bs2)))"

definition encode_vec :: "bool \<Rightarrow> ('a \<Rightarrow> bytes) \<Rightarrow> 'a list \<Rightarrow> bytes" where
  "encode_vec le enc xs = sse_encode_i32 le (of_nat (length xs)) @ concat (map enc xs)"

definition decode_vec :: "bool \<Rightarrow> 'a decoder \<Rightarrow> ('a list) decoder" where
  "decode_vec le d bs =
     and_then (sse_decode_i32 le bs) (\<lambda>(len, bs1).
       if sint len < 0 then Panic else decode_items d (nat (sint len)) bs1)"

definition valid_vec :: "('a \<Rightarrow> bool) \<Rightarrow> 'a list \<Rightarrow> bool" where
  "valid_vec valid xs \<longleftrightarrow> length xs < 2 ^ 31 \<and> list_all valid xs"

text \<open>Sign of an \<open>i32\<close> that came from a length.\<close>

lemma sint_of_length:
  assumes "n < 2 ^ 31"
  shows "sint (of_nat n :: 32 word) = int n"
  using assms by (simp add: signed_of_nat signed_take_bit_int_eq_self)

lemma sint_nonneg:
  assumes "\<not> sint (w :: 32 word) < 0"
  shows "nat (sint w) < 2 ^ 31" "of_nat (nat (sint w)) = w"
proof -
  have "sint w < 2 ^ (LENGTH(32) - 1)" by (rule sint_lt)
  then show "nat (sint w) < 2 ^ 31" using assms by simp
  have "of_nat (nat (sint w)) = (of_int (sint w) :: 32 word)"
    using assms by (metis not_less of_int_of_nat_eq int_nat_eq)
  then show "of_nat (nat (sint w)) = w" by simp
qed

locale sse_vec = item: sse_codec enc dec valid
  for enc :: "'a \<Rightarrow> bytes" and dec valid +
  fixes le :: bool
begin

lemma items_enc: "list_all valid xs \<Longrightarrow> decode_items dec (length xs) (concat (map enc xs) @ rest) = Ok (xs, rest)"
  by (induction xs) (simp_all add: item.dec_enc)

lemma items_sound:
  "decode_items dec n bs = Ok (xs, rest) \<Longrightarrow>
     length xs = n \<and> list_all valid xs \<and> bs = concat (map enc xs) @ rest"
proof (induction n arbitrary: bs xs)
  case (Suc n)
  then show ?case by (auto simp: and_then_eq_Ok dest!: item.dec_sound Suc.IH)
qed simp

lemma items_no_err: "decode_items dec n bs \<noteq> Err e"
  by (induction n arbitrary: bs) (auto simp: and_then_eq_Err item.dec_no_err)

lemma vec_codec: "sse_codec (encode_vec le enc) (decode_vec le dec) (valid_vec valid)"
proof
  fix xs rest
  assume "valid_vec valid xs"
  then show "decode_vec le dec (encode_vec le enc xs @ rest) = Ok (xs, rest)"
    using items_enc [of xs rest]
    by (simp add: valid_vec_def encode_vec_def decode_vec_def i32.dec_enc sint_of_length)
next
  fix bs xs rest
  assume "decode_vec le dec bs = Ok (xs, rest)"
  then show "valid_vec valid xs \<and> bs = encode_vec le enc xs @ rest"
    by (auto simp: decode_vec_def encode_vec_def valid_vec_def and_then_eq_Ok sint_nonneg(2)
        dest!: i32.dec_sound items_sound dest: sint_nonneg(1) [simplified] split: if_splits)
next
  fix bs e
  show "decode_vec le dec bs \<noteq> Err e"
    by (auto simp: decode_vec_def and_then_eq_Err i32.dec_no_err items_no_err split: if_splits)
qed

end

section \<open>The types of the interface\<close>

definition sse_encode_bytes :: "bool \<Rightarrow> bytes \<Rightarrow> bytes" where
  "sse_encode_bytes le xs = encode_vec le sse_encode_u8 xs"

definition sse_decode_bytes :: "bool \<Rightarrow> bytes decoder" where
  "sse_decode_bytes le bs = decode_vec le sse_decode_u8 bs"

definition sse_encode_u64s :: "bool \<Rightarrow> u64 list \<Rightarrow> bytes" where
  "sse_encode_u64s le xs = encode_vec le (sse_encode_u64 le) xs"

definition sse_decode_u64s :: "bool \<Rightarrow> (u64 list) decoder" where
  "sse_decode_u64s le bs = decode_vec le (sse_decode_u64 le) bs"

definition sse_encode_string :: "bool \<Rightarrow> rstr \<Rightarrow> bytes" where
  "sse_encode_string le s = sse_encode_bytes le (into_bytes s)"

definition sse_decode_string :: "bool \<Rightarrow> rstr decoder" where
  "sse_decode_string le bs =
     and_then (sse_decode_bytes le bs) (\<lambda>(inner, bs1).
       case from_utf8 inner of None \<Rightarrow> Panic | Some s \<Rightarrow> Ok (s, bs1))"

definition sse_encode_FrbEncapResult :: "bool \<Rightarrow> FrbEncapResult \<Rightarrow> bytes" where
  "sse_encode_FrbEncapResult le r =
     sse_encode_bytes le (frb_ciphertext r) @ sse_encode_bytes le (frb_shared_secret r)"

definition sse_decode_FrbEncapResult :: "bool \<Rightarrow> FrbEncapResult decoder" where
  "sse_decode_FrbEncapResult le bs =
     and_then (sse_decode_bytes le bs) (\<lambda>(var_ciphertext, bs1).
     and_then (sse_decode_bytes le bs1) (\<lambda>(var_sharedSecret, bs2).
       Ok (\<lparr>frb_ciphertext = var_ciphertext, frb_shared_secret = var_sharedSecret\<rparr>, bs2)))"

definition sse_encode_FrbHybridKeyPair :: "bool \<Rightarrow> FrbHybridKeyPair \<Rightarrow> bytes" where
  "sse_encode_FrbHybridKeyPair le kp =
     sse_encode_bytes le (frb_public_key kp) @ sse_encode_bytes le (frb_private_key kp)"

definition sse_decode_FrbHybridKeyPair :: "bool \<Rightarrow> FrbHybridKeyPair decoder" where
  "sse_decode_FrbHybridKeyPair le bs =
     and_then (sse_decode_bytes le bs) (\<lambda>(var_publicKey, bs1).
     and_then (sse_decode_bytes le bs1) (\<lambda>(var_privateKey, bs2).
       Ok (\<lparr>frb_public_key = var_publicKey, frb_private_key = var_privateKey\<rparr>, bs2)))"

text \<open>A buffer whose length an \<open>i32\<close> can carry.\<close>

definition fits_i32 :: "'a list \<Rightarrow> bool" where
  "fits_i32 xs \<longleftrightarrow> length xs < 2 ^ 31"

interpretation bytes_vec: sse_vec sse_encode_u8 sse_decode_u8 "\<lambda>_. True" le for le ..

interpretation u64s_vec: sse_vec "sse_encode_u64 le" "sse_decode_u64 le" "\<lambda>_. True" le for le ..

lemma valid_vec_True: "valid_vec (\<lambda>_. True) = fits_i32"
  by (rule ext) (simp add: valid_vec_def fits_i32_def list_all_iff)

interpretation bytes: sse_codec "sse_encode_bytes le" "sse_decode_bytes le" fits_i32 for le
  using bytes_vec.vec_codec [of le]
  unfolding valid_vec_True sse_encode_bytes_def [abs_def] sse_decode_bytes_def [abs_def] .

interpretation u64s: sse_codec "sse_encode_u64s le" "sse_decode_u64s le" fits_i32 for le
  using u64s_vec.vec_codec [of le]
  unfolding valid_vec_True sse_encode_u64s_def [abs_def] sse_decode_u64s_def [abs_def] .

interpretation two_bytes: sse_pair "sse_encode_bytes le" "sse_decode_bytes le" fits_i32
  "sse_encode_bytes le'" "sse_decode_bytes le'" fits_i32 for le le' ..

lemmas bytes_pair_simps = and_then_eq_Ok and_then_eq_Err bytes.dec_enc bytes.dec_no_err

interpretation encap_result: sse_codec "sse_encode_FrbEncapResult le" "sse_decode_FrbEncapResult le"
  "\<lambda>r. fits_i32 (frb_ciphertext r) \<and> fits_i32 (frb_shared_secret r)" for le
  by unfold_locales
     (auto simp: sse_encode_FrbEncapResult_def sse_decode_FrbEncapResult_def bytes_pair_simps
        dest!: bytes.dec_sound)

interpretation key_pair: sse_codec "sse_encode_FrbHybridKeyPair le" "sse_decode_FrbHybridKeyPair le"
  "\<lambda>kp. fits_i32 (frb_public_key kp) \<and> fits_i32 (frb_private_key kp)" for le
  by unfold_locales
     (auto simp: sse_encode_FrbHybridKeyPair_def sse_decode_FrbHybridKeyPair_def bytes_pair_simps
        dest!: bytes.dec_sound)

interpretation text_codec: sse_codec "sse_encode_string le" "sse_decode_string le"
  "\<lambda>s. valid_str s \<and> fits_i32 (into_bytes s)" for le
  by unfold_locales
     (auto simp: sse_encode_string_def sse_decode_string_def bytes_pair_simps from_utf8_into_bytes
        dest!: bytes.dec_sound from_utf8_SomeD split: option.splits)

end
