(* ===== verification/Frb_Wire.thy ===== *)
theory Frb_Wire
  imports Sse_Codec
begin

text \<open>
  The wire functions and the dispatcher of the Dart glue (\<open>src/src/frb_generated.rs\<close>): a call
  arrives as a function number and a byte message, its arguments are decoded in turn, the
  message has to be used up, the API function of \<open>frb_api.rs\<close> runs, and its result is encoded.
  \<open>fin\<close> is the library's check at the end of a message (\<open>SseDeserializer::end\<close>); the framing of
  the reply (one status byte of the library) is kept as the two constructors of \<open>sse_reply\<close>.
\<close>

datatype sse_reply = ReplyOk bytes | ReplyErr bytes

definition transform_result_sse ::
  "('a \<Rightarrow> bytes) \<Rightarrow> ('e \<Rightarrow> bytes) \<Rightarrow> ('e, 'a) res \<Rightarrow> (unit, sse_reply) res" where
  "transform_result_sse enc enc_err r =
     (case r of Ok x \<Rightarrow> Ok (ReplyOk (enc x)) | Err e \<Rightarrow> Ok (ReplyErr (enc_err e)) | Panic \<Rightarrow> Panic)"

section \<open>The wire functions\<close>

definition wire_derive_dm_message_key :: "prims \<Rightarrow> bool \<Rightarrow> (bytes \<Rightarrow> bool) \<Rightarrow> bytes \<Rightarrow> (unit, sse_reply) res" where
  "wire_derive_dm_message_key P le fin message =
     and_then (sse_decode_bytes le message) (\<lambda>(api_epoch_secret, bs1).
     and_then (sse_decode_u64 le bs1) (\<lambda>(api_epoch, bs2).
     and_then (sse_decode_u64 le bs2) (\<lambda>(api_index, bs3).
       if fin bs3
       then transform_result_sse (sse_encode_bytes le) (sse_encode_string le)
              (frb_derive_dm_message_key P api_epoch_secret api_epoch api_index)
       else Panic)))"

definition wire_hybrid_decap :: "prims \<Rightarrow> bool \<Rightarrow> (bytes \<Rightarrow> bool) \<Rightarrow> bytes \<Rightarrow> (unit, sse_reply) res" where
  "wire_hybrid_decap P le fin message =
     and_then (sse_decode_bytes le message) (\<lambda>(api_ciphertext, bs1).
     and_then (sse_decode_bytes le bs1) (\<lambda>(api_private_key, bs2).
       if fin bs2
       then transform_result_sse (sse_encode_bytes le) (sse_encode_string le)
              (frb_hybrid_decap P api_ciphertext api_private_key)
       else Panic))"

definition wire_hybrid_encap ::
  "prims \<Rightarrow> bool \<Rightarrow> (bytes \<Rightarrow> bool) \<Rightarrow> bytes \<Rightarrow> world \<Rightarrow> (unit, sse_reply) res \<times> world" where
  "wire_hybrid_encap P le fin message w =
     (case sse_decode_bytes le message of
        Ok (api_peer_public_key, bs1) \<Rightarrow>
          if fin bs1
          then let (r, w1) = frb_hybrid_encap P api_peer_public_key w
               in (transform_result_sse (sse_encode_FrbEncapResult le) (sse_encode_string le) r, w1)
          else (Panic, w)
      | _ \<Rightarrow> (Panic, w))"

definition wire_hybrid_keypair ::
  "prims \<Rightarrow> bool \<Rightarrow> (bytes \<Rightarrow> bool) \<Rightarrow> bytes \<Rightarrow> world \<Rightarrow> (unit, sse_reply) res \<times> world" where
  "wire_hybrid_keypair P le fin message w =
     (if fin message
      then let (kp, w1) = frb_hybrid_keypair P w
           in (transform_result_sse (sse_encode_FrbHybridKeyPair le) sse_encode_unit (Ok kp), w1)
      else (Panic, w))"

definition wire_suite_id :: "bool \<Rightarrow> (bytes \<Rightarrow> bool) \<Rightarrow> bytes \<Rightarrow> (unit, sse_reply) res" where
  "wire_suite_id le fin message =
     (if fin message then transform_result_sse (sse_encode_string le) sse_encode_unit (Ok frb_suite_id)
      else Panic)"

definition wire_wire_sizes :: "bool \<Rightarrow> (bytes \<Rightarrow> bool) \<Rightarrow> bytes \<Rightarrow> (unit, sse_reply) res" where
  "wire_wire_sizes le fin message =
     (if fin message then transform_result_sse (sse_encode_u64s le) sse_encode_unit (Ok frb_wire_sizes)
      else Panic)"

section \<open>The dispatchers\<close>

definition pde_ffi_dispatcher_primary :: "int \<Rightarrow> bytes \<Rightarrow> (unit, sse_reply) res" where
  "pde_ffi_dispatcher_primary func_id message = Panic"

definition pde_ffi_dispatcher_sync ::
  "prims \<Rightarrow> bool \<Rightarrow> (bytes \<Rightarrow> bool) \<Rightarrow> int \<Rightarrow> bytes \<Rightarrow> world \<Rightarrow> (unit, sse_reply) res \<times> world" where
  "pde_ffi_dispatcher_sync P le fin func_id message w =
     (if func_id = 1 then (wire_derive_dm_message_key P le fin message, w)
      else if func_id = 2 then (wire_hybrid_decap P le fin message, w)
      else if func_id = 3 then wire_hybrid_encap P le fin message w
      else if func_id = 4 then wire_hybrid_keypair P le fin message w
      else if func_id = 5 then (wire_suite_id le fin message, w)
      else if func_id = 6 then (wire_wire_sizes le fin message, w)
      else (Panic, w))"

section \<open>Specification: calls of the API\<close>

text \<open>
  A call as the Dart side means it, its number and message, and what it does; \<open>call_fits\<close>: the
  buffers are no longer than an \<open>i32\<close> can say.
\<close>

datatype api_call =
    DeriveCall bytes u64 u64
  | DecapCall bytes bytes
  | EncapCall bytes
  | KeypairCall
  | SuiteIdCall
  | WireSizesCall

fun call_id :: "api_call \<Rightarrow> int" where
  "call_id (DeriveCall es e i) = 1"
| "call_id (DecapCall ct sk) = 2"
| "call_id (EncapCall pk) = 3"
| "call_id KeypairCall = 4"
| "call_id SuiteIdCall = 5"
| "call_id WireSizesCall = 6"

fun call_message :: "bool \<Rightarrow> api_call \<Rightarrow> bytes" where
  "call_message le (DeriveCall es e i) =
     sse_encode_bytes le es @ sse_encode_u64 le e @ sse_encode_u64 le i"
| "call_message le (DecapCall ct sk) = sse_encode_bytes le ct @ sse_encode_bytes le sk"
| "call_message le (EncapCall pk) = sse_encode_bytes le pk"
| "call_message le _ = []"

fun call_fits :: "api_call \<Rightarrow> bool" where
  "call_fits (DeriveCall es e i) = fits_i32 es"
| "call_fits (DecapCall ct sk) = (fits_i32 ct \<and> fits_i32 sk)"
| "call_fits (EncapCall pk) = fits_i32 pk"
| "call_fits _ = True"

fun call_api :: "prims \<Rightarrow> bool \<Rightarrow> api_call \<Rightarrow> world \<Rightarrow> (unit, sse_reply) res \<times> world" where
  "call_api P le (DeriveCall es e i) w =
     (transform_result_sse (sse_encode_bytes le) (sse_encode_string le) (frb_derive_dm_message_key P es e i), w)"
| "call_api P le (DecapCall ct sk) w =
     (transform_result_sse (sse_encode_bytes le) (sse_encode_string le) (frb_hybrid_decap P ct sk), w)"
| "call_api P le (EncapCall pk) w =
     apfst (transform_result_sse (sse_encode_FrbEncapResult le) (sse_encode_string le))
       (frb_hybrid_encap P pk w)"
| "call_api P le KeypairCall w =
     apfst (\<lambda>kp. Ok (ReplyOk (sse_encode_FrbHybridKeyPair le kp))) (frb_hybrid_keypair P w)"
| "call_api P le SuiteIdCall w = (Ok (ReplyOk (sse_encode_string le frb_suite_id)), w)"
| "call_api P le WireSizesCall w = (Ok (ReplyOk (sse_encode_u64s le frb_wire_sizes)), w)"

text \<open>The library's end-of-message check accepts exactly the exhausted message.\<close>

definition end_law :: "(bytes \<Rightarrow> bool) \<Rightarrow> bool" where
  "end_law fin \<longleftrightarrow> (\<forall>rest. fin rest \<longleftrightarrow> rest = [])"

section \<open>The dispatcher runs exactly the call that was encoded\<close>

interpretation u64_pair: sse_pair "sse_encode_u64 le" "sse_decode_u64 le" "\<lambda>_. True"
  "sse_encode_u64 le" "sse_decode_u64 le" "\<lambda>_. True" for le ..

interpretation decap_args: sse_codec "\<lambda>(ct, sk). sse_encode_bytes le ct @ sse_encode_bytes le sk"
  "decode_pair (sse_decode_bytes le) (sse_decode_bytes le)" "\<lambda>(ct, sk). fits_i32 ct \<and> fits_i32 sk" for le
  by (rule two_bytes.pair_codec)

interpretation slot_args: sse_codec "\<lambda>(e, i). sse_encode_u64 le e @ sse_encode_u64 le i"
  "decode_pair (sse_decode_u64 le) (sse_decode_u64 le)" "\<lambda>(e, i). True \<and> True" for le
  by (rule u64_pair.pair_codec)

interpretation derive_args_pair: sse_pair "sse_encode_bytes le" "sse_decode_bytes le" fits_i32
  "\<lambda>(e, i). sse_encode_u64 le e @ sse_encode_u64 le i" "decode_pair (sse_decode_u64 le) (sse_decode_u64 le)"
  "\<lambda>(e, i). True \<and> True" for le ..

interpretation derive_args: sse_codec
  "\<lambda>(es, slot). sse_encode_bytes le es @ (case slot of (e, i) \<Rightarrow> sse_encode_u64 le e @ sse_encode_u64 le i)"
  "decode_pair (sse_decode_bytes le) (decode_pair (sse_decode_u64 le) (sse_decode_u64 le))"
  "\<lambda>(es, slot). fits_i32 es \<and> (case slot of (e, i) \<Rightarrow> True \<and> True)" for le
  by (rule derive_args_pair.pair_codec)

lemma and_then_case:
  "and_then r f = (case r of Ok a \<Rightarrow> f a | Err e \<Rightarrow> Err e | Panic \<Rightarrow> Panic)"
  by (cases r) simp_all

text \<open>The wire functions read a pair, or a triple, and check the end.\<close>

lemma wire_reads:
  "wire_derive_dm_message_key P le fin msg =
     and_then (decode_pair (sse_decode_bytes le) (decode_pair (sse_decode_u64 le) (sse_decode_u64 le)) msg)
       (\<lambda>(x, rest). if fin rest
          then fst (call_api P le (case x of (es, e, i) \<Rightarrow> DeriveCall es e i) w) else Panic)"
  "wire_hybrid_decap P le fin msg =
     and_then (decode_pair (sse_decode_bytes le) (sse_decode_bytes le) msg)
       (\<lambda>(x, rest). if fin rest then fst (call_api P le (case x of (ct, sk) \<Rightarrow> DecapCall ct sk) w) else Panic)"
  by (simp_all add: wire_derive_dm_message_key_def wire_hybrid_decap_def decode_pair_def and_then_case
      split: res.split prod.split)

lemma wire_encap_reads:
  "wire_hybrid_encap P le fin msg w =
     (case and_then (sse_decode_bytes le msg) (\<lambda>(x, rest). if fin rest then Ok x else Panic) of
        Ok pk \<Rightarrow> call_api P le (EncapCall pk) w | _ \<Rightarrow> (Panic, w))"
  by (cases "sse_decode_bytes le msg")
     (auto simp: wire_hybrid_encap_def case_prod_unfold apfst_def map_prod_def Let_def)

text \<open>A call with the given number and message, if there is one.\<close>

definition encoded_call :: "bool \<Rightarrow> int \<Rightarrow> bytes \<Rightarrow> api_call \<Rightarrow> bool" where
  "encoded_call le func_id msg c \<longleftrightarrow> call_fits c \<and> call_id c = func_id \<and> call_message le c = msg"

lemma call_message_inject:
  "\<lbrakk>fits_i32 es; fits_i32 es'; call_message le (DeriveCall es e i) = call_message le (DeriveCall es' e' i')\<rbrakk>
     \<Longrightarrow> es = es' \<and> e = e' \<and> i = i'"
  "\<lbrakk>fits_i32 ct; fits_i32 sk; fits_i32 ct'; fits_i32 sk';
     call_message le (DecapCall ct sk) = call_message le (DecapCall ct' sk')\<rbrakk> \<Longrightarrow> ct = ct' \<and> sk = sk'"
  "\<lbrakk>fits_i32 pk; fits_i32 pk'; call_message le (EncapCall pk) = call_message le (EncapCall pk')\<rbrakk> \<Longrightarrow> pk = pk'"
  using derive_args.enc_prefix_free [where x = "(es, e, i)" and y = "(es', e', i')" and r = "[]" and r' = "[]" and le = le]
    decap_args.enc_prefix_free [where x = "(ct, sk)" and y = "(ct', sk')" and r = "[]" and r' = "[]" and le = le]
    bytes.enc_prefix_free [where x = pk and y = pk' and r = "[]" and r' = "[]" and le = le]
  by simp_all

lemma encoded_call_unique:
  assumes "encoded_call le func_id msg c" "encoded_call le func_id msg d"
  shows "c = d"
proof -
  have id: "call_id c = call_id d" and msg: "call_message le c = call_message le d"
    and fits: "call_fits c" "call_fits d"
    using assms by (simp_all add: encoded_call_def)
  show ?thesis
  proof (cases c)
    case (DeriveCall es e i)
    then obtain es' e' i' where d: "d = DeriveCall es' e' i'" using id by (cases d) simp_all
    show ?thesis using call_message_inject(1) [of es es' le e i e' i'] fits msg DeriveCall d by simp
  next
    case (DecapCall ct sk)
    then obtain ct' sk' where d: "d = DecapCall ct' sk'" using id by (cases d) simp_all
    show ?thesis using call_message_inject(2) [of ct sk ct' sk' le] fits msg DecapCall d by simp
  next
    case (EncapCall pk)
    then obtain pk' where d: "d = EncapCall pk'" using id by (cases d) simp_all
    show ?thesis using call_message_inject(3) [of pk pk' le] fits msg EncapCall d by simp
  qed (use id in \<open>cases d; simp\<close>)+
qed

lemma no_arguments:
  assumes "\<And>c. call_id c = func_id \<longleftrightarrow> c = c0" "call_message le c0 = []" "call_fits c0"
  shows "encoded_call le func_id msg c \<longleftrightarrow> c = c0 \<and> msg = []"
  using assms by (auto simp: encoded_call_def)

lemma call_id_iff:
  "call_id c = 1 \<longleftrightarrow> (\<exists>es e i. c = DeriveCall es e i)"
  "call_id c = 2 \<longleftrightarrow> (\<exists>ct sk. c = DecapCall ct sk)"
  "call_id c = 3 \<longleftrightarrow> (\<exists>pk. c = EncapCall pk)"
  "call_id c = 4 \<longleftrightarrow> c = KeypairCall" "call_id c = 5 \<longleftrightarrow> c = SuiteIdCall" "call_id c = 6 \<longleftrightarrow> c = WireSizesCall"
  by (cases c; simp)+

lemma call_id_range: "call_id c \<in> {1..6}"
  by (cases c) simp_all

text \<open>Either the message is a call, which is run, or nothing is run at all.\<close>

definition runs_exactly ::
  "prims \<Rightarrow> bool \<Rightarrow> int \<Rightarrow> bytes \<Rightarrow> world \<Rightarrow> (unit, sse_reply) res \<times> world \<Rightarrow> bool" where
  "runs_exactly P le func_id msg w out \<longleftrightarrow>
     (\<exists>c. encoded_call le func_id msg c \<and> out = call_api P le c w) \<or>
     (\<forall>c. \<not> encoded_call le func_id msg c) \<and> out = (Panic, w)"

lemma runs_call:
  "encoded_call le func_id msg c \<Longrightarrow> out = call_api P le c w \<Longrightarrow> runs_exactly P le func_id msg w out"
  unfolding runs_exactly_def by blast

lemma runs_nothing:
  "(\<And>c. \<not> encoded_call le func_id msg c) \<Longrightarrow> out = (Panic, w) \<Longrightarrow> runs_exactly P le func_id msg w out"
  unfolding runs_exactly_def by blast

lemma derive_exact:
  assumes "end_law fin"
  shows "runs_exactly P le 1 msg w (wire_derive_dm_message_key P le fin msg, w)"
proof -
  have fin: "fin rest \<longleftrightarrow> rest = []" for rest using assms by (simp add: end_law_def)
  from derive_args.read_all [where fin = fin and msg = msg and le = le
      and k = "\<lambda>x. fst (call_api P le (case x of (es, e, i) \<Rightarrow> DeriveCall es e i) w)", OF fin]
  show ?thesis
    unfolding wire_reads [of P le fin msg w, symmetric]
  proof (elim disjE exE conjE)
    fix x
    assume x: "case x of (es, slot) \<Rightarrow> fits_i32 es \<and> (case slot of (e, i) \<Rightarrow> True \<and> True)"
      "msg = (case x of (es, slot) \<Rightarrow> sse_encode_bytes le es @
         (case slot of (e, i) \<Rightarrow> sse_encode_u64 le e @ sse_encode_u64 le i))"
      "wire_derive_dm_message_key P le fin msg =
         fst (call_api P le (case x of (es, e, i) \<Rightarrow> DeriveCall es e i) w)"
    obtain es e i where "x = (es, e, i)" by (cases x) auto
    then show ?thesis using x by (intro runs_call [where c = "DeriveCall es e i"]) (simp_all add: encoded_call_def)
  next
    assume none: "\<forall>x. (case x of (es, slot) \<Rightarrow> fits_i32 es \<and> (case slot of (e, i) \<Rightarrow> True \<and> True)) \<longrightarrow>
        msg \<noteq> (case x of (es, slot) \<Rightarrow> sse_encode_bytes le es @
          (case slot of (e, i) \<Rightarrow> sse_encode_u64 le e @ sse_encode_u64 le i))"
      and panic: "wire_derive_dm_message_key P le fin msg = Panic"
    have "msg \<noteq> call_message le (DeriveCall es e i)" if "fits_i32 es" for es e i
      using spec [OF none, of "(es, e, i)"] that by simp
    then have "\<not> encoded_call le 1 msg c" for c by (cases c) (auto simp: encoded_call_def)
    then show ?thesis using panic by (simp add: runs_nothing)
  qed
qed

lemma decap_exact:
  assumes "end_law fin"
  shows "runs_exactly P le 2 msg w (wire_hybrid_decap P le fin msg, w)"
proof -
  have fin: "fin rest \<longleftrightarrow> rest = []" for rest using assms by (simp add: end_law_def)
  from decap_args.read_all [where fin = fin and msg = msg and le = le
      and k = "\<lambda>x. fst (call_api P le (case x of (ct, sk) \<Rightarrow> DecapCall ct sk) w)", OF fin]
  show ?thesis
    unfolding wire_reads [of P le fin msg w, symmetric]
  proof (elim disjE exE conjE)
    fix x
    assume x: "case x of (ct, sk) \<Rightarrow> fits_i32 ct \<and> fits_i32 sk"
      "msg = (case x of (ct, sk) \<Rightarrow> sse_encode_bytes le ct @ sse_encode_bytes le sk)"
      "wire_hybrid_decap P le fin msg = fst (call_api P le (case x of (ct, sk) \<Rightarrow> DecapCall ct sk) w)"
    obtain ct sk where "x = (ct, sk)" by (cases x)
    then show ?thesis using x by (intro runs_call [where c = "DecapCall ct sk"]) (simp_all add: encoded_call_def)
  next
    assume none: "\<forall>x. (case x of (ct, sk) \<Rightarrow> fits_i32 ct \<and> fits_i32 sk) \<longrightarrow>
        msg \<noteq> (case x of (ct, sk) \<Rightarrow> sse_encode_bytes le ct @ sse_encode_bytes le sk)"
      and panic: "wire_hybrid_decap P le fin msg = Panic"
    have "msg \<noteq> call_message le (DecapCall ct sk)" if "fits_i32 ct" "fits_i32 sk" for ct sk
      using spec [OF none, of "(ct, sk)"] that by simp
    then have "\<not> encoded_call le 2 msg c" for c by (cases c) (auto simp: encoded_call_def)
    then show ?thesis using panic by (simp add: runs_nothing)
  qed
qed

lemma encap_exact:
  assumes "end_law fin"
  shows "runs_exactly P le 3 msg w (wire_hybrid_encap P le fin msg w)"
proof -
  have fin: "fin rest \<longleftrightarrow> rest = []" for rest using assms by (simp add: end_law_def)
  from bytes.read_all [where fin = fin and msg = msg and le = le
      and k = "Ok :: bytes \<Rightarrow> (unit, bytes) res", OF fin]
  show ?thesis
  proof (elim disjE exE conjE)
    fix pk
    assume "fits_i32 pk" "msg = sse_encode_bytes le pk"
      "and_then (sse_decode_bytes le msg) (\<lambda>(x, rest). if fin rest then Ok x else Panic) = Ok pk"
    then show ?thesis
      by (intro runs_call [where c = "EncapCall pk"]) (simp_all add: encoded_call_def wire_encap_reads)
  next
    assume none: "\<forall>x. fits_i32 x \<longrightarrow> msg \<noteq> sse_encode_bytes le x"
      and panic: "and_then (sse_decode_bytes le msg) (\<lambda>(x, rest). if fin rest then Ok x else Panic) = Panic"
    show ?thesis
      by (rule runs_nothing) (use none panic in \<open>auto simp: encoded_call_def call_id_iff wire_encap_reads\<close>)
  qed
qed

lemma dispatcher_exact:
  assumes "end_law fin"
  shows "runs_exactly P le func_id msg w (pde_ffi_dispatcher_sync P le fin func_id msg w)"
proof -
  have fin: "fin rest \<longleftrightarrow> rest = []" for rest using assms by (simp add: end_law_def)
  consider "func_id = 1" | "func_id = 2" | "func_id = 3" | "func_id \<in> {4, 5, 6}" | "func_id \<notin> {1..6}"
    by fastforce
  then show ?thesis
  proof cases
    case 4
    then show ?thesis
      by (auto simp: runs_exactly_def pde_ffi_dispatcher_sync_def encoded_call_def call_id_iff fin
          wire_hybrid_keypair_def wire_suite_id_def wire_wire_sizes_def transform_result_sse_def
          apfst_def map_prod_def Let_def case_prod_unfold)
  next
    case 5
    then have "\<not> encoded_call le func_id msg c" for c
      using call_id_range [of c] by (auto simp: encoded_call_def)
    then show ?thesis using 5 by (auto simp: runs_exactly_def pde_ffi_dispatcher_sync_def)
  qed (simp_all add: pde_ffi_dispatcher_sync_def derive_exact [OF assms] decap_exact [OF assms]
      encap_exact [OF assms])
qed

end
