(* ===== verification/Wire_Correct.thy ===== *)
theory Wire_Correct
  imports Frb_Wire Keys_Correct
begin

text \<open>
  Correctness of the Dart glue: which messages run which function, a KEM session whose every step
  crosses the wire, and the exchange of keys between callers of different bindings.
\<close>

section \<open>Messages and calls\<close>

text \<open>
  C17: the synchronous dispatcher runs a call exactly on the messages that encode one: given a
  function number and a message, either there is exactly one API call with buffers of fewer than
  \<open>2 ^ 31\<close> bytes that is encoded so, and the dispatcher runs that call and encodes its result, or
  there is none, and the dispatcher panics without running anything (an unknown number, a short
  or overlong message, a negative length).
\<close>
theorem dispatcher_runs_calls:
  assumes "end_law fin"
  shows "(\<exists>!c. encoded_call le func_id msg c) \<and>
      (\<exists>c. encoded_call le func_id msg c \<and> pde_ffi_dispatcher_sync P le fin func_id msg w = call_api P le c w) \<or>
    (\<nexists>c. encoded_call le func_id msg c) \<and> pde_ffi_dispatcher_sync P le fin func_id msg w = (Panic, w)"
  using dispatcher_exact [OF assms, of P le func_id msg w] encoded_call_unique [of le func_id msg]
  unfolding runs_exactly_def by blast

theorem dispatcher_runs_calls_witness:
  "pde_ffi_dispatcher_sync sample_prims True (\<lambda>rest. rest = []) 6 [] (sample_world 1 0) =
     call_api sample_prims True WireSizesCall (sample_world 1 0)"
proof -
  have one: "encoded_call True 6 [] c \<longleftrightarrow> c = WireSizesCall" for c
    by (auto simp: encoded_call_def call_id_iff)
  have "end_law (\<lambda>rest. rest = [])" by (simp add: end_law_def)
  from dispatcher_runs_calls [OF this, of True 6 "[]" sample_prims "sample_world 1 0"]
  show ?thesis by (simp add: one)
qed

lemma dispatch_call:
  assumes "end_law fin" "call_fits c"
  shows "pde_ffi_dispatcher_sync P le fin (call_id c) (call_message le c) w = call_api P le c w"
proof -
  have c: "encoded_call le (call_id c) (call_message le c) c" using assms(2) by (simp add: encoded_call_def)
  then show ?thesis
    using dispatcher_exact [OF assms(1), of P le "call_id c" "call_message le c" w] encoded_call_unique [OF c]
    unfolding runs_exactly_def by blast
qed

section \<open>A KEM session over the wire\<close>

text \<open>
  C18: key generation, encapsulation and decapsulation requested by message, with every
  argument and result encoded: the reply to the first decodes to a key pair, the reply to an
  encapsulation to its public key decodes to a ciphertext and a secret, and the reply to the
  decapsulation of that ciphertext with its private key decodes to the same secret, nothing
  being left of any reply.
\<close>
theorem wire_kem_session:
  assumes "prims_laws P" "end_law fin"
  shows "\<exists>r1 kp w1' r2 enc w2' r3.
    pde_ffi_dispatcher_sync P le fin 4 [] w1 = (Ok (ReplyOk r1), w1') \<and>
    sse_decode_FrbHybridKeyPair le r1 = Ok (kp, []) \<and>
    pde_ffi_dispatcher_sync P le fin 3 (sse_encode_bytes le (frb_public_key kp)) w2 =
      (Ok (ReplyOk r2), w2') \<and>
    sse_decode_FrbEncapResult le r2 = Ok (enc, []) \<and>
    pde_ffi_dispatcher_sync P le fin 2
      (sse_encode_bytes le (frb_ciphertext enc) @ sse_encode_bytes le (frb_private_key kp)) w3 =
      (Ok (ReplyOk r3), w3) \<and>
    sse_decode_bytes le r3 = Ok (frb_shared_secret enc, [])"
proof -
  obtain k w1' where k: "hybrid_keypair P w1 = (k, w1')" by fastforce
  note pair = hybrid_keypair_kem_pair [OF assms(1) k]
  obtain ct ss w2' where e: "hybrid_encap P (public_key k) w2 = (Ok (ct, ss), w2')" "length ct = 1120"
    "length ss = 32" "hybrid_decap P ct (private_key k) = Ok ss"
    by (rule kem.encapE [OF pair])
  define kp where "kp = \<lparr>frb_public_key = public_key k, frb_private_key = private_key k\<rparr>"
  define enc where "enc = \<lparr>frb_ciphertext = ct, frb_shared_secret = ss\<rparr>"
  have fits: "fits_i32 (public_key k)" "fits_i32 (private_key k)" "fits_i32 ct" "fits_i32 ss"
    using kem.keys_sizes [OF pair] e(2,3) by (simp_all add: fits_i32_def)
  have "pde_ffi_dispatcher_sync P le fin 4 [] w1 = (Ok (ReplyOk (sse_encode_FrbHybridKeyPair le kp)), w1')"
    using dispatch_call [OF assms(2), of KeypairCall P le w1]
    by (simp add: frb_hybrid_keypair_def k kp_def)
  moreover have "pde_ffi_dispatcher_sync P le fin 3 (sse_encode_bytes le (frb_public_key kp)) w2 =
      (Ok (ReplyOk (sse_encode_FrbEncapResult le enc)), w2')"
    using dispatch_call [OF assms(2), of "EncapCall (public_key k)" P le w2] fits
    by (simp add: frb_hybrid_encap_def e(1) kp_def enc_def transform_result_sse_def)
  moreover have "pde_ffi_dispatcher_sync P le fin 2
      (sse_encode_bytes le (frb_ciphertext enc) @ sse_encode_bytes le (frb_private_key kp)) w3 =
      (Ok (ReplyOk (sse_encode_bytes le ss)), w3)"
    using dispatch_call [OF assms(2), of "DecapCall ct (private_key k)" P le w3] fits
    by (simp add: bindings_decap(1) e(4) kp_def enc_def transform_result_sse_def)
  moreover have "sse_decode_FrbHybridKeyPair le (sse_encode_FrbHybridKeyPair le kp) = Ok (kp, [])"
    "sse_decode_FrbEncapResult le (sse_encode_FrbEncapResult le enc) = Ok (enc, [])"
    "sse_decode_bytes le (sse_encode_bytes le ss) = Ok (frb_shared_secret enc, [])"
    using key_pair.dec_enc [of kp le "[]"] encap_result.dec_enc [of enc le "[]"] bytes.dec_enc [of ss le "[]"] fits
    by (simp_all add: kp_def enc_def)
  ultimately show ?thesis by blast
qed

theorem wire_kem_session_witness:
  "\<exists>r1 kp w1'. pde_ffi_dispatcher_sync sample_prims False (\<lambda>rest. rest = []) 4 [] (sample_world 1 0) =
      (Ok (ReplyOk r1), w1') \<and> sse_decode_FrbHybridKeyPair False r1 = Ok (kp, [])"
proof -
  have "end_law (\<lambda>rest. rest = [])" by (simp add: end_law_def)
  from wire_kem_session [OF sample_prims_laws this, of False "sample_world 1 0" "sample_world 2 0" "sample_world 3 0"]
  show ?thesis by blast
qed

section \<open>Callers of the bindings\<close>

text \<open>
  What a caller gets from the core or through one of the bindings. A Dart caller sends an encoded
  message and decodes the reply, of which nothing may be left.
\<close>

datatype side = Core | Dart | Python | Browser

definition decoded :: "(bytes \<Rightarrow> (unit, 'a \<times> bytes) res) \<Rightarrow> (unit, sse_reply) res \<Rightarrow> 'a option" where
  "decoded d r =
     (case r of Ok (ReplyOk bs) \<Rightarrow> (case d bs of Ok (x, []) \<Rightarrow> Some x | _ \<Rightarrow> None) | _ \<Rightarrow> None)"

fun ok_value :: "('e, 'a) res \<Rightarrow> 'a option" where
  "ok_value (Ok a) = Some a"
| "ok_value _ = None"

fun keypair_via :: "prims \<Rightarrow> bool \<Rightarrow> (bytes \<Rightarrow> bool) \<Rightarrow> side \<Rightarrow> world \<Rightarrow> (bytes \<times> bytes) option \<times> world" where
  "keypair_via P le fin Core w = apfst (\<lambda>k. Some (public_key k, private_key k)) (hybrid_keypair P w)"
| "keypair_via P le fin Dart w =
     apfst (\<lambda>r. map_option (\<lambda>k. (frb_public_key k, frb_private_key k)) (decoded (sse_decode_FrbHybridKeyPair le) r))
       (pde_ffi_dispatcher_sync P le fin 4 [] w)"
| "keypair_via P le fin Python w = apfst Some (py_hybrid_keypair P w)"
| "keypair_via P le fin Browser w =
     apfst (\<lambda>k. Some (wasm_public_key k, wasm_private_key k)) (wasm_hybrid_keypair P w)"

fun encap_via ::
  "prims \<Rightarrow> bool \<Rightarrow> (bytes \<Rightarrow> bool) \<Rightarrow> side \<Rightarrow> bytes \<Rightarrow> world \<Rightarrow> (bytes \<times> bytes) option \<times> world" where
  "encap_via P le fin Core pk w = apfst ok_value (hybrid_encap P pk w)"
| "encap_via P le fin Dart pk w =
     apfst (\<lambda>r. map_option (\<lambda>e. (frb_ciphertext e, frb_shared_secret e)) (decoded (sse_decode_FrbEncapResult le) r))
       (pde_ffi_dispatcher_sync P le fin 3 (sse_encode_bytes le pk) w)"
| "encap_via P le fin Python pk w = apfst ok_value (py_hybrid_encap P pk w)"
| "encap_via P le fin Browser pk w =
     apfst (\<lambda>r. map_option (\<lambda>e. (wasm_ciphertext e, wasm_shared_secret e)) (ok_value r)) (wasm_hybrid_encap P pk w)"

fun decap_via ::
  "prims \<Rightarrow> bool \<Rightarrow> (bytes \<Rightarrow> bool) \<Rightarrow> side \<Rightarrow> bytes \<Rightarrow> bytes \<Rightarrow> world \<Rightarrow> bytes option \<times> world" where
  "decap_via P le fin Core ct sk w = (ok_value (hybrid_decap P ct sk), w)"
| "decap_via P le fin Dart ct sk w = apfst (decoded (sse_decode_bytes le))
     (pde_ffi_dispatcher_sync P le fin 2 (sse_encode_bytes le ct @ sse_encode_bytes le sk) w)"
| "decap_via P le fin Python ct sk w = (ok_value (py_hybrid_decap P ct sk), w)"
| "decap_via P le fin Browser ct sk w = (ok_value (wasm_hybrid_decap P ct sk), w)"

fun derive_via ::
  "prims \<Rightarrow> bool \<Rightarrow> (bytes \<Rightarrow> bool) \<Rightarrow> side \<Rightarrow> bytes \<Rightarrow> u64 \<Rightarrow> u64 \<Rightarrow> world \<Rightarrow> bytes option \<times> world" where
  "derive_via P le fin Core es e i w = (ok_value (derive_dm_message_key P es e i), w)"
| "derive_via P le fin Dart es e i w = apfst (decoded (sse_decode_bytes le))
     (pde_ffi_dispatcher_sync P le fin 1 (sse_encode_bytes le es @ sse_encode_u64 le e @ sse_encode_u64 le i) w)"
| "derive_via P le fin Python es e i w = (ok_value (py_derive_dm_message_key P es e i), w)"
| "derive_via P le fin Browser es e i w = (ok_value (wasm_derive_dm_message_key P es e i), w)"

text \<open>A reply that decodes, and the four calls on the values of the core.\<close>

lemma decoded_Ok: "d bs = Ok (x, []) \<Longrightarrow> decoded d (Ok (ReplyOk bs)) = Some x"
  by (simp add: decoded_def)

lemma keypair_via_core:
  assumes "prims_laws P" "end_law fin" "hybrid_keypair P w = (k, w1)"
  shows "keypair_via P le fin s w = (Some (public_key k, private_key k), w1)"
proof (cases s)
  case Dart
  let ?kp = "\<lparr>frb_public_key = public_key k, frb_private_key = private_key k\<rparr>"
  have "fits_i32 (public_key k)" "fits_i32 (private_key k)"
    using kem.keys_sizes [OF hybrid_keypair_kem_pair [OF assms(1,3)]] by (simp_all add: fits_i32_def)
  then have "decoded (sse_decode_FrbHybridKeyPair le) (Ok (ReplyOk (sse_encode_FrbHybridKeyPair le ?kp))) = Some ?kp"
    using key_pair.dec_enc [of ?kp le "[]"] by (intro decoded_Ok) simp
  then show ?thesis
    using dispatch_call [OF assms(2), of KeypairCall P le w] by (simp add: Dart frb_hybrid_keypair_def assms(3))
qed (simp_all add: assms(3) py_hybrid_keypair_def wasm_hybrid_keypair_def)

lemma encap_via_core:
  assumes "end_law fin" "hybrid_encap P pk w = (Ok (ct, ss), w1)" "fits_i32 pk" "fits_i32 ct" "fits_i32 ss"
  shows "encap_via P le fin s pk w = (Some (ct, ss), w1)"
proof (cases s)
  case Dart
  let ?e = "\<lparr>frb_ciphertext = ct, frb_shared_secret = ss\<rparr>"
  have "decoded (sse_decode_FrbEncapResult le) (Ok (ReplyOk (sse_encode_FrbEncapResult le ?e))) = Some ?e"
    using encap_result.dec_enc [of ?e le "[]"] assms(4,5) by (intro decoded_Ok) simp
  then show ?thesis
    using dispatch_call [OF assms(1), of "EncapCall pk" P le w] assms(3)
    by (simp add: Dart frb_hybrid_encap_def assms(2) transform_result_sse_def)
qed (simp_all add: assms(2) py_hybrid_encap_def wasm_hybrid_encap_def)

lemma decap_via_core:
  assumes "end_law fin" "hybrid_decap P ct sk = Ok ss" "fits_i32 ct" "fits_i32 sk" "fits_i32 ss"
  shows "decap_via P le fin s ct sk w = (Some ss, w)"
proof (cases s)
  case Dart
  have "decoded (sse_decode_bytes le) (Ok (ReplyOk (sse_encode_bytes le ss))) = Some ss"
    using bytes.dec_enc [of ss le "[]"] assms(5) by (intro decoded_Ok) simp
  then show ?thesis
    using dispatch_call [OF assms(1), of "DecapCall ct sk" P le w] assms(3,4)
    by (simp add: Dart bindings_decap assms(2) transform_result_sse_def)
qed (simp_all add: bindings_decap assms(2))

lemma derive_via_core:
  assumes "end_law fin" "derive_dm_message_key P es e i = Ok key" "fits_i32 es" "fits_i32 key"
  shows "derive_via P le fin s es e i w = (Some key, w)"
proof (cases s)
  case Dart
  have "decoded (sse_decode_bytes le) (Ok (ReplyOk (sse_encode_bytes le key))) = Some key"
    using bytes.dec_enc [of key le "[]"] assms(4) by (intro decoded_Ok) simp
  then show ?thesis
    using dispatch_call [OF assms(1), of "DeriveCall es e i" P le w] assms(3)
    by (simp add: Dart frb_derive_dm_message_key_def assms(2) transform_result_sse_def)
qed (simp_all add: assms(2) py_derive_dm_message_key_def wasm_derive_dm_message_key_def)

text \<open>
  C40: the core and the bindings interoperate in every combination: a key pair generated by any of
  core, Dart (by message to the dispatcher), Python and browser, a secret encapsulated to it by
  any of the four, the ciphertext decapsulated by any of the four to the same secret, and the
  message key of any slot derived from that secret by any of the four, always the core's.
\<close>
theorem bindings_interoperate:
  assumes "prims_laws P" "end_law fin"
  shows "\<exists>pk sk w1 ct ss w2 key. keypair_via P le fin s1 w = (Some (pk, sk), w1) \<and>
    encap_via P le fin s2 pk w1 = (Some (ct, ss), w2) \<and>
    decap_via P le fin s3 ct sk w2 = (Some ss, w2) \<and>
    derive_via P le fin s4 ss e i w2 = (Some key, w2) \<and> derive_dm_message_key P ss e i = Ok key"
proof -
  obtain k w1 where k: "hybrid_keypair P w = (k, w1)" by fastforce
  note pair = hybrid_keypair_kem_pair [OF assms(1) k]
  obtain ct ss w2 where e: "hybrid_encap P (public_key k) w1 = (Ok (ct, ss), w2)" "length ct = 1120"
    "length ss = 32" "hybrid_decap P ct (private_key k) = Ok ss"
    by (rule kem.encapE [OF pair])
  obtain key where key: "derive_dm_message_key P ss e i = Ok key" "length key = 32"
    using e(3) prims_lawsD(5) [OF assms(1)] by (simp add: derive_dm_message_key_eq dm_message_kdf_input_def)
  have fits: "fits_i32 (public_key k)" "fits_i32 (private_key k)" "fits_i32 ct" "fits_i32 ss" "fits_i32 key"
    using kem.keys_sizes [OF pair] e(2,3) key(2) by (simp_all add: fits_i32_def)
  show ?thesis
    using keypair_via_core [OF assms k] encap_via_core [OF assms(2) e(1) fits(1,3,4)]
      decap_via_core [OF assms(2) e(4) fits(3,2,4)] derive_via_core [OF assms(2) key(1) fits(4,5)] key(1)
    by blast
qed

theorem bindings_interoperate_witness:
  "\<exists>pk sk w1 ct ss w2 key.
    keypair_via sample_prims True (\<lambda>rest. rest = []) Browser (sample_world 1 0) = (Some (pk, sk), w1) \<and>
    encap_via sample_prims True (\<lambda>rest. rest = []) Dart pk w1 = (Some (ct, ss), w2) \<and>
    decap_via sample_prims True (\<lambda>rest. rest = []) Python ct sk w2 = (Some ss, w2) \<and>
    derive_via sample_prims True (\<lambda>rest. rest = []) Dart ss 7 3 w2 = (Some key, w2)"
proof -
  have "end_law (\<lambda>rest. rest = [])" by (simp add: end_law_def)
  from bindings_interoperate [OF sample_prims_laws this, of True Browser "sample_world 1 0" Dart Python Dart 7 3]
  show ?thesis by blast
qed

end
