(* ===== verification/Glue.thy ===== *)
theory Glue
  imports Frb_Wire Dm_Session Group_Ratchet Pqdm Pqroute Suites "HOL-Library.Sublist"
begin

text \<open>
  The remaining implementations around the core: conversions between the error enums, the
  serialised forms of the registry's types, the registration of the Python module, and the
  Dart objects of the bridge. PyO3's module object and the constructors of Dart objects are
  arguments.
\<close>

section \<open>Error conversions\<close>

text \<open>The \<open>From\<close> implementations that \<open>?\<close> uses, and \<open>Error::source\<close>, which only \<open>PqDmError\<close> defines.\<close>

definition RatchetError_from :: "kem_error \<Rightarrow> ratchet_error" where
  "RatchetError_from e = RatchetKem e"

definition GroupRatchetError_from :: "kem_error \<Rightarrow> group_ratchet_error" where
  "GroupRatchetError_from e = GKem e"

definition PqDmError_from :: "kem_error \<Rightarrow> pqdm_error" where
  "PqDmError_from e = DmKem e"

definition PqRouteError_from :: "kem_error \<Rightarrow> pqroute_error" where
  "PqRouteError_from e = RouteKem e"

definition DmSessionError_from :: "ratchet_error \<Rightarrow> dm_session_error" where
  "DmSessionError_from e = SessionRatchet e"

fun PqDmError_source :: "pqdm_error \<Rightarrow> kem_error option" where
  "PqDmError_source (DmKem e) = Some e"
| "PqDmError_source _ = None"

text \<open>A conversion loses nothing: it can be undone, and the message ends with the original one.\<close>

locale error_conversion =
  fixes from_error :: "'a \<Rightarrow> 'b" and display :: "'a \<Rightarrow> rstr" and display' :: "'b \<Rightarrow> rstr"
  assumes from_inject: "from_error e = from_error e' \<longleftrightarrow> e = e'"
    and from_display: "suffix (display e) (display' (from_error e))"
begin

lemma chained:
  assumes "error_conversion from_error' display' display''"
  shows "error_conversion (from_error' \<circ> from_error) display display''"
proof -
  have "from_error' x = from_error' y \<longleftrightarrow> x = y" "suffix (display' x) (display'' (from_error' x))" for x y
    using assms unfolding error_conversion_def by blast+
  then show ?thesis
    unfolding error_conversion_def
    using from_inject from_display suffix_order.trans by (metis comp_apply)
qed

end

lemmas conversion_defs = RatchetError_from_def GroupRatchetError_from_def PqDmError_from_def
  PqRouteError_from_def DmSessionError_from_def

interpretation ratchet_from: error_conversion RatchetError_from kem_error_display ratchet_error_display
  by unfold_locales (auto simp: conversion_defs suffix_def)

interpretation group_from: error_conversion GroupRatchetError_from kem_error_display group_ratchet_error_display
  by unfold_locales (auto simp: conversion_defs suffix_def)

interpretation pqdm_from: error_conversion PqDmError_from kem_error_display pqdm_error_display
  by unfold_locales (auto simp: conversion_defs suffix_def)

interpretation route_from: error_conversion PqRouteError_from kem_error_display pqroute_error_display
  by unfold_locales (auto simp: conversion_defs suffix_def)

interpretation session_from: error_conversion DmSessionError_from ratchet_error_display dm_session_error_display
  by unfold_locales (auto simp: conversion_defs suffix_def)

text \<open>So a KEM error that surfaces in a session is reported in full.\<close>

lemma session_reports_kem:
  "suffix (kem_error_display e) (dm_session_error_display (DmSessionError_from (RatchetError_from e)))"
  using ratchet_from.from_display session_from.from_display suffix_order.trans by blast

lemma source_of_conversion: "PqDmError_source e = Some k \<longleftrightarrow> e = PqDmError_from k"
  by (cases e) (auto simp: conversion_defs)

section \<open>Serialised registry types\<close>

definition SuiteKind_serialize :: "SuiteKind \<Rightarrow> json" where
  "SuiteKind_serialize k = JStr (SuiteKind_as_str k)"

definition SuiteStatus_serialize :: "SuiteStatus \<Rightarrow> json" where
  "SuiteStatus_serialize s = JStr (SuiteStatus_as_str s)"

definition CryptoSuite_serialize :: "CryptoSuite \<Rightarrow> json" where
  "CryptoSuite_serialize s = CryptoSuite_to_dict s"

lemma serialize_fields:
  "json_get (CryptoSuite_serialize s) (lit ''kind'') = Some (SuiteKind_serialize (cs_kind s))"
  "json_get (CryptoSuite_serialize s) (lit ''status'') = Some (SuiteStatus_serialize (cs_status s))"
  by (simp_all add: CryptoSuite_serialize_def CryptoSuite_to_dict_def json_get_object
      SuiteKind_serialize_def SuiteStatus_serialize_def)

section \<open>The Python module\<close>

text \<open>
  What \<open>m.add\<close> is given: a string, an integer or a function. \<open>add\<close> is PyO3's
  \<open>PyModule::add\<close>; a failed addition ends the initialisation.
\<close>

datatype py_value = PyStr rstr | PyInt nat | PyFunction rstr

definition py_module_doc :: rstr where
  "py_module_doc =
     lit ''Rust-backed hybrid X25519+ML-KEM-768 (FIPS 203) PQC core '' @ [0x2014] @
     lit '' PyO3 bindings for sk-pqc-rs. Hybrid (either-leg), not quantum-proof.''"

definition sk_pqc_rs :: "(rstr \<Rightarrow> py_value \<Rightarrow> 'm \<Rightarrow> ('e, 'm) res) \<Rightarrow> 'm \<Rightarrow> ('e, 'm) res" where
  "sk_pqc_rs add m =
     and_then (add (lit ''__doc__'') (PyStr py_module_doc) m) (\<lambda>m.
     and_then (add (lit ''SUITE_ID'') (PyStr SUITE_ID) m) (\<lambda>m.
     and_then (add (lit ''PUBLIC_KEY_LEN'') (PyInt PUBLIC_KEY_LEN) m) (\<lambda>m.
     and_then (add (lit ''PRIVATE_KEY_LEN'') (PyInt PRIVATE_KEY_LEN) m) (\<lambda>m.
     and_then (add (lit ''CIPHERTEXT_LEN'') (PyInt CIPHERTEXT_LEN) m) (\<lambda>m.
     and_then (add (lit ''SHARED_SECRET_LEN'') (PyInt SHARED_SECRET_LEN) m) (\<lambda>m.
     and_then (add (lit ''hybrid_keypair'') (PyFunction (lit ''hybrid_keypair'')) m) (\<lambda>m.
     and_then (add (lit ''hybrid_encap'') (PyFunction (lit ''hybrid_encap'')) m) (\<lambda>m.
     and_then (add (lit ''hybrid_decap'') (PyFunction (lit ''hybrid_decap'')) m) (\<lambda>m.
     and_then (add (lit ''derive_dm_message_key'') (PyFunction (lit ''derive_dm_message_key'')) m) (\<lambda>m.
       Ok m))))))))))"

text \<open>Into a dictionary: the names are different, so every one of them is there afterwards.\<close>

lemma python_module_dict:
  "\<exists>m. sk_pqc_rs (\<lambda>k v m. Ok (m(k \<mapsto> v))) Map.empty = Ok m \<and>
     m (lit ''SUITE_ID'') = Some (PyStr SUITE_ID) \<and>
     (\<forall>(k, n) \<in> set py_module_constants. m k = Some (PyInt n)) \<and>
     (\<forall>f \<in> {''hybrid_keypair'', ''hybrid_encap'', ''hybrid_decap'', ''derive_dm_message_key''}.
        m (lit f) = Some (PyFunction (lit f)))"
  by (simp add: sk_pqc_rs_def py_module_constants_def lit_def)

section \<open>Dart objects\<close>

text \<open>
  \<open>bytes_obj\<close> and \<open>array_obj\<close>: the library's Dart object of a byte vector and of an array of
  objects. \<open>IntoIntoDart\<close> is the identity on these types.
\<close>

definition FLUTTER_RUST_BRIDGE_CODEGEN_VERSION :: rstr where
  "FLUTTER_RUST_BRIDGE_CODEGEN_VERSION = lit ''2.12.0''"

definition FLUTTER_RUST_BRIDGE_CODEGEN_CONTENT_HASH :: int where
  "FLUTTER_RUST_BRIDGE_CODEGEN_CONTENT_HASH = 1190522885"

definition FrbEncapResult_into_dart ::
  "(bytes \<Rightarrow> 'd) \<Rightarrow> ('d list \<Rightarrow> 'd) \<Rightarrow> FrbEncapResult \<Rightarrow> 'd" where
  "FrbEncapResult_into_dart bytes_obj array_obj r =
     array_obj [bytes_obj (frb_ciphertext r), bytes_obj (frb_shared_secret r)]"

definition FrbEncapResult_into_into_dart :: "FrbEncapResult \<Rightarrow> FrbEncapResult" where
  "FrbEncapResult_into_into_dart r = r"

definition FrbHybridKeyPair_into_dart ::
  "(bytes \<Rightarrow> 'd) \<Rightarrow> ('d list \<Rightarrow> 'd) \<Rightarrow> FrbHybridKeyPair \<Rightarrow> 'd" where
  "FrbHybridKeyPair_into_dart bytes_obj array_obj kp =
     array_obj [bytes_obj (frb_public_key kp), bytes_obj (frb_private_key kp)]"

definition FrbHybridKeyPair_into_into_dart :: "FrbHybridKeyPair \<Rightarrow> FrbHybridKeyPair" where
  "FrbHybridKeyPair_into_into_dart kp = kp"

text \<open>Both lists put the public part first, as the serialised forms do, and lose nothing.\<close>

lemma into_dart_inject:
  assumes "inj bytes_obj" "inj array_obj"
  shows "inj (FrbEncapResult_into_dart bytes_obj array_obj)"
    and "inj (FrbHybridKeyPair_into_dart bytes_obj array_obj)"
  using assms
  by (auto intro!: injI simp: FrbEncapResult_into_dart_def FrbHybridKeyPair_into_dart_def inj_eq)

section \<open>Small definitions\<close>

definition GROUP_MESSAGE_KEY_LEN :: nat where "GROUP_MESSAGE_KEY_LEN = 32"
definition ROUTE_WRAP_KEY_LEN :: nat where "ROUTE_WRAP_KEY_LEN = 32"

definition parse_json :: "serde \<Rightarrow> bytes \<Rightarrow> rstr + json" where
  "parse_json J bs = from_slice J bs"

lemma derived_lengths:
  assumes "kdf_sizes P"
  shows "length (derive_message_key_arr P es e i) = GROUP_MESSAGE_KEY_LEN"
    and "length (derive_wrap_key P ss aad) = ROUTE_WRAP_KEY_LEN"
  using assms
  by (simp_all add: GROUP_MESSAGE_KEY_LEN_def ROUTE_WRAP_KEY_LEN_def derive_wrap_key_def group_key_eq Let_def
      split: prod.split)

end
