(* ===== verification/Test_Kit.thy ===== *)
theory Test_Kit
  imports World
begin

text \<open>
  The crate's tests (its \<open>#[cfg(test)]\<close> modules and \<open>tests/\<close>) are part of the source, and the
  theories named \<open>_Tests\<close> translate them as programs over the model. A test threads the world; a failed assertion and an \<open>unwrap\<close> of an error
  panic. It is verified by computing weakest preconditions, so that it is shown to pass for
  every entropy, every clock (within stated bounds) and every set of primitives with the stated laws.
\<close>

section \<open>Test programs\<close>

type_synonym 'a test = "world \<Rightarrow> (unit, 'a) res \<times> world"

definition test_then :: "'a test \<Rightarrow> ('a \<Rightarrow> 'b test) \<Rightarrow> 'b test" where
  "test_then t f w = (case t w of (Ok a, w1) \<Rightarrow> f a w1 | (Err e, w1) \<Rightarrow> (Err e, w1) | (Panic, w1) \<Rightarrow> (Panic, w1))"

text \<open>\<open>checks\<close> is a sequence of assertions.\<close>

definition checks :: "bool list \<Rightarrow> unit test" where
  "checks bs w = (if list_all id bs then Ok () else Panic, w)"

text \<open>A call that draws on the world; the same with an \<open>unwrap\<close>; an \<open>unwrap\<close> of a value.\<close>

definition effect :: "(world \<Rightarrow> 'a \<times> world) \<Rightarrow> 'a test" where
  "effect f w = (let (a, w1) = f w in (Ok a, w1))"

definition unwrapped :: "(world \<Rightarrow> ('e, 'a) res \<times> world) \<Rightarrow> 'a test" where
  "unwrapped f w = (case f w of (Ok a, w1) \<Rightarrow> (Ok a, w1) | (_, w1) \<Rightarrow> (Panic, w1))"

definition unwrap :: "('e, 'a) res \<Rightarrow> 'a test" where
  "unwrap r w = (case r of Ok a \<Rightarrow> (Ok a, w) | _ \<Rightarrow> (Panic, w))"

text \<open>A call that may not return, which is the outcome \<open>Err ()\<close>.\<close>

definition returned :: "(world \<Rightarrow> ('a \<times> world) option) \<Rightarrow> 'a test" where
  "returned f w = (case f w of None \<Rightarrow> (Err (), w) | Some (a, w1) \<Rightarrow> (Ok a, w1))"

text \<open>A method on \<open>&mut self\<close> that returns a result, unwrapped.\<close>

definition unwrapped_mut :: "(world \<Rightarrow> ('e, 'a) res \<times> 's \<times> world) \<Rightarrow> ('a \<times> 's) test" where
  "unwrapped_mut f w = (case f w of (Ok a, s, w1) \<Rightarrow> (Ok (a, s), w1) | (_, s, w1) \<Rightarrow> (Panic, w1))"

text \<open>A \<open>for\<close> loop over a list.\<close>

fun for_each :: "('a \<Rightarrow> unit test) \<Rightarrow> 'a list \<Rightarrow> unit test" where
  "for_each f [] = checks []"
| "for_each f (x # xs) = test_then (f x) (\<lambda>_. for_each f xs)"

text \<open>\<open>Result::is_err\<close>.\<close>

fun is_err :: "('e, 'a) res \<Rightarrow> bool" where
  "is_err (Err e) = True"
| "is_err _ = False"

definition passes :: "unit test \<Rightarrow> world \<Rightarrow> bool" where
  "passes t w \<longleftrightarrow> fst (t w) = Ok ()"

section \<open>Weakest preconditions\<close>

definition wp :: "'a test \<Rightarrow> ('a \<Rightarrow> world \<Rightarrow> bool) \<Rightarrow> world \<Rightarrow> bool" where
  "wp t Q w \<longleftrightarrow> (case t w of (Ok a, w1) \<Rightarrow> Q a w1 | _ \<Rightarrow> False)"

named_theorems wp_rules \<open>weakest preconditions of test programs\<close>

lemma passes_wp [wp_rules]: "passes t w \<longleftrightarrow> wp t (\<lambda>_ _. True) w"
  by (auto simp: passes_def wp_def split: prod.split res.split)

lemma wp_then [wp_rules]: "wp (test_then t f) Q w \<longleftrightarrow> wp t (\<lambda>a. wp (f a) Q) w"
  by (auto simp: wp_def test_then_def split: prod.split res.split)

lemma wp_checks [wp_rules]: "wp (checks bs) Q w \<longleftrightarrow> list_all id bs \<and> Q () w"
  by (simp add: wp_def checks_def)

lemma wp_effect [wp_rules]: "wp (effect f) Q w \<longleftrightarrow> Q (fst (f w)) (snd (f w))"
  by (simp add: wp_def effect_def Let_def case_prod_unfold)

lemma wp_unwrapped [wp_rules]: "wp (unwrapped f) Q w \<longleftrightarrow> (\<exists>a w1. f w = (Ok a, w1) \<and> Q a w1)"
  by (auto simp: wp_def unwrapped_def split: prod.split res.split)

lemma wp_returned [wp_rules]: "wp (returned f) Q w \<longleftrightarrow> (\<exists>a w1. f w = Some (a, w1) \<and> Q a w1)"
  by (auto simp: wp_def returned_def split: option.split)

lemma wp_unwrap [wp_rules]: "wp (unwrap r) Q w \<longleftrightarrow> (\<exists>a. r = Ok a \<and> Q a w)"
  by (cases r) (simp_all add: wp_def unwrap_def)

lemma wp_unwrapped_mut [wp_rules]:
  "wp (unwrapped_mut f) Q w \<longleftrightarrow> (\<exists>a s w1. f w = (Ok a, s, w1) \<and> Q (a, s) w1)"
  by (auto simp: wp_def unwrapped_mut_def split: prod.split res.split)

lemma wp_for_each: "wp (for_each f xs) Q w \<longleftrightarrow> (case xs of [] \<Rightarrow> Q () w | y # ys \<Rightarrow> wp (f y) (\<lambda>_. wp (for_each f ys) Q) w)"
  by (cases xs) (simp_all add: wp_then wp_checks)

lemma wp_mono: "wp t Q w \<Longrightarrow> (\<And>a w1. Q a w1 \<Longrightarrow> R a w1) \<Longrightarrow> wp t R w"
  by (auto simp: wp_def split: prod.splits res.splits)

section \<open>Clocks\<close>

text \<open>What one reading of the clock gives, and clocks that show a time below \<open>2 ^ 52\<close> seconds.\<close>

fun reading :: "(u64 \<times> u32) option \<Rightarrow> f64" where
  "reading (Some (s, n)) = as_secs_f64 s n"
| "reading None = Fin 0"

definition sane_time :: "f64 \<Rightarrow> bool" where
  "sane_time t \<longleftrightarrow> (\<exists>x. t = Fin x \<and> 0 \<le> x \<and> x \<le> 2 ^ 52)"

definition sane_clock :: "world \<Rightarrow> bool" where
  "sane_clock w \<longleftrightarrow> (\<forall>r \<in> sset (clock w). sane_time (reading r))"

lemma now_seconds_reading: "now_seconds w = (reading (shd (clock w)), w\<lparr>clock := stl (clock w)\<rparr>)"
  by (simp add: now_seconds_def split: option.split)

lemma sane_clock_now: "sane_clock w \<Longrightarrow> sane_time (fst (now_seconds w))"
  by (simp add: sane_clock_def now_seconds_reading shd_sset)

lemma sane_clock_next: "sane_clock w \<Longrightarrow> sane_clock (snd (now_seconds w))"
  by (auto simp: sane_clock_def now_seconds_reading dest: stl_sset)

text \<open>Adding a whole number of seconds to a time and subtracting the time again is off by less than two.\<close>

lemma round64_between:
  assumes "of_int lo \<le> z" "z \<le> of_int hi" "\<bar>lo\<bar> < 2 ^ 53" "\<bar>hi\<bar> < 2 ^ 53"
  obtains y where "round64 z = Fin y" "of_int lo \<le> y" "y \<le> of_int hi"
proof -
  have y: "of_int lo \<le> round_rat z" "round_rat z \<le> of_int hi"
    using round_rat_mono [OF assms(1)] round_rat_mono [OF assms(2)] round_rat_of_int assms(3,4) by simp_all
  have "rat_of_int hi < of_int (2 ^ 53)" "rat_of_int (- (2 ^ 53)) < of_int lo"
    using assms(3,4) by (simp_all only: of_int_less_iff)
  then have "round_rat z < 2 ^ 1024" "- (2 ^ 1024) < round_rat z" using y by simp_all
  then have "round64 z = Fin (round_rat z)" by (simp add: round64_def Let_def)
  then show ?thesis using that y by blast
qed

lemma step_seconds:
  assumes "sane_time t" "0 \<le> k" "k \<le> 2 ^ 20"
  obtains d where "f64_sub (f64_add t (Fin (of_int k))) t = Fin d" "of_int k - 1 \<le> d" "d \<le> of_int k + 1"
proof -
  obtain x where x: "t = Fin x" "0 \<le> x" "x \<le> 2 ^ 52" using assms(1) by (auto simp: sane_time_def)
  define m where "m = \<lfloor>x\<rfloor>"
  have m: "of_int m \<le> x" "x < of_int m + 1" "0 \<le> m" "m \<le> 2 ^ 52"
    using x by (simp_all add: m_def) linarith+
  obtain y where y: "round64 (x + of_int k) = Fin y" "of_int (m + k) \<le> y" "y \<le> of_int (m + 1 + k)"
    by (rule round64_between [of "m + k" "x + of_int k" "m + 1 + k"]) (use m assms in simp_all)
  obtain d where "round64 (y - x) = Fin d" "of_int (k - 1) \<le> d" "d \<le> of_int (k + 1)"
    by (rule round64_between [of "k - 1" "y - x" "k + 1"]) (use m y assms in simp_all)
  then show ?thesis using that x(1) y(1) by (simp add: f64_sub_def)
qed

end
