(* ===== verification/Services_Tests.thy ===== *)
theory Services_Tests
  imports Test_Kit Report Anon_Queue
begin

text \<open>
  The unit tests of \<open>suites.rs\<close>, \<open>report.rs\<close> and \<open>anon_queue.rs\<close>. Those of the registry and the
  report have no input and are evaluated.
\<close>

section \<open>The registry\<close>

definition test_status_predicate_honesty :: "unit test" where
  "test_status_predicate_honesty = checks
     [\<not> SuiteStatus_is_quantum_resistant Classical,
      SuiteStatus_is_quantum_resistant HybridPq,
      SuiteStatus_is_quantum_resistant Pq,
      SuiteStatus_is_quantum_resistant Symmetric]"

definition test_seeded_registry_has_the_three_named_suites :: "unit test" where
  "test_seeded_registry_has_the_three_named_suites =
     (let r = Registry_seeded
      in checks
        [Registry_suite_status r (lit ''x25519-mlkem768'') = HybridPq,
         Registry_suite_status r (lit ''x25519-pgp-wrap-v1'') = Classical,
         Registry_suite_status r (lit ''aes256-gcm-v1'') = Symmetric,
         (case Registry_get_suite r (lit ''x25519-mlkem768'') of
            Some s \<Rightarrow> cs_replaces s = Some (lit ''x25519-pgp-wrap-v1'') | None \<Rightarrow> False)])"

definition test_quantum_resistance_per_suite :: "unit test" where
  "test_quantum_resistance_per_suite =
     (let r = Registry_seeded
      in checks
        [Registry_is_quantum_resistant r (lit ''x25519-mlkem768''),
         Registry_is_quantum_resistant r (lit ''aes256-gcm-v1''),
         \<not> Registry_is_quantum_resistant r (lit ''x25519-pgp-wrap-v1'')])"

definition test_unknown_suite_is_classical_and_not_qr :: "unit test" where
  "test_unknown_suite_is_classical_and_not_qr =
     (let r = Registry_seeded
      in checks
        [Registry_get_suite r (lit ''totally-made-up'') = None,
         Registry_suite_status r (lit ''totally-made-up'') = Classical,
         \<not> Registry_is_quantum_resistant r (lit ''totally-made-up'')])"

definition test_all_suites_stable_classical_first :: "unit test" where
  "test_all_suites_stable_classical_first =
     checks [map cs_suite_id (Registry_all_suites Registry_seeded) =
       [lit ''x25519-pgp-wrap-v1'', lit ''x25519-mlkem768'', lit ''aes256-gcm-v1'']]"

definition test_register_is_idempotent_last_write_wins :: "unit test" where
  "test_register_is_idempotent_last_write_wins =
     (let r = Registry_empty;
          (s1, r) = Registry_register (CryptoSuite_new (lit ''x'') SuiteKem Classical [lit ''a''] [] (lit ''first'') True) r;
          (s2, r) = Registry_register (CryptoSuite_new (lit ''x'') SuiteKem HybridPq [lit ''b''] [] (lit ''second'') True) r
      in checks
        [length (Registry_all_suites r) = 1,
         (case Registry_get_suite r (lit ''x'') of
            Some s \<Rightarrow> cs_description s = lit ''second'' | None \<Rightarrow> False),
         (case Registry_get_suite r (lit ''x'') of Some s \<Rightarrow> cs_status s = HybridPq | None \<Rightarrow> False)])"

text \<open>Indexing a \<open>Value\<close>: an absent key or position reads as \<open>Null\<close>.\<close>

fun json_index :: "json \<Rightarrow> string \<Rightarrow> json" where
  "json_index v k = (case json_get v (lit k) of Some x \<Rightarrow> x | None \<Rightarrow> JNull)"

fun json_at :: "json \<Rightarrow> nat \<Rightarrow> json" where
  "json_at (JArr xs) i = (if i < length xs then xs ! i else JNull)"
| "json_at _ i = JNull"

definition test_parity_to_dict_json_shape :: "unit test" where
  "test_parity_to_dict_json_shape =
     (case Registry_get_suite Registry_seeded (lit ''x25519-mlkem768'') of
        None \<Rightarrow> checks [False]
      | Some s \<Rightarrow>
         (let d = CryptoSuite_to_dict s
          in checks
            [json_index d ''suite_id'' = JStr (lit ''x25519-mlkem768''),
             json_index d ''kind'' = JStr (lit ''kem''),
             json_index d ''status'' = JStr (lit ''hybrid-pq''),
             json_index d ''quantum_resistant'' = JBool True,
             json_index d ''active'' = JBool True,
             json_index d ''replaces'' = JStr (lit ''x25519-pgp-wrap-v1''),
             json_at (json_index d ''fips_refs'') 0 = JStr (lit ''FIPS 203''),
             json_at (json_index d ''primitives'') 1 = JStr (lit ''ML-KEM-768 (FIPS 203, liboqs)''),
             (case as_object d of None \<Rightarrow> False
              | Some obj \<Rightarrow> list_all (\<lambda>k. lit k \<in> fst ` set obj)
                  [''suite_id'', ''kind'', ''status'', ''primitives'', ''fips_refs'', ''description'',
                   ''active'', ''quantum_resistant'', ''replaces''])]))"

definition test_global_singleton_is_seeded :: "unit test" where
  "test_global_singleton_is_seeded = checks
     [get_suite (lit ''x25519-mlkem768'') \<noteq> None,
      is_quantum_resistant (lit ''x25519-mlkem768''),
      \<not> is_quantum_resistant (lit ''x25519-pgp-wrap-v1''),
      length active_suites = 3]"

lemma seeded_get: "Registry_get_suite Registry_seeded i = get_suite i"
  by (simp add: get_suite_def Registry_global_def)

lemma seeded_lookup:
  "Registry_suite_status Registry_seeded i = (case get_suite i of Some s \<Rightarrow> cs_status s | None \<Rightarrow> Classical)"
  "Registry_is_quantum_resistant Registry_seeded i =
     (case get_suite i of Some s \<Rightarrow> CryptoSuite_is_quantum_resistant s | None \<Rightarrow> False)"
  by (simp_all add: Registry_suite_status_def Registry_is_quantum_resistant_def seeded_get)

lemma mlkem_fields:
  "cs_kind mlkem_suite = SuiteKem" "cs_active mlkem_suite" "cs_replaces mlkem_suite = Some (lit ''x25519-pgp-wrap-v1'')"
  "cs_fips_refs mlkem_suite = [lit ''FIPS 203'', lit ''RFC 7748'', lit ''RFC 5869'']"
  "cs_primitives mlkem_suite =
     [lit ''X25519 (ephemeral-static DHKEM)'', lit ''ML-KEM-768 (FIPS 203, liboqs)'',
      lit ''HKDF-SHA256 concat-KDF combiner'']"
  by (simp_all add: mlkem_suite_def CryptoSuite_new_def CryptoSuite_replacing_def)

lemma seeded_suites_active [simp]:
  "cs_active pgp_wrap_suite" "cs_active aes256_gcm_suite" "cs_active mlkem_suite"
  by (simp_all add: pgp_wrap_suite_def aes256_gcm_suite_def mlkem_suite_def CryptoSuite_new_def
      CryptoSuite_replacing_def)

text \<open>The seeded listing: three suites, sorted by activity, status and id.\<close>

lemma seeded_all_suites: "Registry_all_suites Registry_seeded = [pgp_wrap_suite, mlkem_suite, aes256_gcm_suite]"
proof -
  let ?vs = "map snd (hash_entries (by_id Registry_seeded))"
  have keys: "suite_sort_key pgp_wrap_suite = (False, lit ''classical'', lit ''x25519-pgp-wrap-v1'')"
    "suite_sort_key mlkem_suite = (False, lit ''hybrid-pq'', lit ''x25519-mlkem768'')"
    "suite_sort_key aes256_gcm_suite = (False, lit ''symmetric'', lit ''aes256-gcm-v1'')"
    by (simp_all add: suite_sort_key_def)
  have get: "fmlookup (by_id Registry_seeded) i = get_suite i" for i
    by (simp add: get_suite_def Registry_get_suite_def Registry_global_def)
  have found: "get_suite (lit ''x25519-pgp-wrap-v1'') = Some pgp_wrap_suite"
    "get_suite (lit ''x25519-mlkem768'') = Some mlkem_suite"
    "get_suite (lit ''aes256-gcm-v1'') = Some aes256_gcm_suite"
    by (simp_all add: get_suite_eq)
  have "get_suite i = Some s \<Longrightarrow> s \<in> {pgp_wrap_suite, mlkem_suite, aes256_gcm_suite}" for i s
    by (auto simp: get_suite_eq split: if_splits)
  then have "set [pgp_wrap_suite, mlkem_suite, aes256_gcm_suite] = set ?vs"
    unfolding set_registry_values get using found by auto
  moreover have "distinct ?vs"
    using registry_values_distinct_ids [OF registry_wf_seeded] distinct_map by blast
  moreover have "distinct [pgp_wrap_suite, mlkem_suite, aes256_gcm_suite]"
    using seeded_ids(4-6) by (metis SuiteStatus.distinct(1,5,9) distinct_length_2_or_more distinct_singleton)
  ultimately have "mset [pgp_wrap_suite, mlkem_suite, aes256_gcm_suite] = mset ?vs"
    using set_eq_iff_mset_eq_distinct by blast
  from all_suites_any_order [OF registry_wf_seeded this, symmetric] show ?thesis
    by (simp add: insort_key_def keys less_eq_prod_def lit_def less_list_code)
qed

lemmas registry_tests =
  test_status_predicate_honesty_def test_seeded_registry_has_the_three_named_suites_def
  test_quantum_resistance_per_suite_def test_unknown_suite_is_classical_and_not_qr_def
  test_all_suites_stable_classical_first_def test_global_singleton_is_seeded_def

lemma registry_tests_pass:
  "passes test_status_predicate_honesty w"
  "passes test_seeded_registry_has_the_three_named_suites w"
  "passes test_quantum_resistance_per_suite w"
  "passes test_unknown_suite_is_classical_and_not_qr w"
  "passes test_all_suites_stable_classical_first w"
  "passes test_global_singleton_is_seeded w"
  by (simp_all add: registry_tests Let_def wp_rules seeded_lookup seeded_get get_suite_eq mlkem_fields
      CryptoSuite_is_quantum_resistant_def is_quantum_resistant_def Registry_global_def
      seeded_all_suites active_suites_def Registry_active_suites_def)

lemma register_test_passes: "passes test_register_is_idempotent_last_write_wins w"
  by (simp add: test_register_is_idempotent_last_write_wins_def Let_def Registry_register_def
      Registry_empty_def CryptoSuite_new_def Registry_get_suite_def Registry_all_suites_def
      hash_entries_def sorted_list_of_fset.rep_eq wp_rules)

lemma keys_btree_collect: "fst ` set (btree_collect kvs) = fst ` set kvs"
proof -
  have "fst ` set (fold (\<lambda>(k, v). btree_insert k v) kvs acc) = fst ` set kvs \<union> fst ` set acc" for acc
    by (induction kvs arbitrary: acc) (simp_all add: case_prod_unfold set_btree_insert)
  then show ?thesis by (simp add: btree_collect_def)
qed

lemma to_dict_test_passes: "passes test_parity_to_dict_json_shape w"
proof -
  have "as_object (CryptoSuite_to_dict mlkem_suite) =
      Some (btree_collect [(lit ''suite_id'', JStr (cs_suite_id mlkem_suite)),
        (lit ''kind'', JStr (SuiteKind_as_str (cs_kind mlkem_suite))),
        (lit ''status'', JStr (SuiteStatus_as_str (cs_status mlkem_suite))),
        (lit ''primitives'', JArr (map JStr (cs_primitives mlkem_suite))),
        (lit ''fips_refs'', JArr (map JStr (cs_fips_refs mlkem_suite))),
        (lit ''description'', JStr (cs_description mlkem_suite)),
        (lit ''active'', JBool (cs_active mlkem_suite)),
        (lit ''quantum_resistant'', JBool (CryptoSuite_is_quantum_resistant mlkem_suite)),
        (lit ''replaces'', (case cs_replaces mlkem_suite of None \<Rightarrow> JNull | Some r \<Rightarrow> JStr r))])"
    by (simp add: CryptoSuite_to_dict_def json_object_def)
  then show ?thesis
    by (simp add: test_parity_to_dict_json_shape_def seeded_get get_suite_eq wp_rules keys_btree_collect
        Let_def mlkem_fields CryptoSuite_to_dict_def json_get_object CryptoSuite_is_quantum_resistant_def)
qed

section \<open>The self-report\<close>

definition test_classical_suite_is_never_quantum_resistant :: "unit test" where
  "test_classical_suite_is_never_quantum_resistant =
     for_each (\<lambda>level.
       test_then (unwrap (dm_ratchet_surface_for (lit ''x25519-pgp-wrap-v1'') level 9 (lit ''bob''))) (\<lambda>s.
       checks
         [sr_status s = lit ''classical'',
          \<not> sr_quantum_resistant s,
          str_contains (lit ''HNDL-exposed'') (sr_note s),
          is_honest_note (sr_note s)]))
       [L2Oneshot, L3Epoch]"

definition test_unknown_suite_resolves_classical_not_qr :: "unit test" where
  "test_unknown_suite_resolves_classical_not_qr =
     test_then (unwrap (dm_ratchet_surface_for (lit ''acme-unobtainium-9000'') L3Epoch 1 [])) (\<lambda>s.
     checks
       [sr_status s = lit ''classical'',
        \<not> sr_quantum_resistant s,
        sr_primitives s = [lit ''unknown''],
        sr_fips_refs s = []])"

definition test_empty_suite_falls_back_to_classical_default :: "unit test" where
  "test_empty_suite_falls_back_to_classical_default =
     test_then (unwrap (dm_ratchet_surface_for [] L2Oneshot 0 [])) (\<lambda>s.
     checks
       [sr_active_suite s = DEFAULT_CONVERSATION_SUITE,
        sr_status s = lit ''classical'',
        \<not> sr_quantum_resistant s])"

definition test_hybrid_l3_is_quantum_resistant :: "unit test" where
  "test_hybrid_l3_is_quantum_resistant =
     test_then (unwrap (dm_ratchet_surface_for REPORT_HYBRID_KEM_SUITE L3Epoch 5 (lit ''bob''))) (\<lambda>s.
     checks
       [sr_status s = lit ''hybrid-pq'',
        sr_quantum_resistant s,
        str_contains (lit ''FIPS 203'') (sr_note s),
        str_contains (lit ''EITHER'') (sr_note s),
        str_contains (lit ''epoch 5'') (sr_note s),
        is_honest_note (sr_note s)])"

definition test_hybrid_l2_oneshot_states_limited_fs :: "unit test" where
  "test_hybrid_l2_oneshot_states_limited_fs =
     test_then (unwrap (dm_ratchet_surface_for REPORT_HYBRID_KEM_SUITE L2Oneshot 0 [])) (\<lambda>s.
     checks
       [sr_status s = lit ''hybrid-pq'',
        sr_quantum_resistant s,
        str_contains (lit ''one-shot hybrid seal'') (sr_note s),
        str_contains (lit ''EITHER'') (sr_note s)])"

definition test_no_builder_ever_emits_a_forbidden_word :: "unit test" where
  "test_no_builder_ever_emits_a_forbidden_word =
     for_each (\<lambda>suite.
       test_then
         (for_each (\<lambda>level. for_each (\<lambda>peer.
            test_then (unwrap (dm_ratchet_surface_for suite level 3 peer)) (\<lambda>dm.
            checks [is_honest_note (sr_note dm)]))
            [[], lit ''alice''])
            [L2Oneshot, L3Epoch]) (\<lambda>_.
       for_each (\<lambda>kind.
         test_then (unwrap (conversation_surface_for suite kind (lit ''carol''))) (\<lambda>c.
         checks [is_honest_note (sr_note c)]))
         [ConvDm, ConvEnvelope]))
       [lit ''x25519-mlkem768'', lit ''x25519-pgp-wrap-v1'', lit ''aes256-gcm-v1'', [], lit ''junk'']"

definition test_is_honest_note_catches_each_forbidden_word :: "unit test" where
  "test_is_honest_note_catches_each_forbidden_word = checks
     [\<not> is_honest_note (lit ''this is quantum-proof''),
      \<not> is_honest_note (lit ''Totally QUANTUM-SAFE!''),
      \<not> is_honest_note (lit ''an unbreakable cipher''),
      is_honest_note (lit ''hybrid: secure if EITHER leg holds (FIPS 203)'')]"

definition test_conversation_envelope_vs_dm_components :: "unit test" where
  "test_conversation_envelope_vs_dm_components =
     test_then (unwrap (conversation_surface_for REPORT_HYBRID_KEM_SUITE ConvDm [])) (\<lambda>dm.
     test_then (checks
       [sr_surface dm = lit ''dm'',
        sr_component dm = lit ''skchat (ChatCrypto)'',
        strip_prefix (lit ''DM conversation'') (sr_note dm) \<noteq> None]) (\<lambda>_.
     test_then (unwrap (conversation_surface_for REPORT_HYBRID_KEM_SUITE ConvEnvelope [])) (\<lambda>env.
     checks
       [sr_surface env = lit ''envelope-payload'',
        sr_component env = lit ''skcomms (EnvelopeCrypto)'',
        strip_prefix (lit ''ENVELOPE-PAYLOAD conversation'') (sr_note env) \<noteq> None])))"

text \<open>\<open>from_str\<close> is the JSON parser, \<open>pretty\<close> the printer.\<close>

definition test_report_summary_counts_and_serialises ::
  "(json \<Rightarrow> rstr) \<Rightarrow> (rstr \<Rightarrow> rstr + json) \<Rightarrow> unit test" where
  "test_report_summary_counts_and_serialises pretty from_str =
     test_then (unwrap (dm_ratchet_surface_for REPORT_HYBRID_KEM_SUITE L3Epoch 1 [])) (\<lambda>s1.
     test_then (unwrap (dm_ratchet_surface_for (lit ''x25519-pgp-wrap-v1'') L2Oneshot 0 [])) (\<lambda>s2.
     test_then (unwrap (Report_from_surfaces [s1, s2])) (\<lambda>rpt.
     test_then (checks
       [sm_total_surfaces (rp_summary rpt) = 2,
        sm_quantum_resistant (rp_summary rpt) = 1,
        sm_classical (rp_summary rpt) = 1,
        str_contains (lit ''NOT quantum-resistant end-to-end'') (rp_honest_claim rpt),
        is_honest_note (rp_honest_claim rpt)]) (\<lambda>_.
     test_then (unwrap (case from_str (Report_to_json pretty rpt) of Inl e \<Rightarrow> Err e | Inr v \<Rightarrow> Ok v)) (\<lambda>v.
     checks
       [json_index v ''report'' = JStr (lit ''pqc-self-report''),
        json_index (json_index v ''summary'') ''quantum_resistant'' = JNum (PosInt 1),
        json_index (json_at (json_index v ''surfaces'') 0) ''status'' = JStr (lit ''hybrid-pq''),
        json_index (json_at (json_index v ''surfaces'') 0) ''quantum_resistant'' = JBool True,
        json_index (json_at (json_index v ''surfaces'') 1) ''quantum_resistant'' = JBool False])))))"

definition test_parity_dm_l3_hybrid_note_vector :: "unit test" where
  "test_parity_dm_l3_hybrid_note_vector =
     test_then (unwrap (dm_ratchet_surface_for REPORT_HYBRID_KEM_SUITE L3Epoch 5 (lit ''bob''))) (\<lambda>s.
     checks
       [sr_note s = lit ''DM with bob on the running epoch-ratchet, FS + PCS, hybrid X25519+ML-KEM-768 rekey per epoch (epoch 5). Each epoch re-derives the chain from a fresh hybrid-KEM secret, so a compromised key neither decrypts past epochs (forward secrecy) nor future ones once healed (post-compromise security). Secure while EITHER the X25519 or the ML-KEM-768 (FIPS 203) leg holds.'',
        sr_surface s = lit ''dm'',
        sr_component s = lit ''skchat (DmRatchet)'',
        sr_active_suite s = lit ''x25519-mlkem768''])"

definition test_parity_dm_classical_note_vector :: "unit test" where
  "test_parity_dm_classical_note_vector =
     test_then (unwrap (dm_ratchet_surface_for (lit ''x25519-pgp-wrap-v1'') L2Oneshot 0 [])) (\<lambda>s.
     checks
       [sr_note s = lit ''DM on the CLASSICAL PGP key-wrap (x25519-pgp-wrap-v1) '' @ [0x2014] @
          lit '' HNDL-exposed: recorded ciphertext is retroactively decryptable. The L2-oneshot ratchet structure provides NO post-quantum confidentiality while the KEM is classical; negotiate the hybrid X25519+ML-KEM-768 (FIPS 203) suite to close the harvest-now-decrypt-later gap.''])"

lemma honest_names [simp]:
  "is_honest_note (lit ''bob'')" "is_honest_note (lit ''alice'')" "is_honest_note (lit ''carol'')"
  "is_honest_note (lit ''junk'')" "is_honest_note (lit ''x25519-pgp-wrap-v1'')"
  "is_honest_note (lit ''acme-unobtainium-9000'')"
  by (simp_all add: screen_simps del: str_contains.simps(2))

lemma default_suite [simp]: "DEFAULT_CONVERSATION_SUITE = lit ''x25519-pgp-wrap-v1''"
  "REPORT_HYBRID_KEM_SUITE = lit ''x25519-mlkem768''"
  by (simp_all add: DEFAULT_CONVERSATION_SUITE_def REPORT_HYBRID_KEM_SUITE_def)

lemma str_contains_append: "str_contains w b \<Longrightarrow> str_contains w (a @ b)"
  by (auto simp: str_contains_iff) (metis append.assoc)

lemma str_contains_prefix: "str_contains w a \<Longrightarrow> str_contains w (a @ b)"
  unfolding str_contains_iff by (metis append.assoc)

text \<open>Searching a literal, position by position.\<close>

lemmas search = lit_def str_contains_scan

lemma classical_note_text: "str_contains (lit ''HNDL-exposed'') (dm_classical_note x y z)"
  unfolding dm_classical_note_def append.assoc [symmetric]
  by (rule str_contains_prefix, rule str_contains_prefix, rule str_contains_append)
     (simp add: search del: str_contains.simps(2))

lemma epoch_note_texts:
  "str_contains (lit ''FIPS 203'') (dm_epoch_note x e)" "str_contains (lit ''EITHER'') (dm_epoch_note x e)"
  unfolding dm_epoch_note_def append.assoc [symmetric]
  by (rule str_contains_append, simp add: search del: str_contains.simps(2))+

lemma oneshot_note_texts:
  "str_contains (lit ''one-shot hybrid seal'') (dm_oneshot_note x)" "str_contains (lit ''EITHER'') (dm_oneshot_note x)"
proof -
  show "str_contains (lit ''one-shot hybrid seal'') (dm_oneshot_note x)"
    unfolding dm_oneshot_note_def append.assoc [symmetric]
    by (rule str_contains_prefix, rule str_contains_prefix, rule str_contains_append)
       (simp add: search del: str_contains.simps(2))
  show "str_contains (lit ''EITHER'') (dm_oneshot_note x)"
    unfolding dm_oneshot_note_def append.assoc [symmetric]
    by (rule str_contains_append) (simp add: search del: str_contains.simps(2))
qed

lemmas note_texts = classical_note_text epoch_note_texts oneshot_note_texts

lemma epoch_5_text: "str_contains (lit ''epoch 5'') (dm_epoch_note x 5)"
proof -
  have "dm_epoch_note x 5 = (lit ''DM'' @ x @ lit '' on the running epoch-ratchet, FS + PCS, hybrid X25519+ML-KEM-768 rekey per epoch ('')
      @ lit ''epoch 5'' @ lit ''). Each epoch re-derives the chain from a fresh hybrid-KEM secret, so a compromised key neither decrypts past epochs (forward secrecy) nor future ones once healed (post-compromise security). Secure while EITHER the X25519 or the ML-KEM-768 (FIPS 203) leg holds.''"
    by (simp add: dm_epoch_note_def lit_def dec.simps)
  then show ?thesis unfolding str_contains_iff by blast
qed

lemmas surface_simps = dm_surface_spec conversation_surface_spec unknown_suite_is_classical Let_def
  surface_of_def resolve_suite_def get_suite_eq

lemmas notes_honest = dm_notes_honest(1) [where lvl = L2Oneshot, simplified]
  dm_notes_honest(1) [where lvl = L3Epoch, simplified] dm_notes_honest(2,3)
  conv_notes_honest [OF honest_conv_heads(1)] conv_notes_honest [OF honest_conv_heads(2)]

lemma report_tests_pass:
  "passes test_classical_suite_is_never_quantum_resistant w"
  "passes test_unknown_suite_resolves_classical_not_qr w"
  "passes test_empty_suite_falls_back_to_classical_default w"
  "passes test_hybrid_l3_is_quantum_resistant w"
  "passes test_hybrid_l2_oneshot_states_limited_fs w"
  by (simp_all add: test_classical_suite_is_never_quantum_resistant_def wp_rules surface_simps note_texts
      test_unknown_suite_resolves_classical_not_qr_def test_empty_suite_falls_back_to_classical_default_def
      test_hybrid_l3_is_quantum_resistant_def test_hybrid_l2_oneshot_states_limited_fs_def notes_honest
      epoch_5_text)

lemma no_builder_test_passes: "passes test_no_builder_ever_emits_a_forbidden_word w"
  by (simp add: test_no_builder_ever_emits_a_forbidden_word_def wp_rules surface_simps notes_honest)

lemma honest_note_test_passes: "passes test_is_honest_note_catches_each_forbidden_word w"
  by (simp add: test_is_honest_note_catches_each_forbidden_word_def wp_rules screen_simps
      del: str_contains.simps(2))

text \<open>
  Parsing what was printed gives the value with every object's keys sorted, as the parser
  collects them into a \<open>BTreeMap\<close>; reading a field is not affected.
\<close>

fun sorted_value :: "json \<Rightarrow> json" where
  "sorted_value (JArr xs) = JArr (map sorted_value xs)"
| "sorted_value (JObj kvs) = JObj (btree_collect (map (\<lambda>(k, v). (k, sorted_value v)) kvs))"
| "sorted_value v = v"

definition prints_and_parses :: "(json \<Rightarrow> rstr) \<Rightarrow> (rstr \<Rightarrow> rstr + json) \<Rightarrow> bool" where
  "prints_and_parses pretty from_str \<longleftrightarrow>
     (\<forall>r. from_str (pretty (Report_value r)) = Inr (sorted_value (Report_value r)))"

lemma json_get_sorted:
  assumes "distinct (map fst kvs)"
  shows "json_get (sorted_value (JObj kvs)) k = map_option sorted_value (map_of kvs k)"
proof -
  have "map fst (map (\<lambda>(k, v). (k, sorted_value v)) kvs) = map fst kvs" by (auto simp: case_prod_unfold)
  then have "distinct (map fst (map (\<lambda>(k, v). (k, sorted_value v)) kvs))" using assms by metis
  then show ?thesis by (simp add: map_of_btree_collect_distinct map_of_map)
qed

lemma summary_test_passes:
  assumes "prints_and_parses pretty from_str"
  shows "passes (test_report_summary_counts_and_serialises pretty from_str) w"
proof -
  have parse: "from_str (Report_to_json pretty r) = Inr (sorted_value (Report_value r))" for r
    using assms by (simp add: prints_and_parses_def Report_to_json_def)
  have claim: "str_contains (lit ''NOT quantum-resistant end-to-end'') NOT_QR_CLAIM" "is_honest_note NOT_QR_CLAIM"
    by (simp_all add: NOT_QR_CLAIM_def screen_simps del: str_contains.simps(2))
  show ?thesis
    by (simp add: test_report_summary_counts_and_serialises_def wp_rules surface_simps parse
        Report_from_surfaces_def assert_honest_def notes_honest honest_claim_def count_where_def claim
        Report_value_def SurfaceReport_value_def Summary_value_def struct_value_def json_get_sorted
        CryptoSuite_is_quantum_resistant_def del: sorted_value.simps(2))
qed

lemma components_test_passes: "passes test_conversation_envelope_vs_dm_components w"
  by (simp add: test_conversation_envelope_vs_dm_components_def wp_rules surface_simps
      conv_hybrid_note_def strip_prefix_def to_ascii_uppercase_def ascii_upper_def lit_def)

lemma note_vector_tests_pass:
  "passes test_parity_dm_l3_hybrid_note_vector w" "passes test_parity_dm_classical_note_vector w"
  by (simp_all add: test_parity_dm_l3_hybrid_note_vector_def test_parity_dm_classical_note_vector_def
      wp_rules surface_simps)
     (simp_all add: dm_epoch_note_def dm_classical_note_def who_def dec.simps lit_def)

section \<open>Anonymous queues\<close>

definition test_new_queue_pair_is_distinct_and_sized :: "unit test" where
  "test_new_queue_pair_is_distinct_and_sized =
     test_then (returned new_queue_pair) (\<lambda>(recipient_id, sender_id).
     test_then (checks
       [length recipient_id = QUEUE_ID_LEN,
        length sender_id = QUEUE_ID_LEN,
        recipient_id \<noteq> sender_id]) (\<lambda>_.
     test_then (returned new_queue_pair) (\<lambda>(r2, s2).
     checks [sender_id \<noteq> s2, recipient_id \<noteq> r2])))"

definition test_aqid_round_trip :: "codecs \<Rightarrow> unit test" where
  "test_aqid_round_trip C =
     test_then (returned new_queue_pair) (\<lambda>(recipient, sender_id).
     test_then (unwrap (encode_aqid C (lit ''relay.example:5223'') sender_id)) (\<lambda>addr.
     test_then (checks [strip_prefix (lit ''aqid:relay.example:5223/'') addr \<noteq> None]) (\<lambda>_.
     test_then (unwrap (decode_aqid C addr)) (\<lambda>(relay, decoded).
     checks [relay = lit ''relay.example:5223'', decoded = sender_id]))))"

definition test_encode_aqid_python_parity_vector :: "codecs \<Rightarrow> unit test" where
  "test_encode_aqid_python_parity_vector C =
     (let sender_id = map of_nat [0..<16]
      in test_then (unwrap (encode_aqid C (lit ''relay1'') sender_id)) (\<lambda>addr.
         test_then (checks [addr = lit ''aqid:relay1/AAECAwQFBgcICQoLDA0ODw'']) (\<lambda>_.
         test_then (unwrap (decode_aqid C addr)) (\<lambda>(relay, decoded).
         checks [relay = lit ''relay1'', decoded = sender_id]))))"

definition test_encode_aqid_rejects_bad_relay_and_len :: "codecs \<Rightarrow> unit test" where
  "test_encode_aqid_rejects_bad_relay_and_len C =
     (let sid = replicate QUEUE_ID_LEN 0
      in checks
        [encode_aqid C [] sid = Err (BadRelay (lit ''must be a non-empty string'')),
         encode_aqid C (lit ''a/b'') sid =
           Err (BadRelay (lit ''must not contain '' @ lit [CHR 0x27, CHR ''/'', CHR 0x27])),
         encode_aqid C (lit ''relay'') (replicate 8 0) = Err (BadIdLen (lit ''sender_id'') 8)])"

fun is_bad_address :: "(anon_queue_error, 'a) res \<Rightarrow> bool" where
  "is_bad_address (Err (BadAddress m)) = True"
| "is_bad_address _ = False"

definition test_decode_aqid_rejects_malformed :: "codecs \<Rightarrow> unit test" where
  "test_decode_aqid_rejects_malformed C =
     (let short = b64url_encode C [0, 1]
      in checks
        [is_bad_address (decode_aqid C (lit ''http:relay/AAECAwQFBgcICQoLDA0ODw'')),
         is_bad_address (decode_aqid C (lit ''aqid:relayonly'')),
         is_bad_address (decode_aqid C (lit ''aqid:/AAECAwQFBgcICQoLDA0ODw'')),
         is_bad_address (decode_aqid C (lit ''aqid:relay/'')),
         decode_aqid C (lit ''aqid:relay/****'') = Err BadBase64,
         decode_aqid C (lit ''aqid:relay/'' @ short) = Err (BadIdLen (lit ''decoded id'') 2)])"

definition test_auth_tag_python_parity_vector :: "prims \<Rightarrow> codecs \<Rightarrow> unit test" where
  "test_auth_tag_python_parity_vector P C =
     (let tag = auth_tag P (blit ''shared-secret'') (blit ''hello'') (blit ''nonce123'')
      in test_then (checks [length tag = AUTH_TAG_LEN]) (\<lambda>_.
         test_then (unwrap (case hex_decode C
             (lit ''f9639bfd00c4e17d76b026b64d97c71124fcec8ec947c0e4ebe2a508e101aa18'') of
             Inl e \<Rightarrow> Err e | Inr x \<Rightarrow> Ok x)) (\<lambda>expected.
         checks [tag = expected])))"

definition test_auth_tag_is_deterministic_and_nonce_bound :: "prims \<Rightarrow> unit test" where
  "test_auth_tag_is_deterministic_and_nonce_bound P =
     (let secret = blit ''k''; msg = blit ''payload''; n1 = blit ''nonceAAAA''; n2 = blit ''nonceBBBB''
      in checks
        [auth_tag P secret msg n1 = auth_tag P secret msg n1,
         auth_tag P secret msg n1 \<noteq> auth_tag P secret msg n2])"

definition test_verify_tag_accepts_valid_and_rejects_tamper :: "prims \<Rightarrow> unit test" where
  "test_verify_tag_accepts_valid_and_rejects_tamper P =
     (let secret = blit ''shared''; message = blit ''the message body''; nonce = blit ''unique-nonce'';
          tag = auth_tag P secret message nonce;
          bad = flip_last tag
      in checks
        [verify_tag P secret message nonce tag,
         \<not> verify_tag P secret (blit ''the messXge body'') nonce tag,
         \<not> verify_tag P secret message (blit ''other-nonce-'') tag,
         \<not> verify_tag P (blit ''wrong'') message nonce tag,
         \<not> verify_tag P secret message nonce bad,
         \<not> verify_tag P secret message nonce (take (AUTH_TAG_LEN - 1) tag),
         \<not> verify_tag P secret message nonce []])"

text \<open>The tests that draw ids pass when the blocks they draw differ where they are compared.\<close>

lemma queue_pair_draw:
  assumes "id_block (entropy w) 1 \<noteq> id_block (entropy w) 0"
  shows "new_queue_pair w = Some ((id_block (entropy w) 0, id_block (entropy w) 1),
    w\<lparr>entropy := sdrop 32 (entropy w)\<rparr>)"
  using new_queue_pair_stops [of 1 w] assms by simp

lemma length_id_block [simp]: "length (id_block e k) = 16"
  by (simp add: id_block_def)

lemma id_block_32: "id_block (sdrop 32 e) k = id_block e (Suc (Suc k))"
  by (simp add: id_block_def sdrop_add)

lemma queue_test_passes:
  assumes "distinct (map (id_block (entropy w)) [0, 1, 2, 3])"
  shows "passes test_new_queue_pair_is_distinct_and_sized w"
proof -
  let ?w = "w\<lparr>entropy := sdrop 32 (entropy w)\<rparr>"
  have "id_block (entropy ?w) 1 \<noteq> id_block (entropy ?w) 0"
    using assms by (auto simp: id_block_32 numeral_2_eq_2 numeral_3_eq_3)
  from queue_pair_draw [OF this] queue_pair_draw [of w] show ?thesis
    using assms by (auto simp: test_new_queue_pair_is_distinct_and_sized_def wp_rules id_block_32
        numeral_2_eq_2 numeral_3_eq_3)
qed

lemma aqid_round_trip_test_passes:
  assumes "b64url_laws C" "id_block (entropy w) 1 \<noteq> id_block (entropy w) 0"
  shows "passes (test_aqid_round_trip C) w"
proof -
  have e: "encode_aqid C (lit ''relay.example:5223'') (id_block (entropy w) 1) =
      Ok (AQID_SCHEME @ lit ''relay.example:5223'' @ 0x2F # b64url_encode C (id_block (entropy w) 1))"
    by (simp add: encode_aqid_def) (simp add: lit_def)
  have "AQID_SCHEME @ lit ''relay.example:5223'' @ 0x2F # x = lit ''aqid:relay.example:5223/'' @ x" for x
    by (simp add: AQID_SCHEME_def lit_def)
  then have "strip_prefix (lit ''aqid:relay.example:5223/'')
      (AQID_SCHEME @ lit ''relay.example:5223'' @ 0x2F # x) = Some x" for x
    by (metis strip_prefix_append)
  then show ?thesis
    using decode_encode_aqid [OF assms(1) e]
    by (simp add: test_aqid_round_trip_def wp_rules queue_pair_draw [OF assms(2)] e [unfolded One_nat_def])
qed

lemma aqid_vector_test_passes:
  assumes "b64url_laws C" "b64url_encode C (map of_nat [0..<16]) = lit ''AAECAwQFBgcICQoLDA0ODw''"
  shows "passes (test_encode_aqid_python_parity_vector C) w"
proof -
  have e: "encode_aqid C (lit ''relay1'') (map of_nat [0..<16]) =
      Ok (AQID_SCHEME @ lit ''relay1'' @ 0x2F # b64url_encode C (map of_nat [0..<16]))"
    by (simp add: encode_aqid_def del: upt.simps upt_Suc upt_rec_numeral) (simp add: lit_def)
  have "AQID_SCHEME @ lit ''relay1'' @ 0x2F # lit ''AAECAwQFBgcICQoLDA0ODw'' =
      lit ''aqid:relay1/AAECAwQFBgcICQoLDA0ODw''"
    by (simp add: AQID_SCHEME_def lit_def)
  then show ?thesis
    using decode_encode_aqid [OF assms(1) e]
    by (simp add: test_encode_aqid_python_parity_vector_def wp_rules e assms(2) Let_def
        del: upt.simps upt_Suc upt_rec_numeral)
qed

lemma aqid_reject_test_passes: "passes (test_encode_aqid_rejects_bad_relay_and_len C) w"
  by (simp add: test_encode_aqid_rejects_bad_relay_and_len_def wp_rules encode_aqid_def Let_def)
     (simp add: lit_def)

lemma decode_reject_test_passes:
  assumes "b64url_laws C" "b64url_decode C (lit ''****'') = Inl e"
  shows "passes (test_decode_aqid_rejects_malformed C) w"
proof -
  have cut: "decode_aqid C (lit ''aqid:relay/'' @ b64) =
      (if b64 = [] then Err (BadAddress (lit ''id must be non-empty''))
       else case b64url_decode C b64 of
              Inl e \<Rightarrow> Err BadBase64
            | Inr raw \<Rightarrow>
                if length raw \<noteq> QUEUE_ID_LEN then Err (BadIdLen (lit ''decoded id'') (length raw))
                else Ok (lit ''relay'', raw))" for b64
  proof -
    have "lit ''aqid:relay/'' @ b64 = AQID_SCHEME @ lit ''relay'' @ 0x2F # b64"
      by (simp add: AQID_SCHEME_def lit_def)
    moreover have "split_once 0x2F (lit ''relay'' @ 0x2F # b64) = Some (lit ''relay'', b64)"
      by (rule split_once_append) (simp add: lit_def)
    ultimately show ?thesis by (simp add: decode_aqid_def)
  qed
  have "lit ''aqid:relay/****'' = lit ''aqid:relay/'' @ lit ''****''" by (simp add: lit_def)
  then have "decode_aqid C (lit ''aqid:relay/****'') = Err BadBase64"
    using assms(2) by (simp add: cut)
  moreover have "decode_aqid C (lit ''aqid:relay/'' @ b64url_encode C [0, 1]) = Err (BadIdLen (lit ''decoded id'') 2)"
    using assms(1) by (simp add: cut b64url_laws_def)
  moreover have "is_bad_address (decode_aqid C (lit ''aqid:relay/''))" using cut [of "[]"] by simp
  moreover have "is_bad_address (decode_aqid C (lit ''http:relay/AAECAwQFBgcICQoLDA0ODw''))"
    "is_bad_address (decode_aqid C (lit ''aqid:relayonly''))"
    "is_bad_address (decode_aqid C (lit ''aqid:/AAECAwQFBgcICQoLDA0ODw''))"
    by (simp_all add: decode_aqid_def strip_prefix_def AQID_SCHEME_def lit_def split_once_def)
  ultimately show ?thesis by (simp add: test_decode_aqid_rejects_malformed_def wp_rules Let_def)
qed

text \<open>
  The authenticator's tests need the HMAC to differ, or to have the expected value, on the
  inputs they name.
\<close>

lemma auth_vector_test_passes:
  assumes "kdf_sizes P"
    and "hex_decode C (lit ''f9639bfd00c4e17d76b026b64d97c71124fcec8ec947c0e4ebe2a508e101aa18'') =
      Inr (hmac_sha256 P (blit ''shared-secret'') (blit ''nonce123hello''))"
  shows "passes (test_auth_tag_python_parity_vector P C) w"
  using assms by (simp add: test_auth_tag_python_parity_vector_def wp_rules auth_tag_def Let_def blit_def)

lemma auth_bound_test_passes:
  assumes "hmac_sha256 P (blit ''k'') (blit ''nonceAAAApayload'') \<noteq> hmac_sha256 P (blit ''k'') (blit ''nonceBBBBpayload'')"
  shows "passes (test_auth_tag_is_deterministic_and_nonce_bound P) w"
  using assms by (simp add: test_auth_tag_is_deterministic_and_nonce_bound_def wp_rules auth_tag_def Let_def blit_def)

lemma verify_test_passes:
  assumes "kdf_sizes P" "ct_eq_law P"
    and "\<forall>(k, m) \<in> {(''shared'', ''unique-noncethe messXge body''), (''shared'', ''other-nonce-the message body''),
        (''wrong'', ''unique-noncethe message body'')}.
      hmac_sha256 P (blit k) (blit m) \<noteq> hmac_sha256 P (blit ''shared'') (blit ''unique-noncethe message body'')"
  shows "passes (test_verify_tag_accepts_valid_and_rejects_tamper P) w"
proof -
  have v: "verify_tag P s m n t \<longleftrightarrow> auth_tag P s m n = t" for s m n t
    by (simp add: verify_tag_def ct_eq_iff [OF assms(2)])
  have len: "length (auth_tag P s m n) = 32" for s m n using assms(1) by (simp add: auth_tag_def)
  have ne: "auth_tag P s m n \<noteq> []" "auth_tag P s m n \<noteq> take 31 t" for s m n t
  proof -
    show "auth_tag P s m n \<noteq> []" using len [of s m n] by auto
    have "length (take 31 t) \<noteq> length (auth_tag P s m n)" by (simp add: len)
    then show "auth_tag P s m n \<noteq> take 31 t" by metis
  qed
  let ?tag = "auth_tag P (blit ''shared'') (blit ''the message body'') (blit ''unique-nonce'')"
  have "auth_tag P (blit ''shared'') (blit ''the messXge body'') (blit ''unique-nonce'') \<noteq> ?tag"
    "auth_tag P (blit ''shared'') (blit ''the message body'') (blit ''other-nonce-'') \<noteq> ?tag"
    "auth_tag P (blit ''wrong'') (blit ''the message body'') (blit ''unique-nonce'') \<noteq> ?tag"
    using assms(3) by (simp_all add: auth_tag_def blit_def)
  moreover have "?tag \<noteq> flip_last ?tag"
    using flip_last_differs [OF ne(1)] by metis
  ultimately show ?thesis
    using ne by (simp add: test_verify_tag_accepts_valid_and_rejects_tamper_def wp_rules v Let_def)
qed

end
