(* ===== verification/Tampering.thy ===== *)
theory Tampering
  imports Pqdm Pqroute Group_Ratchet Dm_Network
begin

text \<open>
  Changed tags. The tag that AES-GCM appends is a function of key, nonce, associated data and
  encrypted text (the authenticator of SP 800-38D), so a sealed message whose last 16 bytes are
  altered in any way is refused with certainty; no assumption on forgeries is needed.
\<close>

section \<open>The law\<close>

definition gcm_tag_law :: "prims \<Rightarrow> bool" where
  "gcm_tag_law P \<longleftrightarrow>
     (\<exists>mac. \<forall>k n aad c. length k = 32 \<longrightarrow> length n = 12 \<longrightarrow>
        (\<exists>m. gcm_encrypt P k n aad m = Some c) \<or> gcm_decrypt P k n aad c \<noteq> None \<longrightarrow>
        drop (length c - 16) c = mac k n aad (take (length c - 16) c))"

text \<open>A text that differs from another one of the same length only in its last 16 bytes.\<close>

definition changed_tag :: "bytes \<Rightarrow> bytes \<Rightarrow> bool" where
  "changed_tag b b' \<longleftrightarrow>
     length b' = length b \<and> take (length b - 16) b' = take (length b - 16) b \<and> b' \<noteq> b"

lemma changed_tag_refused:
  assumes "gcm_tag_law P" "length k = 32" "length n = 12" "gcm_encrypt P k n aad m = Some c"
    and "changed_tag c c'"
  shows "gcm_decrypt P k n aad c' = None"
proof (rule ccontr)
  assume acc: "gcm_decrypt P k n aad c' \<noteq> None"
  obtain mac where mac: "\<And>c. (\<exists>m. gcm_encrypt P k n aad m = Some c) \<or> gcm_decrypt P k n aad c \<noteq> None \<Longrightarrow>
      drop (length c - 16) c = mac (take (length c - 16) c)"
    using assms(1-3) unfolding gcm_tag_law_def by metis
  have "drop (length c - 16) c = mac (take (length c - 16) c)" using assms(4) by (intro mac) blast
  moreover have "drop (length c' - 16) c' = mac (take (length c' - 16) c')" using acc by (intro mac) blast
  ultimately have "drop (length c - 16) c' = drop (length c - 16) c"
    using assms(5) by (simp add: changed_tag_def)
  then have "c' = c" using assms(5) unfolding changed_tag_def by (metis append_take_drop_id)
  then show False using assms(5) by (simp add: changed_tag_def)
qed

lemma changed_tag_append:
  assumes "changed_tag (p @ c) b'" "16 \<le> length c"
  obtains c' where "b' = p @ c'" "changed_tag c c'" "length c' = length c"
proof -
  have len: "length b' = length p + length c" using assms(1) by (simp add: changed_tag_def)
  have t: "take (length p + (length c - 16)) b' = p @ take (length c - 16) c"
    using assms by (simp add: changed_tag_def)
  then have "take (length p) (take (length p + (length c - 16)) b') = p" by simp
  then have "take (length p) b' = p" by (simp add: min_def)
  then have b': "b' = p @ drop (length p) b'" by (metis append_take_drop_id)
  moreover have "take (length c - 16) (drop (length p) b') = take (length c - 16) c"
  proof -
    have "take (length c - 16) (drop (length p) b') = drop (length p) (take (length p + (length c - 16)) b')"
      by (simp add: take_drop add.commute)
    then show ?thesis by (simp add: t)
  qed
  moreover have "drop (length p) b' \<noteq> c" using assms(1) b' by (auto simp: changed_tag_def)
  ultimately show ?thesis using len by (intro that [of "drop (length p) b'"]) (simp_all add: changed_tag_def)
qed

text \<open>Flipping the last bit is such a change.\<close>

lemma flip_last_changes: "16 \<le> length b \<Longrightarrow> changed_tag b (flip_last b)"
  using flip_last_differs [of b] by (cases "b = []") (simp_all add: changed_tag_def flip_last_def)

lemma sample_tag_law: "gcm_tag_law sample_prims"
  unfolding gcm_tag_law_def
  by (intro exI [of _ "\<lambda>k n aad b. replicate 16 (digest (k @ n @ aad @ b))"])
     (auto simp: sample_prims_def sample_encrypt_def sample_decrypt_def Let_def split: if_splits)

section \<open>The wrapped epoch secrets\<close>

lemma dm_payload_changed_tag:
  assumes pair: "seal_pair P pk sk" and law: "gcm_tag_law P"
    and wrap: "wrap_dm_epoch_secret P es pk w = (Ok payload, w')" and ch: "changed_tag payload payload'"
  shows "unwrap_dm_epoch_secret P payload' sk = Err UnwrapFailed"
proof -
  obtain ct ss w1 n c where "length es = 32" and e: "hybrid_encap P pk w = (Ok (ct, ss), w1)"
    and c: "gcm_encrypt P (dm_wrap_key P ss) n [] es = Some c" and p: "payload = (ct @ n) @ c"
    and n: "length n = 12"
    using wrap by (rule wrap_dm_OkE) simp
  note o = dm_wrap.sealed_opens [OF pair e n c]
  have ct: "length ct = 1120" using dm_wrap.encap_sizes [OF pair e] by simp
  have "16 \<le> length c" using o(6) ct n by simp
  with ch [unfolded p] obtain c' where c': "payload' = (ct @ n) @ c'" "changed_tag c c'" "length c' = length c"
    by (rule changed_tag_append)
  have "gcm_decrypt P (dm_wrap_key P ss) n [] c' = None"
    by (rule changed_tag_refused [OF law dm_wrap.kdf_size [OF pair] n c c'(2)])
  moreover have "length payload' = 1180" using wrap_dm_opens(1) [OF pair wrap] p c' by simp
  ultimately show ?thesis
    using o(4) ct n c'(1) by (simp add: unwrap_dm_epoch_secret_def blob_parts)
qed

lemma group_payload_changed_tag:
  assumes pair: "seal_pair P pk sk" and law: "gcm_tag_law P"
    and wrap: "wrap_epoch_secret P es pk w = (Ok payload, w')" and ch: "changed_tag payload payload'"
  shows "unwrap_epoch_secret P payload' sk = Err GUnwrapFailed"
proof -
  obtain ct ss w1 n c where "length es = 32" and e: "hybrid_encap P pk w = (Ok (ct, ss), w1)"
    and c: "gcm_encrypt P (group_wrap_key P ss) n [] es = Some c" and p: "payload = (ct @ n) @ c"
    and n: "length n = 12"
    using wrap by (rule wrap_group_OkE) simp
  note o = group_wrap.sealed_opens [OF pair e n c]
  have ct: "length ct = 1120" using dm_wrap.encap_sizes [OF pair e] by simp
  have "16 \<le> length c" using o(6) ct n by simp
  with ch [unfolded p] obtain c' where c': "payload' = (ct @ n) @ c'" "changed_tag c c'" "length c' = length c"
    by (rule changed_tag_append)
  have "gcm_decrypt P (group_wrap_key P ss) n [] c' = None"
    by (rule changed_tag_refused [OF law group_wrap.kdf_size [OF pair] n c c'(2)])
  moreover have "length payload' = 1180" using wrap_group_opens(1) [OF pair wrap] p c' by simp
  ultimately show ?thesis
    using o(4) ct n c'(1) dm_wrap.keys_sizes [OF pair] by (simp add: unwrap_epoch_secret_def blob_parts)
qed

section \<open>Sealed messages and envelopes\<close>

lemma sealed_changed_tag:
  assumes pair: "seal_pair P pk sk" and law: "gcm_tag_law P"
    and sealed: "seal P J pt pk a b w = (Ok blob, w')" and ch: "changed_tag blob blob'"
  shows "open_sealed P J dbg blob' sk a b HYBRID_SUITE =
    Err (DowngradeDetected (downgrade_text dbg HYBRID_SUITE))"
proof -
  let ?aad = "downgrade_lock_aad J HYBRID_SUITE a b None"
  obtain ct ss w1 n c where e: "hybrid_encap P pk w = (Ok (ct, ss), w1)" and n: "length n = 12"
    and c: "gcm_encrypt P (wrap_key P ss ?aad) n ?aad pt = Some c" and p: "blob = (ct @ n) @ c"
    using sealed by (rule pqdm_seal_OkE) simp
  note o = dm_seal.sealed_opens [OF pair e n c]
  have ct: "length ct = 1120" using dm_wrap.encap_sizes [OF pair e] by simp
  have "16 \<le> length c" using o(6) ct n by simp
  with ch [unfolded p] obtain c' where c': "blob' = (ct @ n) @ c'" "changed_tag c c'" "length c' = length c"
    by (rule changed_tag_append)
  have "gcm_decrypt P (wrap_key P ss ?aad) n ?aad c' = None"
    by (rule changed_tag_refused [OF law dm_seal.kdf_size [OF pair] n c c'(2)])
  moreover have "\<not> length blob' < 1148" using o(6) c' by simp
  ultimately show ?thesis
    using o(4) ct n c'(1) by (simp add: open_sealed_def blob_parts Let_def)
qed

lemma routed_changed_tag:
  assumes pair: "seal_pair P pk sk" and law: "gcm_tag_law P"
    and sealed: "seal_routed P J meta content pk hdr w = (Ok blob, w')" and ch: "changed_tag blob blob'"
    and hdr: "length (canonical J hdr) < 2 ^ 32" "from_slice J (canonical J hdr) = Inr v"
  shows "open_routed P J blob' sk = Err (RouteOpen open_failed_text)"
proof -
  let ?route = "canonical J hdr" and ?aad = "build_aad (canonical J hdr)"
  obtain ct ss w1 n c where e: "hybrid_encap P pk w = (Ok (ct, ss), w1)"
    and c: "gcm_encrypt P (derive_wrap_key P ss ?aad) n ?aad (inner_bytes J meta content) = Some c"
    and p: "blob = (u32_be (len_u32 ?route) @ ?route @ ct @ n) @ c" and n: "length n = 12"
    using sealed by (rule seal_routed_OkE) simp
  note o = route_seal.sealed_opens [OF pair e n c]
  have ct: "length ct = 1120" using dm_wrap.encap_sizes [OF pair e] by simp
  have "16 \<le> length c" using o(6) ct n by simp
  with ch [unfolded p] obtain c' where c': "blob' = (u32_be (len_u32 ?route) @ ?route @ ct @ n) @ c'"
    "changed_tag c c'" "length c' = length c"
    by (rule changed_tag_append)
  have "gcm_decrypt P (derive_wrap_key P ss ?aad) n ?aad c' = None"
    by (rule changed_tag_refused [OF law route_seal.kdf_size [OF pair] n c c'(2)])
  moreover have "split_outer blob' = Ok (?route, ct @ n @ c')"
    using split_outer_join [OF hdr(1), of "ct @ n @ c'"] c'(1) by simp
  moreover have "\<not> length (ct @ n @ c') < 1148" using o(6) c'(3) by simp
  ultimately show ?thesis
    using o(4) ct n hdr(2) by (simp add: open_routed_def blob_parts Let_def)
qed

section \<open>Session frames\<close>

lemma frame_changed_tag:
  assumes "frame_seals P sk sec f pt" "kdf_sizes P" "gcm_tag_law P" "changed_tag (fr_body f) body"
  shows "open_frame P (f\<lparr>fr_body := body\<rparr>) sec = Err OpenFailed"
proof -
  have k: "length (frame_key P sec f) = 32"
    using assms(2) by (simp add: frame_key_def dm_message_kdf_input_def)
  have "frame_key P sec (f\<lparr>fr_body := body\<rparr>) = frame_key P sec f" by (simp add: frame_key_def)
  moreover have "gcm_decrypt P (frame_key P sec f) (fr_nonce f) (frame_aad (fr_epoch f) (fr_index f)) body = None"
    using changed_tag_refused [OF assms(3) k _ _ assms(4)] assms(1) unfolding frame_seals_def by blast
  ultimately show ?thesis using assms(1) by (simp add: open_frame_eq frame_seals_def frame_key_def)
qed

text \<open>A receiver that knows the epoch, or gets its secret with the frame, refuses the changed frame.\<close>

lemma net_changed_tag:
  assumes inv: "net_inv P sk n A B sent" and laws: "kdf_sizes P" "gcm_tag_law P"
    and f: "(f, pt) \<in> set sent" and ch: "changed_tag (fr_body f) body"
    and known: "fmlookup (ds_epoch_secrets B) (fr_epoch f) \<noteq> None \<or> fr_index f < 3"
  shows "fst (DmSession_open P (f\<lparr>fr_body := body\<rparr>) sk B) = Err OpenFailed"
proof -
  obtain sec where sec: "fmlookup (ds_epoch_secrets A) (fr_epoch f) = Some sec"
    and fs: "frame_seals P sk sec f pt"
    using inv f by (auto simp: net_inv_def)
  note op = frame_changed_tag [OF fs laws ch]
  show ?thesis
  proof (cases "fmlookup (ds_epoch_secrets B) (fr_epoch f)")
    case None
    then obtain kam where "fr_kam f = Some kam" "unwrap_dm_epoch_secret P kam sk = Ok sec"
      using known fs by (auto simp: frame_seals_def)
    then show ?thesis using None op by (simp add: open_new_epoch)
  next
    case (Some sec')
    then have "sec' = sec" using inv sec by (auto simp: net_inv_def)
    then show ?thesis using Some op by (simp add: open_known_epoch)
  qed
qed

end
