(* ===== verification/Keys_Tests.thy ===== *)
theory Keys_Tests
  imports Test_Kit Tampering
begin

text \<open>
  The unit tests of \<open>ratchet.rs\<close> and \<open>group_ratchet.rs\<close>. Those that compare keys pass when HKDF
  gives different outputs on the inputs they name, and the ones that compare with a fixed vector
  exactly when HKDF has that output; both are conditions on the hash function alone.
\<close>

section \<open>The direct-message ratchet\<close>

definition test_determinism_and_distinctness :: "prims \<Rightarrow> unit test" where
  "test_determinism_and_distinctness P =
     (let es = replicate 32 9
      in test_then (unwrap (derive_dm_message_key P es 2 5)) (\<lambda>a.
         test_then (unwrap (derive_dm_message_key P es 2 5)) (\<lambda>b.
         test_then (unwrap (derive_dm_message_key P es 2 6)) (\<lambda>c.
         checks [a = b, a \<noteq> c]))))"

definition test_rejects_bad_len :: "prims \<Rightarrow> unit test" where
  "test_rejects_bad_len P =
     checks [derive_dm_message_key P (replicate 16 0) 0 0 = Err (BadSecretLen 16)]"

definition test_parity_message_key_vector :: "prims \<Rightarrow> codecs \<Rightarrow> unit test" where
  "test_parity_message_key_vector P C =
     (let es = replicate 32 0x42
      in test_then (unwrap (derive_dm_message_key P es 7 3)) (\<lambda>key.
         checks [hex_encode C key = lit ''74095f508856520198d56192d8cfd3247f05f5c10f3b33b165e6f64ea1daaddf'']))"

definition test_parity_dm_wrap_key_vector :: "prims \<Rightarrow> codecs \<Rightarrow> unit test" where
  "test_parity_dm_wrap_key_vector P C =
     (let shared = map of_nat [0..<32]; wk = dm_wrap_key P shared
      in checks [hex_encode C wk = lit ''10e5ba98ec3dc39aa5fe92d05e4231ff99e5bd014a22f07f1387932e40b10036''])"

definition test_new_epoch_secret_is_fresh_and_sized :: "unit test" where
  "test_new_epoch_secret_is_fresh_and_sized =
     test_then (effect new_epoch_secret) (\<lambda>a.
     test_then (effect new_epoch_secret) (\<lambda>b.
     checks [length a = EPOCH_SECRET_LEN, a \<noteq> b]))"

definition test_wrap_unwrap_roundtrip :: "prims \<Rightarrow> unit test" where
  "test_wrap_unwrap_roundtrip P =
     test_then (effect (hybrid_keypair P)) (\<lambda>kp.
     test_then (effect new_epoch_secret) (\<lambda>secret.
     test_then (unwrapped (wrap_dm_epoch_secret P secret (public_key kp))) (\<lambda>payload.
     test_then (checks [length payload = WRAPPED_PAYLOAD_LEN]) (\<lambda>_.
     test_then (unwrap (unwrap_dm_epoch_secret P payload (private_key kp))) (\<lambda>recovered.
     checks [recovered = secret])))))"

definition test_unwrap_rejects_tampered_payload :: "prims \<Rightarrow> unit test" where
  "test_unwrap_rejects_tampered_payload P =
     test_then (effect (hybrid_keypair P)) (\<lambda>kp.
     test_then (effect new_epoch_secret) (\<lambda>secret.
     test_then (unwrapped (wrap_dm_epoch_secret P secret (public_key kp))) (\<lambda>payload.
     checks [unwrap_dm_epoch_secret P (flip_last payload) (private_key kp) = Err UnwrapFailed])))"

definition test_wrap_rejects_bad_lengths :: "prims \<Rightarrow> unit test" where
  "test_wrap_rejects_bad_lengths P =
     test_then (effect (hybrid_keypair P)) (\<lambda>kp.
     test_then (effect (wrap_dm_epoch_secret P (replicate 16 0) (public_key kp))) (\<lambda>r1.
     test_then (effect (wrap_dm_epoch_secret P (replicate 32 0) (replicate 10 0))) (\<lambda>r2.
     checks
       [r1 = Err (BadSecretLen 16),
        r2 = Err (BadPublicKeyLen 10),
        unwrap_dm_epoch_secret P (replicate 5 0) (private_key kp) = Err (BadPayloadLen 5)])))"

text \<open>A draw from a ratchet, with the ratchet after it.\<close>

definition drawn :: "(unit, 'k) res \<times> 'r \<Rightarrow> ('k \<times> 'r) test" where
  "drawn p = (case p of (r, s) \<Rightarrow> unwrap (map_ok (\<lambda>k. (k, s)) r))"

definition test_dm_ratchet_next_outbound_advances :: "prims \<Rightarrow> bool \<Rightarrow> unit test" where
  "test_dm_ratchet_next_outbound_advances P chk =
     (let secret = replicate 32 0x11
      in test_then (effect (DmRatchet_new 0 secret)) (\<lambda>r.
         test_then (drawn (DmRatchet_next_outbound_key P chk r)) (\<lambda>((i0, k0), r).
         test_then (drawn (DmRatchet_next_outbound_key P chk r)) (\<lambda>((i1, k1), r).
         test_then (checks [(i0, i1) = (0, 1), dr_message_index r = 2]) (\<lambda>_.
         test_then (unwrap (derive_dm_message_key P secret 0 0)) (\<lambda>d0.
         test_then (unwrap (derive_dm_message_key P secret 0 1)) (\<lambda>d1.
         checks [d0 = k0, d1 = k1, k0 \<noteq> k1])))))))"

definition test_dm_ratchet_should_rekey_bounds :: "unit test" where
  "test_dm_ratchet_should_rekey_bounds =
     test_then (effect (DmRatchet_with_bounds 0 (replicate 32 7) 2 DEFAULT_REKEY_AGE_SECONDS)) (\<lambda>r.
     test_then (effect (DmRatchet_should_rekey r (Some (dr_epoch_started_at r)))) (\<lambda>b1.
     test_then (effect (DmRatchet_should_rekey (r\<lparr>dr_message_index := 2\<rparr>)
                  (Some (dr_epoch_started_at r)))) (\<lambda>b2.
     test_then (effect (DmRatchet_with_bounds 0 (replicate 32 7) 50 10)) (\<lambda>r2.
     test_then (effect (DmRatchet_should_rekey r2 (Some (f64_add (dr_epoch_started_at r2) (Fin 11))))) (\<lambda>b3.
     test_then (effect (DmRatchet_should_rekey (r2\<lparr>dr_message_index := 1\<rparr>)
                  (Some (f64_add (dr_epoch_started_at r2) (Fin 1))))) (\<lambda>b4.
     checks [\<not> b1, b2, b3, \<not> b4]))))))"

lemma ratchet_pure_tests_pass:
  "hkdf_sha256 P (EPOCH_SALT_PREFIX @ u64_be 2) (replicate 32 9) (MSG_INFO_PREFIX @ u64_be 5) \<noteq>
     hkdf_sha256 P (EPOCH_SALT_PREFIX @ u64_be 2) (replicate 32 9) (MSG_INFO_PREFIX @ u64_be 6) \<Longrightarrow>
   passes (test_determinism_and_distinctness P) w"
  "passes (test_rejects_bad_len P) w"
  by (simp_all add: test_determinism_and_distinctness_def test_rejects_bad_len_def wp_rules Let_def
      derive_dm_message_key_def)

lemma be_bytes_numeral: "be_bytes (numeral k) x = be_bytes (pred_numeral k) (x div 256) @ [of_nat (x mod 256)]"
  by (simp only: numeral_eq_Suc [of k] be_bytes.simps)

lemma be_literals:
  "u64_be 0 = [0, 0, 0, 0, 0, 0, 0, 0]" "u64_be 3 = [0, 0, 0, 0, 0, 0, 0, 3]"
  "u64_be 7 = [0, 0, 0, 0, 0, 0, 0, 7]"
  by (simp_all add: u64_be_def be_bytes_numeral)

text \<open>The vectors, as the HKDF calls they pin: salt, input key material and info byte by byte.\<close>

lemma ratchet_vector_tests:
  "passes (test_parity_message_key_vector P C) w \<longleftrightarrow>
     hex_encode C (hkdf_sha256 P (blit ''skchat/dm-epoch/'' @ [0, 0, 0, 0, 0, 0, 0, 7]) (replicate 32 0x42)
        (blit ''skchat/dm-ratchet/msg/v1/'' @ [0, 0, 0, 0, 0, 0, 0, 3])) =
     lit ''74095f508856520198d56192d8cfd3247f05f5c10f3b33b165e6f64ea1daaddf''"
  "passes (test_parity_dm_wrap_key_vector P C) w \<longleftrightarrow>
     hex_encode C (hkdf_sha256 P [] (map of_nat [0..<32]) (blit ''skchat/dm-ratchet/epoch-wrap/v1'')) =
     lit ''10e5ba98ec3dc39aa5fe92d05e4231ff99e5bd014a22f07f1387932e40b10036''"
  by (simp_all add: test_parity_message_key_vector_def test_parity_dm_wrap_key_vector_def wp_rules Let_def
      derive_dm_message_key_def dm_wrap_key_def EPOCH_SALT_PREFIX_def MSG_INFO_PREFIX_def INFO_DM_WRAP_def
      be_literals del: upt.simps upt_Suc upt_rec_numeral)

lemma new_secret_test_passes:
  "passes test_new_epoch_secret_is_fresh_and_sized w \<longleftrightarrow>
     stake 32 (entropy w) \<noteq> stake 32 (sdrop 32 (entropy w))"
  by (simp add: test_new_epoch_secret_is_fresh_and_sized_def wp_rules new_epoch_secret_def fill_bytes_def)

text \<open>A generated key pair, as the tests start from it.\<close>

lemma generated_pair:
  "prims_laws P \<Longrightarrow> seal_pair P (public_key (fst (hybrid_keypair P w))) (private_key (fst (hybrid_keypair P w)))"
  using hybrid_keypair_seal_pair prod.collapse [symmetric] by blast

lemma new_secret_length [simp]: "length (fst (new_epoch_secret w)) = 32"
  by (simp add: new_epoch_secret_def fill_bytes_def)

lemma dm_wrap_tests_pass:
  assumes "prims_laws P"
  shows "passes (test_wrap_unwrap_roundtrip P) w"
    and "gcm_tag_law P \<Longrightarrow> passes (test_unwrap_rejects_tampered_payload P) w"
    and "passes (test_wrap_rejects_bad_lengths P) w"
proof -
  let ?kp = "fst (hybrid_keypair P w)" and ?w1 = "snd (hybrid_keypair P w)"
  let ?es = "fst (new_epoch_secret ?w1)" and ?w2 = "snd (new_epoch_secret ?w1)"
  note pair = generated_pair [OF assms, of w]
  obtain payload w3 where wrap: "wrap_dm_epoch_secret P ?es (public_key ?kp) ?w2 = (Ok payload, w3)"
    by (rule wrap_dm_total [OF pair new_secret_length])
  note o = wrap_dm_opens [OF pair wrap]
  show "passes (test_wrap_unwrap_roundtrip P) w"
    by (simp add: test_wrap_unwrap_roundtrip_def wp_rules wrap o)
  show "passes (test_unwrap_rejects_tampered_payload P) w" if "gcm_tag_law P"
    using dm_payload_changed_tag [OF pair that wrap flip_last_changes] o(1)
    by (simp add: test_unwrap_rejects_tampered_payload_def wp_rules wrap)
  show "passes (test_wrap_rejects_bad_lengths P) w"
    by (simp add: test_wrap_rejects_bad_lengths_def wp_rules wrap_dm_bad_input unwrap_dm_bad_payload)
qed

lemma dm_outbound_test_passes:
  assumes "hkdf_sha256 P (EPOCH_SALT_PREFIX @ u64_be 0) (replicate 32 0x11) (MSG_INFO_PREFIX @ u64_be 0) \<noteq>
     hkdf_sha256 P (EPOCH_SALT_PREFIX @ u64_be 0) (replicate 32 0x11) (MSG_INFO_PREFIX @ u64_be 1)"
  shows "passes (test_dm_ratchet_next_outbound_advances P chk) w"
proof -
  have succ: "u64_succ chk 0 = Some 1" "u64_succ chk 1 = Some 2" by (simp_all add: u64_succ_def)
  show ?thesis
    using assms
    by (simp add: test_dm_ratchet_next_outbound_advances_def wp_rules Let_def drawn_def
        DmRatchet_new_def DmRatchet_with_bounds_def DmRatchet_next_outbound_key_def case_prod_unfold
        derive_dm_message_key_def succ)
qed

text \<open>The bounds test, for any clock below \<open>2 ^ 52\<close> seconds.\<close>

lemma rekey_bounds_test_passes:
  assumes "sane_clock w"
  shows "passes test_dm_ratchet_should_rekey_bounds w"
proof -
  let ?w1 = "snd (now_seconds w)"
  have s: "sane_time (fst (now_seconds w))" "sane_time (fst (now_seconds ?w1))"
    using assms by (simp_all add: sane_clock_now sane_clock_next)
  obtain x where x: "fst (now_seconds w) = Fin x" using s(1) by (auto simp: sane_time_def)
  have same: "f64_sub (Fin x) (Fin x) = Fin 0" using round64_of_int [of 0] by (simp add: f64_sub_def)
  obtain d1 where d1: "f64_sub (f64_add (fst (now_seconds ?w1)) (Fin 11)) (fst (now_seconds ?w1)) = Fin d1" "10 \<le> d1"
    using step_seconds [OF s(2), of 11] by auto
  obtain d2 where d2: "f64_sub (f64_add (fst (now_seconds ?w1)) (Fin 1)) (fst (now_seconds ?w1)) = Fin d2" "d2 \<le> 2"
    using step_seconds [OF s(2), of 1] by auto
  have age: "f64_of_nat 604800 = Fin 604800" "f64_of_nat 10 = Fin 10"
    by (simp_all add: f64_of_nat_exact)
  show ?thesis
    using d1(2) d2(2)
    by (simp add: test_dm_ratchet_should_rekey_bounds_def wp_rules DmRatchet_with_bounds_def case_prod_unfold
        DmRatchet_should_rekey_def should_rekey_def Let_def x same d1(1) d2(1) age
        DEFAULT_REKEY_AGE_SECONDS_def word_le_nat_alt)
qed

section \<open>The group ratchet\<close>

definition test_parity_derive_message_key :: "prims \<Rightarrow> codecs \<Rightarrow> unit test" where
  "test_parity_derive_message_key P C =
     (let es = map of_nat [0..<32]
      in test_then (unwrap (derive_message_key P es 7 3)) (\<lambda>key.
         test_then (unwrap (derive_message_key P es 0 0)) (\<lambda>key0.
         checks
           [hex_encode C key = lit ''7a5e2d075c683a156190450dbb2ba2e19fab6639da12e9dd7e283dbeba1e8054'',
            hex_encode C key0 = lit ''dfc01932cac7e640f0ddfee2694975f504a5cd4d15298837489f7bd1f18319e1''])))"

definition test_derive_determinism_and_distinctness :: "prims \<Rightarrow> unit test" where
  "test_derive_determinism_and_distinctness P =
     (let es = replicate 32 9
      in test_then (unwrap (derive_message_key P es 2 5)) (\<lambda>a.
         test_then (unwrap (derive_message_key P es 2 5)) (\<lambda>a'.
         test_then (unwrap (derive_message_key P es 2 6)) (\<lambda>b.
         test_then (unwrap (derive_message_key P es 3 5)) (\<lambda>c.
         test_then (unwrap (derive_message_key P (replicate 32 8) 2 5)) (\<lambda>d.
         checks [a = a', a \<noteq> b, a \<noteq> c, a \<noteq> d]))))))"

definition test_derive_rejects_bad_secret_len :: "prims \<Rightarrow> unit test" where
  "test_derive_rejects_bad_secret_len P =
     checks [derive_message_key P (replicate 16 0) 0 0 = Err (GBadSecretLen 16)]"

definition test_wrap_layout_and_constants :: "unit test" where
  "test_wrap_layout_and_constants = checks
     [CIPHERTEXT_LEN = 1120,
      GROUP_NONCE_LEN = 12,
      GROUP_SECRET_WRAPPED_LEN = 48,
      GROUP_PAYLOAD_LEN = 1180,
      HYBRID_KEM_SUITE = SUITE_ID]"

definition test_group_wrap_unwrap_round_trip :: "prims \<Rightarrow> unit test" where
  "test_group_wrap_unwrap_round_trip P =
     test_then (effect (hybrid_keypair P)) (\<lambda>kp.
     test_then (effect group_new_epoch_secret) (\<lambda>secret.
     test_then (unwrapped (wrap_epoch_secret P secret (public_key kp))) (\<lambda>payload.
     test_then (checks [length payload = GROUP_PAYLOAD_LEN]) (\<lambda>_.
     test_then (unwrap (unwrap_epoch_secret P payload (private_key kp))) (\<lambda>recovered.
     checks [recovered = secret])))))"

definition test_wrap_is_randomized_but_both_unwrap :: "prims \<Rightarrow> unit test" where
  "test_wrap_is_randomized_but_both_unwrap P =
     test_then (effect (hybrid_keypair P)) (\<lambda>kp.
     test_then (effect group_new_epoch_secret) (\<lambda>secret.
     test_then (unwrapped (wrap_epoch_secret P secret (public_key kp))) (\<lambda>p1.
     test_then (unwrapped (wrap_epoch_secret P secret (public_key kp))) (\<lambda>p2.
     test_then (checks [p1 \<noteq> p2]) (\<lambda>_.
     test_then (unwrap (unwrap_epoch_secret P p1 (private_key kp))) (\<lambda>s1.
     test_then (unwrap (unwrap_epoch_secret P p2 (private_key kp))) (\<lambda>s2.
     checks [s1 = secret, s2 = secret])))))))"

definition test_group_unwrap_rejects_tampered_payload :: "prims \<Rightarrow> unit test" where
  "test_group_unwrap_rejects_tampered_payload P =
     test_then (effect (hybrid_keypair P)) (\<lambda>kp.
     test_then (effect group_new_epoch_secret) (\<lambda>secret.
     test_then (unwrapped (wrap_epoch_secret P secret (public_key kp))) (\<lambda>payload.
     checks [unwrap_epoch_secret P (flip_last payload) (private_key kp) = Err GUnwrapFailed])))"

definition test_group_unwrap_rejects_wrong_key :: "prims \<Rightarrow> unit test" where
  "test_group_unwrap_rejects_wrong_key P =
     test_then (effect (hybrid_keypair P)) (\<lambda>kp.
     test_then (effect (hybrid_keypair P)) (\<lambda>other.
     test_then (effect group_new_epoch_secret) (\<lambda>secret.
     test_then (unwrapped (wrap_epoch_secret P secret (public_key kp))) (\<lambda>payload.
     checks [unwrap_epoch_secret P payload (private_key other) = Err GUnwrapFailed]))))"

definition test_group_wrap_rejects_bad_lengths :: "prims \<Rightarrow> unit test" where
  "test_group_wrap_rejects_bad_lengths P =
     test_then (effect (hybrid_keypair P)) (\<lambda>kp.
     test_then (effect (wrap_epoch_secret P (replicate 16 0) (public_key kp))) (\<lambda>r1.
     test_then (effect (wrap_epoch_secret P (replicate 32 0) (replicate 10 0))) (\<lambda>r2.
     checks [r1 = Err (GBadSecretLen 16), r2 = Err (GBadPublicKeyLen 10)])))"

definition test_group_unwrap_rejects_bad_lengths :: "prims \<Rightarrow> unit test" where
  "test_group_unwrap_rejects_bad_lengths P =
     test_then (effect (hybrid_keypair P)) (\<lambda>kp.
     checks
       [unwrap_epoch_secret P (replicate 100 0) (private_key kp) = Err (GBadPayloadLen 100),
        unwrap_epoch_secret P (replicate GROUP_PAYLOAD_LEN 0) (replicate 10 0) = Err (GBadPrivateKeyLen 10)])"

definition test_ratchet_outbound_advances_and_matches_receiver :: "prims \<Rightarrow> bool \<Rightarrow> unit test" where
  "test_ratchet_outbound_advances_and_matches_receiver P chk =
     test_then (effect group_new_epoch_secret) (\<lambda>secret.
     test_then (effect (EpochRatchet_new 4 secret)) (\<lambda>sender.
     test_then (effect (EpochRatchet_new 4 secret)) (\<lambda>receiver.
     test_then (drawn (EpochRatchet_next_outbound_key P chk sender)) (\<lambda>((i0, k0), sender).
     test_then (drawn (EpochRatchet_next_outbound_key P chk sender)) (\<lambda>((i1, k1), sender).
     checks
       [i0 = 0, i1 = 1, er_message_index sender = 2, k0 \<noteq> k1,
        EpochRatchet_message_key P receiver i0 = k0,
        EpochRatchet_message_key P receiver i1 = k1])))))"

definition test_should_rekey_on_msg_bound :: "unit test" where
  "test_should_rekey_on_msg_bound =
     test_then (effect group_new_epoch_secret) (\<lambda>secret.
     let r = EpochRatchet_new_with_started_at 1 secret (Fin 1000)
     in checks
       [\<not> EpochRatchet_should_rekey r (Fin 1000),
        EpochRatchet_should_rekey (r\<lparr>er_message_index := GROUP_REKEY_MSG_BOUND\<rparr>) (Fin 1000)])"

definition test_should_rekey_on_age :: "unit test" where
  "test_should_rekey_on_age =
     test_then (effect group_new_epoch_secret) (\<lambda>secret.
     let r = EpochRatchet_new_with_started_at 1 secret (Fin 1000);
         age = f64_of_nat (unat GROUP_REKEY_AGE_SECONDS)
     in checks
       [\<not> EpochRatchet_should_rekey r (f64_sub (f64_add (Fin 1000) age) (Fin 1)),
        EpochRatchet_should_rekey r (f64_add (Fin 1000) age)])"

lemma group_vector_test:
  "passes (test_parity_derive_message_key P C) w \<longleftrightarrow>
     hex_encode C (hkdf_sha256 P (blit ''skchat/epoch/'' @ [0, 0, 0, 0, 0, 0, 0, 7]) (map of_nat [0..<32])
        (blit ''skchat/group-ratchet/msg/v1/'' @ [0, 0, 0, 0, 0, 0, 0, 3])) =
       lit ''7a5e2d075c683a156190450dbb2ba2e19fab6639da12e9dd7e283dbeba1e8054'' \<and>
     hex_encode C (hkdf_sha256 P (blit ''skchat/epoch/'' @ [0, 0, 0, 0, 0, 0, 0, 0]) (map of_nat [0..<32])
        (blit ''skchat/group-ratchet/msg/v1/'' @ [0, 0, 0, 0, 0, 0, 0, 0])) =
       lit ''dfc01932cac7e640f0ddfee2694975f504a5cd4d15298837489f7bd1f18319e1''"
  by (simp add: test_parity_derive_message_key_def wp_rules Let_def derive_message_key_def
      derive_message_key_arr_def GROUP_SALT_PREFIX_def GROUP_INFO_PREFIX_def be_literals
      del: upt.simps upt_Suc upt_rec_numeral)

lemma group_pure_tests_pass:
  "passes (test_derive_rejects_bad_secret_len P) w"
  "passes test_wrap_layout_and_constants w"
  by (simp_all add: test_derive_rejects_bad_secret_len_def test_wrap_layout_and_constants_def wp_rules
      derive_message_key_def HYBRID_KEM_SUITE_def SUITE_ID_def)

lemma group_distinct_test_passes:
  assumes "\<forall>(es, e, i) \<in> {(9, 2, 6), (9, 3, 5), (8, 2, 5)}.
    derive_message_key_arr P (replicate 32 es) e i \<noteq> derive_message_key_arr P (replicate 32 9) 2 5"
  shows "passes (test_derive_determinism_and_distinctness P) w"
  using assms by (auto simp: test_derive_determinism_and_distinctness_def wp_rules derive_message_key_def Let_def)

lemma group_secret_length [simp]: "length (fst (group_new_epoch_secret w)) = 32"
  by (simp add: group_new_epoch_secret_def fill_bytes_def)

lemma wrap_group_bad_input:
  "length es \<noteq> 32 \<Longrightarrow> wrap_epoch_secret P es pk w = (Err (GBadSecretLen (length es)), w)"
  "length es = 32 \<Longrightarrow> length pk \<noteq> 1216 \<Longrightarrow>
     wrap_epoch_secret P es pk w = (Err (GBadPublicKeyLen (length pk)), w)"
  by (simp_all add: wrap_epoch_secret_def)

lemma unwrap_group_bad_input:
  "length payload \<noteq> 1180 \<Longrightarrow> unwrap_epoch_secret P payload sk = Err (GBadPayloadLen (length payload))"
  "length payload = 1180 \<Longrightarrow> length sk \<noteq> 2432 \<Longrightarrow>
     unwrap_epoch_secret P payload sk = Err (GBadPrivateKeyLen (length sk))"
  by (simp_all add: unwrap_epoch_secret_def)

lemma group_wrap_tests_pass:
  assumes "prims_laws P"
  shows "passes (test_group_wrap_unwrap_round_trip P) w"
    and "gcm_tag_law P \<Longrightarrow> passes (test_group_unwrap_rejects_tampered_payload P) w"
    and "passes (test_group_wrap_rejects_bad_lengths P) w"
    and "passes (test_group_unwrap_rejects_bad_lengths P) w"
proof -
  let ?kp = "fst (hybrid_keypair P w)" and ?w1 = "snd (hybrid_keypair P w)"
  let ?es = "fst (group_new_epoch_secret ?w1)" and ?w2 = "snd (group_new_epoch_secret ?w1)"
  note pair = generated_pair [OF assms, of w]
  obtain payload w3 where wrap: "wrap_epoch_secret P ?es (public_key ?kp) ?w2 = (Ok payload, w3)"
    by (rule wrap_group_total [OF pair group_secret_length])
  note o = wrap_group_opens [OF pair wrap]
  show "passes (test_group_wrap_unwrap_round_trip P) w"
    by (simp add: test_group_wrap_unwrap_round_trip_def wp_rules wrap o)
  show "passes (test_group_unwrap_rejects_tampered_payload P) w" if "gcm_tag_law P"
    using group_payload_changed_tag [OF pair that wrap flip_last_changes] o(1)
    by (simp add: test_group_unwrap_rejects_tampered_payload_def wp_rules wrap)
  show "passes (test_group_wrap_rejects_bad_lengths P) w"
    by (simp add: test_group_wrap_rejects_bad_lengths_def wp_rules wrap_group_bad_input)
  show "passes (test_group_unwrap_rejects_bad_lengths P) w"
    by (simp add: test_group_unwrap_rejects_bad_lengths_def wp_rules unwrap_group_bad_input)
qed

text \<open>Two wraps of one secret both unwrap; the test fails only if they happen to be equal.\<close>

lemma group_randomized_test:
  assumes "prims_laws P"
  shows "passes (test_wrap_is_randomized_but_both_unwrap P) w \<longleftrightarrow>
    (let (kp, w1) = hybrid_keypair P w; (es, w2) = group_new_epoch_secret w1;
         (r1, w3) = wrap_epoch_secret P es (public_key kp) w2;
         (r2, w4) = wrap_epoch_secret P es (public_key kp) w3
     in r1 \<noteq> r2)"
proof -
  let ?kp = "fst (hybrid_keypair P w)" and ?w1 = "snd (hybrid_keypair P w)"
  let ?es = "fst (group_new_epoch_secret ?w1)" and ?w2 = "snd (group_new_epoch_secret ?w1)"
  note pair = generated_pair [OF assms, of w]
  obtain p1 w3 where w1: "wrap_epoch_secret P ?es (public_key ?kp) ?w2 = (Ok p1, w3)"
    by (rule wrap_group_total [OF pair group_secret_length])
  obtain p2 w4 where w2: "wrap_epoch_secret P ?es (public_key ?kp) w3 = (Ok p2, w4)"
    by (rule wrap_group_total [OF pair group_secret_length])
  show ?thesis
    by (simp add: test_wrap_is_randomized_but_both_unwrap_def wp_rules w1 w2 case_prod_unfold Let_def
        wrap_group_opens(2) [OF pair w1] wrap_group_opens(2) [OF pair w2])
qed

text \<open>
  The wrong private key: ML-KEM rejects implicitly, so the test passes exactly when the AEAD
  refuses the payload under the key derived from the other secret.
\<close>

lemma group_wrong_key_test:
  assumes "prims_laws P"
  shows "passes (test_group_unwrap_rejects_wrong_key P) w \<longleftrightarrow>
    (let (kp, w1) = hybrid_keypair P w; (other, w2) = hybrid_keypair P w1;
         (es, w3) = group_new_epoch_secret w2; (r, w4) = wrap_epoch_secret P es (public_key kp) w3
     in \<forall>payload. r = Ok payload \<longrightarrow> unwrap_epoch_secret P payload (private_key other) = Err GUnwrapFailed)"
proof -
  let ?kp = "fst (hybrid_keypair P w)" and ?w1 = "snd (hybrid_keypair P w)"
  let ?w2 = "snd (hybrid_keypair P ?w1)"
  let ?es = "fst (group_new_epoch_secret ?w2)" and ?w3 = "snd (group_new_epoch_secret ?w2)"
  note pair = generated_pair [OF assms, of w]
  obtain p w4 where wrap: "wrap_epoch_secret P ?es (public_key ?kp) ?w3 = (Ok p, w4)"
    by (rule wrap_group_total [OF pair group_secret_length])
  show ?thesis
    by (simp add: test_group_unwrap_rejects_wrong_key_def wp_rules wrap case_prod_unfold Let_def)
qed

text \<open>Sender and receiver agree by index; only that two keys differ is left to HKDF.\<close>

lemma group_outbound_test:
  "passes (test_ratchet_outbound_advances_and_matches_receiver P chk) w \<longleftrightarrow>
     derive_message_key_arr P (fst (group_new_epoch_secret w)) 4 0 \<noteq>
     derive_message_key_arr P (fst (group_new_epoch_secret w)) 4 1"
proof -
  have succ: "u64_succ chk 0 = Some 1" "u64_succ chk 1 = Some 2" by (simp_all add: u64_succ_def)
  show ?thesis
    by (simp add: test_ratchet_outbound_advances_and_matches_receiver_def wp_rules Let_def drawn_def
        EpochRatchet_new_def EpochRatchet_next_outbound_key_def EpochRatchet_message_key_def case_prod_unfold succ)
qed

lemma group_rekey_tests_pass:
  "passes test_should_rekey_on_msg_bound w" "passes test_should_rekey_on_age w"
proof -
  have f: "round64 0 = Fin 0" "round64 604800 = Fin 604800" "round64 605800 = Fin 605800"
    "round64 605799 = Fin 605799" "round64 604799 = Fin 604799" "f64_of_nat 604800 = Fin 604800"
    using round64_of_int [of 0] round64_of_int [of 604800] round64_of_int [of 605800]
      round64_of_int [of 605799] round64_of_int [of 604799] f64_of_nat_exact [of 604800] by simp_all
  show "passes test_should_rekey_on_msg_bound w" "passes test_should_rekey_on_age w"
    by (simp_all add: test_should_rekey_on_msg_bound_def test_should_rekey_on_age_def wp_rules Let_def
        EpochRatchet_new_with_started_at_def EpochRatchet_should_rekey_def GROUP_REKEY_AGE_SECONDS_def
        GROUP_REKEY_MSG_BOUND_def f64_sub_def f word_le_nat_alt)
qed

end
