(* ===== verification/Envelope_Tests.thy ===== *)
theory Envelope_Tests
  imports Keys_Tests
begin

text \<open>
  The unit tests of \<open>pqdm.rs\<close>. The JSON and hexadecimal texts they compare with
  are evaluated; \<open>hex_encode\<close> is taken to write two lower-case digits per byte.
\<close>

definition hex_exact :: "codecs \<Rightarrow> bool" where
  "hex_exact C \<longleftrightarrow> hex_encode C = sample_hex_encode"

section \<open>Hybrid sealing\<close>

definition test_aad_matches_python_canonical_json :: "serde \<Rightarrow> codecs \<Rightarrow> unit test" where
  "test_aad_matches_python_canonical_json J C =
     (let aad = downgrade_lock_aad J HYBRID_SUITE (lit ''a'') (lit ''b'') None;
          expected = blit (''{\"negotiated_suite\":\"x25519-mlkem768\",\"recipient\":\"b\",\"sender\":\"a\",\"v\":1}'')
      in checks
        [aad = expected,
         hex_encode C aad = lit ''7b226e65676f7469617465645f7375697465223a227832353531392d6d6c6b656d373638222c22726563697069656e74223a2262222c2273656e646572223a2261222c2276223a317d''])"

definition test_aad_appends_extra_verbatim :: "serde \<Rightarrow> unit test" where
  "test_aad_appends_extra_verbatim J =
     (let aad = downgrade_lock_aad J HYBRID_SUITE (lit ''a'') (lit ''b'') (Some [0, 0xFF])
      in checks
        [drop (length aad - 2) aad = [0, 0xFF],
         length aad = length (downgrade_lock_aad J HYBRID_SUITE (lit ''a'') (lit ''b'') None) + 2])"

definition test_wrap_key_matches_python_vector :: "prims \<Rightarrow> serde \<Rightarrow> codecs \<Rightarrow> unit test" where
  "test_wrap_key_matches_python_vector P J C =
     (let aad = downgrade_lock_aad J HYBRID_SUITE (lit ''a'') (lit ''b'') None;
          shared = replicate 32 0x42; wk = wrap_key P shared aad
      in checks [hex_encode C wk = lit ''20e7c515adbdfac00668326bf121b46916f11cde9918c49b452d5d282a2178cd''])"

definition test_seal_open_roundtrip :: "prims \<Rightarrow> serde \<Rightarrow> (rstr \<Rightarrow> rstr) \<Rightarrow> unit test" where
  "test_seal_open_roundtrip P J dbg =
     test_then (effect (hybrid_keypair P)) (\<lambda>kp.
     let msg = blit ''top secret HNDL payload'' in
     test_then (unwrapped (seal P J msg (public_key kp) (lit ''a'') (lit ''b''))) (\<lambda>sealed.
     test_then (checks [SEALED_MIN_LEN \<le> length sealed, length (take CIPHERTEXT_LEN sealed) = CIPHERTEXT_LEN]) (\<lambda>_.
     test_then (unwrap (open_sealed P J dbg sealed (private_key kp) (lit ''a'') (lit ''b'') HYBRID_SUITE)) (\<lambda>out.
     checks [out = msg]))))"

definition test_seal_open_empty_body :: "prims \<Rightarrow> serde \<Rightarrow> (rstr \<Rightarrow> rstr) \<Rightarrow> unit test" where
  "test_seal_open_empty_body P J dbg =
     test_then (effect (hybrid_keypair P)) (\<lambda>kp.
     test_then (unwrapped (seal P J [] (public_key kp) (lit ''x'') (lit ''y''))) (\<lambda>sealed.
     test_then (checks [length sealed = SEALED_MIN_LEN]) (\<lambda>_.
     test_then (unwrap (open_sealed P J dbg sealed (private_key kp) (lit ''x'') (lit ''y'') HYBRID_SUITE)) (\<lambda>out.
     checks [out = []]))))"

definition test_seal_is_nondeterministic_but_both_open :: "prims \<Rightarrow> serde \<Rightarrow> (rstr \<Rightarrow> rstr) \<Rightarrow> unit test" where
  "test_seal_is_nondeterministic_but_both_open P J dbg =
     test_then (effect (hybrid_keypair P)) (\<lambda>kp.
     test_then (unwrapped (seal P J (blit ''x'') (public_key kp) (lit ''a'') (lit ''b''))) (\<lambda>s1.
     test_then (unwrapped (seal P J (blit ''x'') (public_key kp) (lit ''a'') (lit ''b''))) (\<lambda>s2.
     test_then (checks [s1 \<noteq> s2]) (\<lambda>_.
     test_then (unwrap (open_sealed P J dbg s1 (private_key kp) (lit ''a'') (lit ''b'') HYBRID_SUITE)) (\<lambda>o1.
     test_then (unwrap (open_sealed P J dbg s2 (private_key kp) (lit ''a'') (lit ''b'') HYBRID_SUITE)) (\<lambda>o2.
     checks [o1 = blit ''x'', o2 = blit ''x'']))))))"

fun is_downgrade :: "(pqdm_error, 'a) res \<Rightarrow> bool" where
  "is_downgrade (Err (DowngradeDetected m)) = True"
| "is_downgrade _ = False"

fun is_dm_format :: "(pqdm_error, 'a) res \<Rightarrow> bool" where
  "is_dm_format (Err (DmFormat m)) = True"
| "is_dm_format _ = False"

definition test_downgrade_lock_detects_suite_mismatch :: "prims \<Rightarrow> serde \<Rightarrow> (rstr \<Rightarrow> rstr) \<Rightarrow> unit test" where
  "test_downgrade_lock_detects_suite_mismatch P J dbg =
     test_then (effect (hybrid_keypair P)) (\<lambda>kp.
     test_then (unwrapped (seal P J (blit ''secret'') (public_key kp) (lit ''a'') (lit ''b''))) (\<lambda>sealed.
     checks [is_downgrade (open_sealed P J dbg sealed (private_key kp) (lit ''a'') (lit ''b'') CLASSICAL_SUITE)]))"

definition test_downgrade_lock_detects_party_tamper :: "prims \<Rightarrow> serde \<Rightarrow> (rstr \<Rightarrow> rstr) \<Rightarrow> unit test" where
  "test_downgrade_lock_detects_party_tamper P J dbg =
     test_then (effect (hybrid_keypair P)) (\<lambda>kp.
     test_then (unwrapped (seal P J (blit ''secret'') (public_key kp) (lit ''a'') (lit ''b''))) (\<lambda>sealed.
     checks [is_downgrade (open_sealed P J dbg sealed (private_key kp) (lit ''MALLORY'') (lit ''b'') HYBRID_SUITE)]))"

definition test_tampered_ciphertext_detected :: "prims \<Rightarrow> serde \<Rightarrow> (rstr \<Rightarrow> rstr) \<Rightarrow> unit test" where
  "test_tampered_ciphertext_detected P J dbg =
     test_then (effect (hybrid_keypair P)) (\<lambda>kp.
     test_then (unwrapped (seal P J (blit ''secret'') (public_key kp) (lit ''a'') (lit ''b''))) (\<lambda>sealed.
     checks [is_downgrade
       (open_sealed P J dbg (flip_last sealed) (private_key kp) (lit ''a'') (lit ''b'') HYBRID_SUITE)]))"

definition test_seal_rejects_bad_pubkey_len :: "prims \<Rightarrow> serde \<Rightarrow> unit test" where
  "test_seal_rejects_bad_pubkey_len P J =
     test_then (effect (seal P J (blit ''x'') (replicate 10 0) (lit ''a'') (lit ''b''))) (\<lambda>r.
     checks [is_dm_format r])"

definition test_open_too_short_raises :: "prims \<Rightarrow> serde \<Rightarrow> (rstr \<Rightarrow> rstr) \<Rightarrow> unit test" where
  "test_open_too_short_raises P J dbg =
     test_then (effect (hybrid_keypair P)) (\<lambda>kp.
     checks [is_dm_format
       (open_sealed P J dbg (blit ''too-short'') (private_key kp) (lit ''a'') (lit ''b'') HYBRID_SUITE)])"

definition test_negotiate_suite_gating :: "unit test" where
  "test_negotiate_suite_gating = checks
     [negotiate_suite True True = HYBRID_SUITE,
      negotiate_suite True False = CLASSICAL_SUITE,
      negotiate_suite False True = CLASSICAL_SUITE,
      negotiate_suite False False = CLASSICAL_SUITE]"

text \<open>On such ASCII text \<open>serde_json\<close> prints what the canonical encoder prints.\<close>

lemma lock_head_canonical:
  "canonical J (lock_head HYBRID_SUITE (lit ''a'') (lit ''b'')) =
     blit (''{\"negotiated_suite\":\"x25519-mlkem768\",\"recipient\":\"b\",\"sender\":\"a\",\"v\":1}'')"
  by (simp add: lock_head_def json_object_def btree_collect_def lit_def blit_def HYBRID_SUITE_def
      less_list_code encode_string_ascii_def escape_char_def Let_def insort_key_def dec.simps)

lemma aad_json_test_passes:
  assumes "to_vec J (lock_head HYBRID_SUITE (lit ''a'') (lit ''b'')) =
      canonical J (lock_head HYBRID_SUITE (lit ''a'') (lit ''b''))" "hex_exact C"
  shows "passes (test_aad_matches_python_canonical_json J C) w"
  using assms
  by (simp add: test_aad_matches_python_canonical_json_def wp_rules downgrade_lock_aad_def hex_exact_def
      lock_head_canonical Let_def)
     (simp add: sample_hex_encode_def hex_digit_def blit_def lit_def)

lemma aad_extra_test_passes: "passes (test_aad_appends_extra_verbatim J) w"
  by (simp add: test_aad_appends_extra_verbatim_def wp_rules downgrade_lock_aad_def Let_def)

lemma seal_vector_test:
  assumes "to_vec J (lock_head HYBRID_SUITE (lit ''a'') (lit ''b'')) =
      canonical J (lock_head HYBRID_SUITE (lit ''a'') (lit ''b''))"
  shows "passes (test_wrap_key_matches_python_vector P J C) w \<longleftrightarrow>
    hex_encode C (hkdf_sha256 P [] (replicate 32 0x42) (blit ''skcomms/pqdm/wrap/v1|'' @
      blit (''{\"negotiated_suite\":\"x25519-mlkem768\",\"recipient\":\"b\",\"sender\":\"a\",\"v\":1}''))) =
    lit ''20e7c515adbdfac00668326bf121b46916f11cde9918c49b452d5d282a2178cd''"
proof -
  have "wrap_key P x aad = hkdf_sha256 P [] x (blit ''skcomms/pqdm/wrap/v1|'' @ aad)" for x aad
    by (simp add: wrap_key_def PQDM_INFO_WRAP_def blit_def)
  then show ?thesis
    using assms by (simp add: test_wrap_key_matches_python_vector_def wp_rules downgrade_lock_aad_def
        lock_head_canonical Let_def)
qed

text \<open>The seal tests, for associated data below the AEAD's limit.\<close>

definition short_aad :: "serde \<Rightarrow> bool" where
  "short_aad J \<longleftrightarrow> (\<forall>s a b. length s \<le> 64 \<longrightarrow> length a \<le> 64 \<longrightarrow> length b \<le> 64 \<longrightarrow>
     length (downgrade_lock_aad J s a b None) < 2 ^ 32)"

lemma short_aadD:
  assumes "short_aad J" "length a \<le> 64" "length b \<le> 64"
  shows "length (downgrade_lock_aad J HYBRID_SUITE a b None) < 2 ^ 32"
proof -
  have "length HYBRID_SUITE \<le> 64" by (simp add: HYBRID_SUITE_def)
  then show ?thesis using assms unfolding short_aad_def by blast
qed

lemma seal_tests_pass:
  assumes "prims_laws P" "short_aad J"
  shows "passes (test_seal_open_roundtrip P J dbg) w"
    and "passes (test_seal_open_empty_body P J dbg) w"
    and "gcm_tag_law P \<Longrightarrow> passes (test_tampered_ciphertext_detected P J dbg) w"
proof -
  let ?kp = "fst (hybrid_keypair P w)" and ?w1 = "snd (hybrid_keypair P w)"
  note pair = generated_pair [OF assms(1), of w]
  have ab: "length (downgrade_lock_aad J HYBRID_SUITE (lit ''a'') (lit ''b'') None) < 2 ^ 32"
    and xy: "length (downgrade_lock_aad J HYBRID_SUITE (lit ''x'') (lit ''y'') None) < 2 ^ 32"
    by (rule short_aadD [OF assms(2)]; simp)+
  have msg: "length (blit ''top secret HNDL payload'') < 2 ^ 32" "length ([] :: bytes) < 2 ^ 32"
    "length (blit ''secret'') < 2 ^ 32" by simp_all
  show "passes (test_seal_open_roundtrip P J dbg) w"
    by (rule pqdm_opens [OF pair msg(1) ab, where w = ?w1])
       (simp add: test_seal_open_roundtrip_def wp_rules Let_def)
  show "passes (test_seal_open_empty_body P J dbg) w"
    by (rule pqdm_opens [OF pair msg(2) xy, where w = ?w1])
       (simp add: test_seal_open_empty_body_def wp_rules)
  show "passes (test_tampered_ciphertext_detected P J dbg) w" if law: "gcm_tag_law P"
  proof (rule pqdm_opens [OF pair msg(3) ab, where w = ?w1])
    fix blob w'
    assume s: "seal P J (blit ''secret'') (public_key ?kp) (lit ''a'') (lit ''b'') ?w1 = (Ok blob, w')"
      and "length blob = 1148 + length (blit ''secret'')"
    then have "changed_tag blob (flip_last blob)" by (intro flip_last_changes) simp
    then show "passes (test_tampered_ciphertext_detected P J dbg) w"
      using sealed_changed_tag [OF pair law s]
      by (simp add: test_tampered_ciphertext_detected_def wp_rules s)
  qed
qed

lemma seal_format_tests_pass:
  "passes (test_seal_rejects_bad_pubkey_len P J) w" "passes (test_open_too_short_raises P J dbg) w"
  "passes test_negotiate_suite_gating w"
  by (simp_all add: test_seal_rejects_bad_pubkey_len_def test_open_too_short_raises_def
      test_negotiate_suite_gating_def wp_rules seal_def open_sealed_def negotiate_suite_def)

text \<open>
  Opening under another suite or party never gives anything but a downgrade report or, when the
  AEAD accepts, a message: the two tests pass unless it accepts.
\<close>

lemma open_other_aad:
  assumes pair: "seal_pair P pk sk" and s: "seal P J pt pk a b w = (Ok blob, w')"
  shows "is_downgrade (open_sealed P J dbg blob sk a' b' suite) \<longleftrightarrow>
    (\<forall>m. open_sealed P J dbg blob sk a' b' suite \<noteq> Ok m)"
proof (rule open_sealed_sealed [OF pair s, where dbg = dbg])
  fix shared
  assume o: "\<And>a' b' s. open_sealed P J dbg blob sk a' b' s =
       ok_or (DowngradeDetected (downgrade_text dbg s))
         (gcm_decrypt P (wrap_key P shared (downgrade_lock_aad J s a' b' None)) (blob_nonce blob)
            (downgrade_lock_aad J s a' b' None) (blob_body blob))"
  show ?thesis
    unfolding o
    by (cases "gcm_decrypt P (wrap_key P shared (downgrade_lock_aad J suite a' b' None)) (blob_nonce blob)
            (downgrade_lock_aad J suite a' b' None) (blob_body blob)") simp_all
qed

lemma downgrade_tests:
  assumes "prims_laws P" "short_aad J"
  shows "let (kp, w1) = hybrid_keypair P w;
      (r, w2) = seal P J (blit ''secret'') (public_key kp) (lit ''a'') (lit ''b'') w1
    in \<exists>blob. r = Ok blob \<and>
      (passes (test_downgrade_lock_detects_suite_mismatch P J dbg) w \<longleftrightarrow>
        (\<forall>m. open_sealed P J dbg blob (private_key kp) (lit ''a'') (lit ''b'') CLASSICAL_SUITE \<noteq> Ok m)) \<and>
      (passes (test_downgrade_lock_detects_party_tamper P J dbg) w \<longleftrightarrow>
        (\<forall>m. open_sealed P J dbg blob (private_key kp) (lit ''MALLORY'') (lit ''b'') HYBRID_SUITE \<noteq> Ok m))"
proof -
  let ?kp = "fst (hybrid_keypair P w)" and ?w1 = "snd (hybrid_keypair P w)"
  note pair = generated_pair [OF assms(1), of w]
  have ab: "length (downgrade_lock_aad J HYBRID_SUITE (lit ''a'') (lit ''b'') None) < 2 ^ 32"
    by (rule short_aadD [OF assms(2)]) simp_all
  have msg: "length (blit ''secret'') < 2 ^ 32" by simp
  obtain blob w' where s: "seal P J (blit ''secret'') (public_key ?kp) (lit ''a'') (lit ''b'') ?w1 = (Ok blob, w')"
    by (rule pqdm_opens [OF pair msg ab, where w = ?w1])
  show ?thesis
    by (simp add: test_downgrade_lock_detects_suite_mismatch_def test_downgrade_lock_detects_party_tamper_def
        wp_rules s case_prod_unfold Let_def open_other_aad [OF pair s])
qed

lemma seal_nondeterministic_test:
  assumes "prims_laws P" "short_aad J"
  shows "passes (test_seal_is_nondeterministic_but_both_open P J dbg) w \<longleftrightarrow>
    (let (kp, w1) = hybrid_keypair P w;
         (r1, w2) = seal P J (blit ''x'') (public_key kp) (lit ''a'') (lit ''b'') w1;
         (r2, w3) = seal P J (blit ''x'') (public_key kp) (lit ''a'') (lit ''b'') w2
     in r1 \<noteq> r2)"
proof -
  let ?kp = "fst (hybrid_keypair P w)" and ?w1 = "snd (hybrid_keypair P w)"
  note pair = generated_pair [OF assms(1), of w]
  have ab: "length (downgrade_lock_aad J HYBRID_SUITE (lit ''a'') (lit ''b'') None) < 2 ^ 32"
    by (rule short_aadD [OF assms(2)]) simp_all
  have msg: "length (blit ''x'') < 2 ^ 32" by simp
  obtain s1 w2 where 1: "seal P J (blit ''x'') (public_key ?kp) (lit ''a'') (lit ''b'') ?w1 = (Ok s1, w2)"
    "\<And>dbg. open_sealed P J dbg s1 (private_key ?kp) (lit ''a'') (lit ''b'') HYBRID_SUITE = Ok (blit ''x'')"
    by (rule pqdm_opens [OF pair msg ab, where w = ?w1]) blast
  obtain s2 w3 where 2: "seal P J (blit ''x'') (public_key ?kp) (lit ''a'') (lit ''b'') w2 = (Ok s2, w3)"
    "\<And>dbg. open_sealed P J dbg s2 (private_key ?kp) (lit ''a'') (lit ''b'') HYBRID_SUITE = Ok (blit ''x'')"
    by (rule pqdm_opens [OF pair msg ab, where w = w2]) blast
  show ?thesis
    by (simp add: test_seal_is_nondeterministic_but_both_open_def wp_rules 1 2 case_prod_unfold Let_def)
qed

end
