(* ===== verification/Route_Tests.thy ===== *)
theory Route_Tests
  imports Envelope_Tests
begin

text \<open>
  The unit tests of \<open>pqroute.rs\<close>. The \<open>json!\<close> values are object literals of the model; the
  canonical texts and their hexadecimal forms are evaluated, and the round trips need the JSON
  library's laws only for the three small objects they send.
\<close>

definition route_v1 :: json where
  "route_v1 = json_object [(lit ''v'', JNum (PosInt 1))]"

definition relay_header :: "string \<Rightarrow> json" where
  "relay_header r = json_object [(lit ''to_relay'', JStr (lit r)), (lit ''v'', JNum (PosInt 1))]"

fun is_route_open :: "(pqroute_error, 'a) res \<Rightarrow> bool" where
  "is_route_open (Err (RouteOpen m)) = True"
| "is_route_open _ = False"

fun is_route_format :: "(pqroute_error, 'a) res \<Rightarrow> bool" where
  "is_route_format (Err (RouteFormat m)) = True"
| "is_route_format _ = False"

section \<open>Canonical text\<close>

definition test_canonical_is_deterministic_and_sorted :: "serde \<Rightarrow> unit test" where
  "test_canonical_is_deterministic_and_sorted J =
     (let a = json_object [(lit ''v'', JNum (PosInt 1)), (lit ''to_relay'', JStr (lit ''relay-7''))];
          b = json_object [(lit ''to_relay'', JStr (lit ''relay-7'')), (lit ''v'', JNum (PosInt 1))]
      in checks [canonical J a = canonical J b, canonical J a = canonical J a])"

definition test_parity_canonical_route_header :: "serde \<Rightarrow> codecs \<Rightarrow> unit test" where
  "test_parity_canonical_route_header J C =
     (let rh = relay_header ''relay-7'' in checks
        [canonical J rh = blit (''{\"to_relay\":\"relay-7\",\"v\":1}''),
         hex_encode C (canonical J rh) = lit ''7b22746f5f72656c6179223a2272656c61792d37222c2276223a317d''])"

definition test_parity_canonical_ensure_ascii :: "serde \<Rightarrow> codecs \<Rightarrow> unit test" where
  "test_parity_canonical_ensure_ascii J C =
     (let v = json_object [(lit ''note'', JStr (lit ''caf'' @ [0xE9])), (lit ''z'', JNum (PosInt 2)),
                           (lit ''a'', JBool True), (lit ''n'', JNull)]
      in checks [hex_encode C (canonical J v) =
        lit ''7b2261223a747275652c226e223a6e756c6c2c226e6f7465223a226361665c7530306539222c227a223a327d''])"

definition test_parity_canonical_surrogate_pair :: "serde \<Rightarrow> codecs \<Rightarrow> unit test" where
  "test_parity_canonical_surrogate_pair J C =
     (let v = json_object [(lit ''e'', JStr [0x1F600])]
      in checks [hex_encode C (canonical J v) = lit ''7b2265223a225c75643833645c7564653030227d''])"

definition test_parity_wrap_key_vector :: "prims \<Rightarrow> serde \<Rightarrow> codecs \<Rightarrow> unit test" where
  "test_parity_wrap_key_vector P J C =
     (let shared = map word_of_nat [0..<32];
          aad = build_aad (canonical J (relay_header ''relay-7''));
          wk = derive_wrap_key P shared aad
      in checks
        [hex_encode C aad =
           lit ''7071726f757465317c7b22746f5f72656c6179223a2272656c61792d37222c2276223a317d'',
         hex_encode C wk = lit ''e68bc1c04dff6a00ad3ee7cdd86da50da37427f6d58f762c650219ca2fed8192''])"

lemmas canonical_eval = json_object_def btree_collect_def lit_def blit_def
  less_list_code encode_string_ascii_def escape_char_def Let_def insort_key_def dec.simps

lemma canonical_relay:
  "canonical J (relay_header ''relay-7'') = blit (''{\"to_relay\":\"relay-7\",\"v\":1}'')"
  by (simp add: relay_header_def canonical_eval)

lemma hex_relay: "sample_hex_encode (blit (''{\"to_relay\":\"relay-7\",\"v\":1}'')) =
    lit ''7b22746f5f72656c6179223a2272656c61792d37222c2276223a317d''"
  by (simp add: sample_hex_encode_def hex_digit_def blit_def lit_def)

lemma canonical_tests_pass:
  "passes (test_canonical_is_deterministic_and_sorted J) w"
  "hex_exact C \<Longrightarrow> passes (test_parity_canonical_route_header J C) w"
  by (simp_all add: test_canonical_is_deterministic_and_sorted_def test_parity_canonical_route_header_def
      wp_rules hex_exact_def canonical_relay hex_relay)
     (simp add: canonical_eval)

text \<open>The two escapes: \<open>\u00e9\<close> and the surrogate pair \<open>\ud83d\ude00\<close>.\<close>

lemma escapes:
  "push_u_escape 0xE9 = blit (CHR 0x5C # ''u00e9'')"
  "push_u_escape 0xD83D = blit (CHR 0x5C # ''ud83d'')" "push_u_escape 0xDE00 = blit (CHR 0x5C # ''ude00'')"
  by (simp_all add: push_u_escape_def HEX_def blit_def)

lemma canonical_cafe:
  "canonical J (json_object [(lit ''note'', JStr (lit ''caf'' @ [0xE9])), (lit ''z'', JNum (PosInt 2)),
     (lit ''a'', JBool True), (lit ''n'', JNull)]) =
   blit (''{\"a\":true,\"n\":null,\"note\":\"caf'' @ CHR 0x5C # ''u00e9\",\"z\":2}'')"
  by (simp add: canonical_eval escapes)

lemma canonical_smile:
  "canonical J (json_object [(lit ''e'', JStr [0x1F600])]) =
   blit (''{\"e\":\"'' @ CHR 0x5C # ''ud83d'' @ CHR 0x5C # ''ude00\"}'')"
  by (simp add: canonical_eval escapes)

lemma ascii_tests_pass:
  assumes "hex_exact C"
  shows "passes (test_parity_canonical_ensure_ascii J C) w"
    and "passes (test_parity_canonical_surrogate_pair J C) w"
  using assms
  by (simp_all only: test_parity_canonical_ensure_ascii_def test_parity_canonical_surrogate_pair_def
      wp_rules hex_exact_def canonical_cafe canonical_smile Let_def)
     (simp_all add: sample_hex_encode_def hex_digit_def blit_def lit_def)

text \<open>The wrap key's vector is a value of HKDF: the test passes if HKDF has that value.\<close>

lemma route_wrap_vector_test:
  assumes "hex_exact C"
  shows "passes (test_parity_wrap_key_vector P J C) w \<longleftrightarrow>
    hex_encode C (hkdf_sha256 P [] (map word_of_nat [0..<32])
      (blit (''skcomms/pqroute/wrap/v1|pqroute1|{\"to_relay\":\"relay-7\",\"v\":1}''))) =
    lit ''e68bc1c04dff6a00ad3ee7cdd86da50da37427f6d58f762c650219ca2fed8192''"
proof -
  have aad: "build_aad (canonical J (relay_header ''relay-7'')) =
      blit (''pqroute1|{\"to_relay\":\"relay-7\",\"v\":1}'')"
    by (simp add: canonical_relay build_aad_def ROUTE_SUITE_def blit_def)
  have hex: "sample_hex_encode (blit (''pqroute1|{\"to_relay\":\"relay-7\",\"v\":1}'')) =
      lit ''7071726f757465317c7b22746f5f72656c6179223a2272656c61792d37222c2276223a317d''"
    by (simp add: sample_hex_encode_def hex_digit_def blit_def lit_def)
  have key: "derive_wrap_key P x (blit (''pqroute1|{\"to_relay\":\"relay-7\",\"v\":1}'')) =
      hkdf_sha256 P [] x (blit (''skcomms/pqroute/wrap/v1|pqroute1|{\"to_relay\":\"relay-7\",\"v\":1}''))" for x
    by (simp add: derive_wrap_key_def ROUTE_INFO_WRAP_def blit_def)
  show ?thesis
    using assms hex unfolding hex_exact_def
    by (simp add: test_parity_wrap_key_vector_def wp_rules aad key Let_def
        del: upt.simps upt_Suc upt_rec_numeral)
qed

section \<open>Envelopes\<close>

definition route_body :: "json" where
  "route_body = json_object [(lit ''d'', JNum (PosInt 1))]"

definition trip_meta :: json where
  "trip_meta = json_object
     [(lit ''dest'', JStr (lit ''bob@sk'')), (lit ''ts'', JNum (PosInt 1750000000)),
      (lit ''flags'', JArr [JStr (lit ''a''), JStr (lit ''b'')])]"

definition test_seal_open_round_trip :: "prims \<Rightarrow> serde \<Rightarrow> unit test" where
  "test_seal_open_round_trip P J =
     test_then (effect (hybrid_keypair P)) (\<lambda>kp.
     let route_hdr = relay_header ''relay-7''; inner_meta = trip_meta;
         content = blit ''the secret body bytes'' in
     test_then (unwrapped (seal_routed P J inner_meta content (public_key kp) route_hdr)) (\<lambda>blob.
     test_then (unwrap (read_route_header J blob)) (\<lambda>h.
     test_then (checks [h = route_hdr]) (\<lambda>_.
     test_then (unwrap (open_routed P J blob (private_key kp))) (\<lambda>(got_hdr, got_meta, got_content).
     checks [got_hdr = route_hdr, got_meta = inner_meta, got_content = content])))))"

definition test_seal_open_empty_content :: "prims \<Rightarrow> serde \<Rightarrow> unit test" where
  "test_seal_open_empty_content P J =
     test_then (effect (hybrid_keypair P)) (\<lambda>kp.
     let inner_meta = json_object [] in
     test_then (unwrapped (seal_routed P J inner_meta [] (public_key kp) route_v1)) (\<lambda>blob.
     test_then (unwrap (open_routed P J blob (private_key kp))) (\<lambda>(_, meta, content).
     checks [meta = inner_meta, content = []])))"

definition test_rewritten_header_is_rejected :: "prims \<Rightarrow> serde \<Rightarrow> unit test" where
  "test_rewritten_header_is_rejected P J =
     test_then (effect (hybrid_keypair P)) (\<lambda>kp.
     let inner_meta = json_object [(lit ''dest'', JStr (lit ''bob@sk''))] in
     test_then (unwrapped (seal_routed P J inner_meta (blit ''body'') (public_key kp) (relay_header ''relay-7''))) (\<lambda>blob.
     test_then (unwrap (replace_route_header J blob (relay_header ''evil''))) (\<lambda>tampered.
     test_then (unwrap (read_route_header J tampered)) (\<lambda>h.
     checks [h = relay_header ''evil'', is_route_open (open_routed P J tampered (private_key kp))]))))"

definition test_tampered_inner_is_rejected :: "prims \<Rightarrow> serde \<Rightarrow> unit test" where
  "test_tampered_inner_is_rejected P J =
     test_then (effect (hybrid_keypair P)) (\<lambda>kp.
     test_then (unwrapped (seal_routed P J route_body (blit ''body'') (public_key kp) route_v1)) (\<lambda>blob.
     checks [is_route_open (open_routed P J (flip_last blob) (private_key kp))]))"

definition test_wrong_key_is_rejected :: "prims \<Rightarrow> serde \<Rightarrow> unit test" where
  "test_wrong_key_is_rejected P J =
     test_then (effect (hybrid_keypair P)) (\<lambda>kp.
     test_then (effect (hybrid_keypair P)) (\<lambda>other.
     test_then (unwrapped (seal_routed P J route_body (blit ''body'') (public_key kp) route_v1)) (\<lambda>blob.
     checks [is_route_open (open_routed P J blob (private_key other))])))"

definition test_bad_pub_len_is_format_error :: "prims \<Rightarrow> serde \<Rightarrow> unit test" where
  "test_bad_pub_len_is_format_error P J =
     test_then (effect (seal_routed P J (json_object []) [] (replicate 10 0) route_v1)) (\<lambda>err.
     checks [is_route_format err])"

definition test_truncated_blob_is_format_error :: "serde \<Rightarrow> unit test" where
  "test_truncated_blob_is_format_error J = checks
     [is_route_format (read_route_header J (replicate 2 0)),
      is_route_format (split_outer (u32_be 100 @ blit ''short''))]"

definition test_short_sealed_inner_is_format_error :: "prims \<Rightarrow> serde \<Rightarrow> unit test" where
  "test_short_sealed_inner_is_format_error P J =
     (let route = canonical J route_v1;
          blob = u32_be (len_u32 route) @ route @ replicate 16 0
      in checks [is_route_format (open_routed P J blob (replicate PRIVATE_KEY_LEN 0))])"

lemma route_format_tests_pass:
  "passes (test_bad_pub_len_is_format_error P J) w" "passes (test_truncated_blob_is_format_error J) w"
proof -
  show "passes (test_bad_pub_len_is_format_error P J) w"
    by (simp add: test_bad_pub_len_is_format_error_def wp_rules seal_routed_def)
  have "split_outer (u32_be 100 @ blit ''short'') =
      Err (RouteFormat (lit ''route header length exceeds blob size''))"
    by (simp add: split_outer_def Let_def)
  then show "passes (test_truncated_blob_is_format_error J) w"
    by (simp add: test_truncated_blob_is_format_error_def wp_rules read_route_header_def split_outer_def)
qed

lemma short_inner_test_passes: "passes (test_short_sealed_inner_is_format_error P J) w"
proof -
  have "canonical J route_v1 = blit (''{\"v\":1}'')" by (simp add: route_v1_def canonical_eval)
  then have "length (canonical J route_v1) < 2 ^ 32" by simp
  from split_outer_join [OF this]
  show ?thesis
    by (simp add: test_short_sealed_inner_is_format_error_def wp_rules open_routed_def Let_def)
qed

text \<open>The values the round trips send are routable: their texts are short.\<close>

lemma routable_values:
  "routable J trip_meta (relay_header ''relay-7'') (blit ''the secret body bytes'')"
  "routable J (json_object []) route_v1 []" "routable J route_body route_v1 (blit ''body'')"
  "routable J (json_object [(lit ''dest'', JStr (lit ''bob@sk''))]) (relay_header ''relay-7'') (blit ''body'')"
  by (simp_all add: routable_def trip_meta_def relay_header_def route_v1_def route_body_def canonical_eval
      valid_str_def scalar_value_def)

lemma route_trip_tests_pass:
  assumes "prims_laws P" "serde_laws J"
  shows "passes (test_seal_open_round_trip P J) w" and "passes (test_seal_open_empty_content P J) w"
proof -
  let ?w1 = "snd (hybrid_keypair P w)"
  note pair = generated_pair [OF assms(1), of w]
  show "passes (test_seal_open_round_trip P J) w"
    by (rule routed_opens [OF pair assms(2) routable_values(1), where w = ?w1])
       (simp add: test_seal_open_round_trip_def wp_rules Let_def)
  show "passes (test_seal_open_empty_content P J) w"
    by (rule routed_opens [OF pair assms(2) routable_values(2), where w = ?w1])
       (simp add: test_seal_open_empty_content_def wp_rules Let_def)
qed

text \<open>
  Past the length checks every failure of \<open>open_routed\<close> is an \<open>Open\<close> error, so the tests that
  expect one under a rewritten header or another key pass unless the AEAD accepts.
\<close>

lemma split_inner_errors: "split_inner J inner = Err e \<Longrightarrow> \<exists>m. e = RouteOpen m"
  by (auto simp: split_inner_def Let_def split: if_splits sum.splits)

lemma open_routed_open_error:
  assumes "split_outer blob = Ok (route, sealed)" "1148 \<le> length sealed" "from_slice J route = Inr v"
  shows "is_route_open (open_routed P J blob sk) \<longleftrightarrow> (\<forall>x. open_routed P J blob sk \<noteq> Ok x)"
proof (cases "hybrid_decap P (blob_ct sealed) sk")
  case (Ok shared)
  let ?aad = "build_aad route"
  show ?thesis
  proof (cases "gcm_decrypt P (derive_wrap_key P shared ?aad) (blob_nonce sealed) ?aad (blob_body sealed)")
    case None then show ?thesis using assms Ok by (simp add: open_routed_def Let_def)
  next
    case (Some inner)
    show ?thesis
    proof (cases "split_inner J inner")
      case (Err e)
      then obtain m where "e = RouteOpen m" using split_inner_errors by blast
      then show ?thesis using assms Ok Some Err by (simp add: open_routed_def Let_def)
    qed (use assms Ok Some in \<open>auto simp: open_routed_def Let_def\<close>)
  qed
qed (use assms hybrid_decap_not_Panic in \<open>auto simp: open_routed_def Let_def\<close>)

lemma tampered_inner_test_passes:
  assumes "prims_laws P" "serde_laws J" "gcm_tag_law P"
  shows "passes (test_tampered_inner_is_rejected P J) w"
proof -
  let ?kp = "fst (hybrid_keypair P w)" and ?w1 = "snd (hybrid_keypair P w)"
  note pair = generated_pair [OF assms(1), of w] and len = routable_lengths [OF routable_values(3)]
  have hdr: "from_slice J (canonical J route_v1) = Inr route_v1"
    using routable_values(3) by (intro serde_canonical [OF assms(2)]) (simp_all add: routable_def)
  obtain blob w' where s: "seal_routed P J route_body (blit ''body'') (public_key ?kp) route_v1 ?w1 = (Ok blob, w')"
    by (rule seal_routed_total [OF pair len(2,1), where w = ?w1]) blast
  have "16 \<le> length blob"
    by (rule open_routed_sealed [OF pair s len(3)]) (drule split_outer_OkD(1), simp)
  then have "changed_tag blob (flip_last blob)" by (rule flip_last_changes)
  then show ?thesis
    using routed_changed_tag [OF pair assms(3) s _ len(3) hdr]
    by (simp add: test_tampered_inner_is_rejected_def wp_rules s)
qed

lemma rewritten_header_test:
  assumes "prims_laws P" "serde_laws J"
  shows "let (kp, w1) = hybrid_keypair P w;
      (r, w2) = seal_routed P J (json_object [(lit ''dest'', JStr (lit ''bob@sk''))]) (blit ''body'')
        (public_key kp) (relay_header ''relay-7'') w1
    in \<exists>blob evil. r = Ok blob \<and> replace_route_header J blob (relay_header ''evil'') = Ok evil \<and>
      (passes (test_rewritten_header_is_rejected P J) w \<longleftrightarrow>
        (\<forall>x. open_routed P J evil (private_key kp) \<noteq> Ok x))"
proof -
  let ?kp = "fst (hybrid_keypair P w)" and ?w1 = "snd (hybrid_keypair P w)"
  let ?evil = "relay_header ''evil''" and ?meta = "json_object [(lit ''dest'', JStr (lit ''bob@sk''))]"
  note pair = generated_pair [OF assms(1), of w] and len = routable_lengths [OF routable_values(4)]
  have evil: "json_plain ?evil" "json_depth ?evil \<le> 127" "length (canonical J ?evil) < 2 ^ 32"
    by (simp_all add: relay_header_def canonical_eval valid_str_def scalar_value_def)
  then have parse: "from_slice J (canonical J ?evil) = Inr ?evil" by (intro serde_canonical [OF assms(2)])
  obtain blob w' where s: "seal_routed P J ?meta (blit ''body'') (public_key ?kp) (relay_header ''relay-7'') ?w1 = (Ok blob, w')"
    by (rule seal_routed_total [OF pair len(2,1), where w = ?w1]) blast
  obtain sealed where sp: "split_outer blob = Ok (canonical J (relay_header ''relay-7''), sealed)"
    and long: "1148 \<le> length sealed"
    by (rule open_routed_sealed [OF pair s len(3)]) simp
  let ?blob = "u32_be (len_u32 (canonical J ?evil)) @ canonical J ?evil @ sealed"
  have rep: "replace_route_header J blob ?evil = Ok ?blob"
    by (simp add: replace_route_header_def sp Let_def)
  note sp' = split_outer_join [OF evil(3), of sealed]
  have "read_route_header J ?blob = Ok ?evil" by (simp add: read_route_header_def sp' parse)
  then show ?thesis
    using open_routed_open_error [OF sp' long parse, of P "private_key ?kp"]
    by (simp add: test_rewritten_header_is_rejected_def wp_rules s rep case_prod_unfold Let_def)
qed

lemma wrong_key_test:
  assumes "prims_laws P" "serde_laws J"
  shows "let (kp, w1) = hybrid_keypair P w; (other, w2) = hybrid_keypair P w1;
      (r, w3) = seal_routed P J route_body (blit ''body'') (public_key kp) route_v1 w2
    in \<exists>blob. r = Ok blob \<and>
      (passes (test_wrong_key_is_rejected P J) w \<longleftrightarrow> (\<forall>x. open_routed P J blob (private_key other) \<noteq> Ok x))"
proof -
  let ?kp = "fst (hybrid_keypair P w)" and ?w2 = "snd (hybrid_keypair P (snd (hybrid_keypair P w)))"
  note pair = generated_pair [OF assms(1), of w] and len = routable_lengths [OF routable_values(3)]
  have parse: "from_slice J (canonical J route_v1) = Inr route_v1"
    using routable_values(3) by (intro serde_canonical [OF assms(2)]) (simp_all add: routable_def)
  obtain blob w' where s: "seal_routed P J route_body (blit ''body'') (public_key ?kp) route_v1 ?w2 = (Ok blob, w')"
    by (rule seal_routed_total [OF pair len(2,1), where w = ?w2]) blast
  obtain sealed where sp: "split_outer blob = Ok (canonical J route_v1, sealed)" "1148 \<le> length sealed"
    by (rule open_routed_sealed [OF pair s len(3)]) simp
  show ?thesis
    using open_routed_open_error [OF sp parse]
    by (simp add: test_wrong_key_is_rejected_def wp_rules s case_prod_unfold Let_def)
qed

end
