(* ===== verification/Dm_Talk.thy ===== *)
theory Dm_Talk
  imports Dm_Lifetime Test_Kit
begin

text \<open>
  A conversation under a steady clock. When no two readings of the clock are a re-key age apart,
  the slots of a session's frames are determined by the message bound alone: \<open>talk_seal\<close> and
  \<open>talk_open\<close> step through a conversation of which every frame's epoch, index and
  key-agreement message are known beforehand.
\<close>

section \<open>What a seal does to the clock\<close>

text \<open>Readings are only consumed, and an epoch starts at one of them.\<close>

definition later :: "world \<Rightarrow> world \<Rightarrow> bool" where
  "later w w' \<longleftrightarrow> sset (clock w') \<subseteq> sset (clock w)"

lemma later_refl [simp]: "later w w"
  by (simp add: later_def)

lemma later_trans: "later w w1 \<Longrightarrow> later w1 w2 \<Longrightarrow> later w w2"
  by (auto simp: later_def)

lemma later_now: "now_seconds w = (t, w') \<Longrightarrow> t \<in> reading ` sset (clock w) \<and> later w w'"
  by (auto simp: now_seconds_reading later_def shd_sset dest: stl_sset)

lemma later_fill [intro]: "fill_bytes n w = (bs, w') \<Longrightarrow> later w w'"
  by (simp add: later_def fill_bytes_clock)

lemma later_draw [intro]: "draw f w = (x, w') \<Longrightarrow> later w w'"
  by (auto simp: draw_def later_def split: prod.splits)

lemma later_keypair: "later w (snd (hybrid_keypair P w))"
  by (auto simp: hybrid_keypair_def Let_def later_def draw_def split: prod.split)

lemma later_encap: "later w (snd (hybrid_encap P pk w))"
  by (auto simp: hybrid_encap_def Let_def later_def draw_def split: prod.split res.split option.split)

lemma later_wrap: "wrap_dm_epoch_secret P es pk w = (res, w') \<Longrightarrow> later w w'"
  using later_encap [of w P pk]
  by (auto simp: wrap_dm_epoch_secret_def Let_def fill_bytes_def later_def
      split: if_splits prod.splits res.splits option.splits)

text \<open>What every step of a seal keeps of the session and the clock.\<close>

definition keeps :: "world \<Rightarrow> DmSession \<Rightarrow> DmSession \<Rightarrow> world \<Rightarrow> bool" where
  "keeps w s s' w' \<longleftrightarrow> later w w' \<and> ds_peer s' = ds_peer s \<and>
     ds_rekey_msg_bound s' = ds_rekey_msg_bound s \<and> ds_rekey_age_seconds s' = ds_rekey_age_seconds s \<and>
     (\<forall>r'. ds_ratchet s' = Some r' \<longrightarrow>
        dr_epoch_started_at r' \<in> reading ` sset (clock w) \<or>
        (\<exists>r. ds_ratchet s = Some r \<and> dr_epoch_started_at r = dr_epoch_started_at r'))"

lemma keeps_refl: "later w w' \<Longrightarrow> keeps w s s w'"
  by (simp add: keeps_def)

lemma keeps_trans: "keeps w s s1 w1 \<Longrightarrow> keeps w1 s1 s2 w2 \<Longrightarrow> keeps w s s2 w2"
  by (fastforce simp: keeps_def later_def)

lemma begin_at_later: "begin_at chk s w = (res, w1) \<Longrightarrow> later w w1"
  by (auto simp: begin_at_def DmRatchet_should_rekey_def Let_def dest!: later_now
      split: option.splits prod.splits bool.splits if_splits)

lemma begin_epoch_keeps:
  assumes "begin_epoch P e pk s w = (res, s', w')"
  shows "keeps w s s' w'"
proof -
  obtain secret w1 where n: "new_epoch_secret w = (secret, w1)" by fastforce
  obtain k w2 where k: "wrap_dm_epoch_secret P secret pk w1 = (k, w2)" by fastforce
  have l: "later w w2"
    using later_trans [OF later_fill later_wrap [OF k]] n by (simp add: new_epoch_secret_def)
  obtain t w3 where t: "now_seconds w2 = (t, w3)" by fastforce
  have tl: "t \<in> reading ` sset (clock w)" "later w w3"
    using l later_now [OF t] later_trans by (auto simp: later_def)
  show ?thesis
    using assms n k t
    by (cases k) (use l tl in \<open>auto simp: begin_epoch_def DmRatchet_with_bounds_def keeps_def\<close>)
qed

lemma seal_frame_keeps:
  assumes "seal_frame P chk pt s w = (res, s', w')"
  shows "keeps w s s' w'"
  using assms
  by (auto simp: seal_frame_def DmRatchet_next_outbound_key_def Let_def fill_bytes_def keeps_def later_def
      split: option.splits res.splits prod.splits)

lemma seal_keeps:
  assumes "DmSession_seal P chk pt pk s w = (res, s', w')"
  shows "keeps w s s' w'"
proof -
  obtain b w0 where b: "begin_at chk s w = (b, w0)" by fastforce
  note l = begin_at_later [OF b]
  show ?thesis
  proof (cases b)
    case (Ok oe)
    show ?thesis
    proof (cases oe)
      case None
      then show ?thesis
        using assms b Ok keeps_trans [OF keeps_refl [OF l] seal_frame_keeps]
        by (simp add: DmSession_seal_def)
    next
      case (Some e)
      obtain r1 s1 w1 where e: "begin_epoch P e pk s w0 = (r1, s1, w1)" using prod_cases3 by blast
      note k = keeps_trans [OF keeps_refl [OF l] begin_epoch_keeps [OF e]]
      show ?thesis
        using assms b Ok Some e k keeps_trans [OF k seal_frame_keeps]
        by (cases r1) (auto simp: DmSession_seal_def)
    qed
  qed (use assms b l in \<open>auto simp: DmSession_seal_def intro: keeps_refl\<close>)
qed

section \<open>Steps of a conversation\<close>

text \<open>No two readings are a re-key age apart.\<close>

definition steady_clock :: "world \<Rightarrow> bool" where
  "steady_clock w \<longleftrightarrow>
     (\<forall>r1 \<in> sset (clock w). \<forall>r2 \<in> sset (clock w).
        \<not> f64_ge (f64_sub (reading r2) (reading r1)) (f64_of_nat (unat DEFAULT_REKEY_AGE_SECONDS)))"

text \<open>A clock that stands still is steady.\<close>

lemma sample_steady: "steady_clock (sample_world b t)"
proof -
  obtain x where "as_secs_f64 t 0 = Fin x"
    using as_secs_f64_finite [of t 0] by (cases "as_secs_f64 t 0") auto
  moreover have "f64_sub (Fin x) (Fin x) = Fin 0" using round64_of_int [of 0] by (simp add: f64_sub_def)
  moreover have "f64_of_nat (unat DEFAULT_REKEY_AGE_SECONDS) = Fin 604800"
    by (simp add: DEFAULT_REKEY_AGE_SECONDS_def f64_of_nat_exact)
  ultimately show ?thesis by (simp add: steady_clock_def sample_world_def sset_sconst)
qed

text \<open>
  \<open>talk P chk pk sk w0 w A B sent bound e i\<close>: a conversation that began in the world \<open>w0\<close> and has
  come to \<open>w\<close>; the next frame of \<open>A\<close> is number \<open>i\<close> of epoch \<open>e\<close>, unless \<open>bound\<close> calls for a new epoch.
\<close>

definition talk :: "prims \<Rightarrow> bool \<Rightarrow> bytes \<Rightarrow> bytes \<Rightarrow> world \<Rightarrow> world \<Rightarrow> DmSession \<Rightarrow> DmSession \<Rightarrow>
    (SealedDmFrame \<times> bytes) list \<Rightarrow> u64 \<Rightarrow> u64 \<Rightarrow> u64 \<Rightarrow> bool" where
  "talk P chk pk sk w0 w A B sent bound e i \<longleftrightarrow>
     net_run P chk pk sk (length sent) A B sent \<and> length sent < 2 ^ 32 \<and> later w0 w \<and>
     ds_rekey_msg_bound A = bound \<and> ds_rekey_age_seconds A = DEFAULT_REKEY_AGE_SECONDS \<and>
     (case ds_ratchet A of
        None \<Rightarrow> e = 0 \<and> i = 0
      | Some r \<Rightarrow> dr_epoch r = e \<and> dr_message_index r = i \<and>
          dr_epoch_started_at r \<in> reading ` sset (clock w0))"

lemma talk_start:
  "later w0 w \<Longrightarrow>
   talk P chk pk sk w0 w (DmSession_with_bounds b bound DEFAULT_REKEY_AGE_SECONDS)
     (DmSession_with_bounds a bound' age') [] bound 0 0"
  by (simp add: talk_def net_run.start) (simp add: DmSession_with_bounds_def)

lemma net_session_run:
  assumes "net_run P chk pk sk n A B sent"
  shows "session_run P chk n A (map fst sent)"
  using assms by induction (auto intro: session_run.intros)

lemma talk_inv:
  assumes "talk P chk pk sk w0 w A B sent bound e i" "seal_pair P pk sk"
  shows "net_inv P sk (length sent) A B sent" "run_inv (length sent) A (map fst sent)"
    "kdf_sizes P" "gcm_laws P"
proof -
  have n: "length sent < 2 ^ 64" "net_run P chk pk sk (length sent) A B sent"
    using assms(1) by (simp_all add: talk_def)
  show laws: "kdf_sizes P" "gcm_laws P" using assms(2) by (simp_all add: seal_pair_def kem_pair_def)
  show "net_inv P sk (length sent) A B sent" by (rule net_run_inv [OF n(2,1) assms(2) laws(1)])
  show "run_inv (length sent) A (map fst sent)"
    by (rule session_run_inv [OF net_session_run [OF n(2)] n(1)])
qed

text \<open>The slot of the next frame.\<close>

definition talk_slot :: "u64 \<Rightarrow> u64 \<Rightarrow> u64 \<Rightarrow> u64 \<times> u64" where
  "talk_slot bound e i = (if i < bound then (e, i) else (e + 1, 0))"

lemma talk_next_slot:
  assumes t: "talk P chk pk sk w0 w A B sent bound e i" and inv: "run_inv n A fs"
    and steady: "steady_clock w0" and "0 < bound"
  shows "next_slot A (fst (now_seconds w)) = talk_slot bound e i"
proof (cases "ds_ratchet A")
  case None
  then show ?thesis using t assms(4) by (simp add: next_slot_def talk_def talk_slot_def)
next
  case (Some r)
  have "ratchet_wf A r" using inv session_wfD(2) [OF _ Some] by (simp add: run_inv_def)
  then have b: "dr_rekey_msg_bound r = bound" "dr_rekey_age_seconds r = DEFAULT_REKEY_AGE_SECONDS"
    "dr_epoch r = e" "dr_message_index r = i" "dr_epoch_started_at r \<in> reading ` sset (clock w0)"
    using t Some by (simp_all add: ratchet_wf_def talk_def)
  have "fst (now_seconds w) \<in> reading ` sset (clock w)"
    using later_now [of w "fst (now_seconds w)" "snd (now_seconds w)"] by simp
  then have now: "fst (now_seconds w) \<in> reading ` sset (clock w0)"
    using t unfolding talk_def later_def by blast
  obtain r1 r2 where "r1 \<in> sset (clock w0)" "r2 \<in> sset (clock w0)"
    "dr_epoch_started_at r = reading r1" "fst (now_seconds w) = reading r2"
    using b(5) now by (elim imageE)
  then have "\<not> f64_ge (f64_sub (fst (now_seconds w)) (dr_epoch_started_at r))
      (f64_of_nat (unat DEFAULT_REKEY_AGE_SECONDS))"
    using steady by (simp add: steady_clock_def)
  then have "should_rekey i (dr_epoch_started_at r) (fst (now_seconds w)) bound DEFAULT_REKEY_AGE_SECONDS
      \<longleftrightarrow> bound \<le> i"
    by (simp add: should_rekey_def)
  then show ?thesis by (cases "bound \<le> i") (simp_all add: b(1-4) Some next_slot_def talk_slot_def)
qed

lemma talk_seal:
  assumes t: "talk P chk pk sk w0 w A B sent bound e i" and pair: "seal_pair P pk sk"
    and steady: "steady_clock w0" and "0 < bound" and room: "length sent < 2 ^ 31" and pt: "length pt < 2 ^ 31"
    and slot: "talk_slot bound e i = (e', i')"
  obtains f A' w' where "DmSession_seal P chk pt pk A w = (Ok f, A', w')"
    "fr_epoch f = e'" "fr_index f = i'" "fr_kam f \<noteq> None \<longleftrightarrow> i' < 3" "frame_fits f" "16 \<le> length (fr_body f)"
    "talk P chk pk sk w0 w' A' B ((f, pt) # sent) bound e' (i' + 1)"
proof -
  note inv = talk_inv [OF t pair]
  have run: "net_run P chk pk sk (length sent) A B sent" using t by (simp add: talk_def)
  have "\<exists>f. fst (DmSession_seal P chk pt pk A w) = Ok f"
    using room pt by (intro seal_run_total [OF net_session_run [OF run] _ pair]) simp_all
  then obtain f A' w' where s: "DmSession_seal P chk pt pk A w = (Ok f, A', w')"
    by (metis prod.collapse)
  have wf: "session_wf A" using inv(2) by (simp add: run_inv_def)
  have "\<forall>r. ds_ratchet A = Some r \<longrightarrow> dr_epoch r \<noteq> - 1"
    using run_inv_epoch [OF inv(2)] room by simp
  from seal_slot [OF s wf this]
  obtain r where slot': "(fr_epoch f, fr_index f) = (e', i')"
    and r: "ds_ratchet A' = Some r" "dr_epoch r = fr_epoch f" "dr_message_index r = fr_index f + 1"
    using talk_next_slot [OF t inv(2) steady assms(4)] slot by auto
  have run': "net_run P chk pk sk (Suc (length sent)) A' B ((f, pt) # sent)"
    by (rule net_run.send [OF run s])
  note k = seal_keeps [OF s]
  have w0: "later w0 w" using t by (simp add: talk_def)
  have started: "dr_epoch_started_at r \<in> reading ` sset (clock w0)"
    using k r(1) w0 t by (auto simp: keeps_def talk_def later_def split: option.splits)
  have talk': "talk P chk pk sk w0 w' A' B ((f, pt) # sent) bound e' (i' + 1)"
    using run' k r slot' started t room later_trans [OF w0] by (simp add: talk_def keeps_def)
  then have "net_inv P sk (Suc (length sent)) A' B ((f, pt) # sent)"
    using talk_inv(1) [OF talk' pair] by simp
  then obtain sec where fs: "frame_seals P sk sec f pt" by (auto simp: net_inv_def)
  note fits = frame_seals_fits [OF fs inv(3,4)]
  have "frame_fits f" using fits(2) pt by simp
  then show ?thesis using that [OF s] slot' fs fits(1) talk' by (auto simp: frame_seals_def)
qed

text \<open>A frame that carries the key-agreement message, or of a known epoch, opens.\<close>

lemma talk_open:
  assumes t: "talk P chk pk sk w0 w A B sent bound e i" and pair: "seal_pair P pk sk"
    and f: "(f, pt) \<in> set sent" and known: "fr_index f < 3 \<or> fmlookup (ds_epoch_secrets B) (fr_epoch f) \<noteq> None"
  obtains B' where "DmSession_open P f sk B = (Ok pt, B')"
    "talk P chk pk sk w0 w A B' sent bound e i" "fmlookup (ds_epoch_secrets B') (fr_epoch f) \<noteq> None"
proof -
  note inv = talk_inv [OF t pair]
  obtain res B' where op: "DmSession_open P f sk B = (res, B')" by fastforce
  then have "res = Ok pt" "fmlookup (ds_epoch_secrets B') (fr_epoch f) \<noteq> None"
    using known unfolding net_open [OF inv(1,3,4) f] by (auto split: if_splits)
  moreover have "talk P chk pk sk w0 w A B' sent bound e i"
    using t net_run.deliver [OF _ f op] by (auto simp: talk_def)
  ultimately show ?thesis using that op by blast
qed

end
