(* ===== verification/Session_Tests.thy ===== *)
theory Session_Tests
  imports Keys_Tests Dm_Talk Utf8
begin

text \<open>
  The unit tests of \<open>dm_session.rs\<close>. The conversations are stepped through with \<open>talk_seal\<close> and
  \<open>talk_open\<close>, so they pass for all entropy and every clock on which no two readings are
  a week apart.
\<close>

text \<open>Tests import \<open>DmSession::open\<close>, which leaves the world alone, with its \<open>unwrap\<close>.\<close>

definition unwrapped_self :: "('e, 'a) res \<times> 's \<Rightarrow> ('a \<times> 's) test" where
  "unwrapped_self p w = (case p of (Ok a, s) \<Rightarrow> (Ok (a, s), w) | (_, s) \<Rightarrow> (Panic, w))"

lemma wp_unwrapped_self [wp_rules]: "wp (unwrapped_self p) Q w \<longleftrightarrow> (\<exists>a s. p = (Ok a, s) \<and> Q (a, s) w)"
  by (auto simp: wp_def unwrapped_self_def split: prod.split res.split)

fun is_bad_token :: "(dm_session_error, 'a) res \<Rightarrow> bool" where
  "is_bad_token (Err (BadToken m)) = True"
| "is_bad_token _ = False"

section \<open>Frames and tokens\<close>

definition test_parity_frame_aad_vector :: "codecs \<Rightarrow> unit test" where
  "test_parity_frame_aad_vector C = checks
     [hex_encode C (frame_aad 7 3) =
        lit ''736b636861742f646d2d6672616d652f76317c00000000000000070000000000000003'']"

definition test_token_roundtrip_with_and_without_kam :: "codecs \<Rightarrow> unit test" where
  "test_token_roundtrip_with_and_without_kam C =
     (let with_kam = \<lparr>fr_epoch = 4, fr_index = 9, fr_nonce = [1, 2, 3, 4, 5, 6, 7, 8, 9, 10, 11, 12],
                      fr_body = replicate 40 0xAA, fr_kam = Some (replicate 1180 0xBB)\<rparr>;
          no_kam = with_kam\<lparr>fr_kam := None\<rparr>
      in test_then (unwrap (from_token C (to_token C with_kam))) (\<lambda>parsed.
         test_then (checks [parsed = with_kam]) (\<lambda>_.
         test_then (unwrap (from_token C (to_token C no_kam))) (\<lambda>parsed2.
         checks [parsed2 = no_kam, to_token C with_kam \<noteq> to_token C no_kam]))))"

definition test_from_token_rejects_bad_input :: "codecs \<Rightarrow> unit test" where
  "test_from_token_rejects_bad_input C =
     (let truncated = PQDR_SCHEME @ b64_encode C (replicate 4 0)
      in checks
        [is_bad_token (from_token C (lit ''nope:abc'')),
         is_bad_token (from_token C (lit ''pqdr1:!!!not-base64!!!'')),
         is_bad_token (from_token C truncated)])"

lemma frame_aad_test_passes: "hex_encode C = sample_hex_encode \<Longrightarrow> passes (test_parity_frame_aad_vector C) w"
  by (simp add: test_parity_frame_aad_vector_def wp_rules frame_aad_def AAD_PREFIX_def)
     (simp add: sample_hex_encode_def hex_digit_def blit_def lit_def be_bytes_numeral u64_be_def)

lemma token_test_passes:
  assumes "b64_laws C"
  shows "passes (test_token_roundtrip_with_and_without_kam C) w"
proof -
  let ?f = "\<lambda>k. \<lparr>fr_epoch = 4, fr_index = 9, fr_nonce = [1, 2, 3, 4, 5, 6, 7, 8, 9, 10, 11, 12],
     fr_body = replicate 40 0xAA, fr_kam = k\<rparr> :: SealedDmFrame"
  have rt: "from_token C (to_token C (?f k)) = Ok (?f k)" if "k = None \<or> k = Some (replicate 1180 0xBB)" for k
    using that by (intro token_roundtrip [OF assms]) (auto simp: frame_fits_def)
  have "to_token C (?f (Some (replicate 1180 0xBB))) \<noteq> to_token C (?f None)"
    using rt [of None] rt [of "Some (replicate 1180 0xBB)"] by (metis SealedDmFrame.ext_inject option.distinct(1) res.inject(1))
  then show ?thesis
    using rt by (simp add: test_token_roundtrip_with_and_without_kam_def wp_rules Let_def)
qed

text \<open>The decoder of the \<open>base64\<close> crate refuses a character outside its alphabet.\<close>

lemma bad_token_test_passes:
  assumes "b64_laws C" "b64_decode C (lit ''!!!not-base64!!!'') = Inl e"
  shows "passes (test_from_token_rejects_bad_input C) w"
proof -
  have "strip_prefix PQDR_SCHEME (lit ''pqdr1:!!!not-base64!!!'') = Some (lit ''!!!not-base64!!!'')"
    "strip_prefix PQDR_SCHEME (lit ''nope:abc'') = None"
    "strip_prefix PQDR_SCHEME (PQDR_SCHEME @ x) = Some x" for x
    by (simp_all add: PQDR_SCHEME_def lit_def strip_prefix_def)
  moreover have "parse_frame (replicate 4 0) = Err (BadToken (lit ''truncated frame''))"
    by (simp add: parse_frame_def take_at_def)
  ultimately show ?thesis
    using assms(2) b64_roundtrip [OF assms(1)]
    by (simp add: test_from_token_rejects_bad_input_def wp_rules from_token_def)
qed

section \<open>Conversations\<close>

definition test_two_party_roundtrip_single_message :: "prims \<Rightarrow> bool \<Rightarrow> unit test" where
  "test_two_party_roundtrip_single_message P chk =
     test_then (effect (hybrid_keypair P)) (\<lambda>bob.
     let alice = DmSession_new (lit ''bob''); bob_s = DmSession_new (lit ''alice'') in
     test_then (unwrapped_mut (DmSession_seal P chk (blit ''hi bob'') (public_key bob) alice)) (\<lambda>(frame, alice).
     test_then (checks [(fr_epoch frame, fr_index frame) = (0, 0), fr_kam frame \<noteq> None]) (\<lambda>_.
     test_then (unwrapped_self (DmSession_open P frame (private_key bob) bob_s)) (\<lambda>(out, bob_s).
     checks [out = blit ''hi bob'']))))"

text \<open>The \<open>for\<close> loop, with the two sessions and the vector \<open>out\<close> it updates.\<close>

fun via_token :: "prims \<Rightarrow> bool \<Rightarrow> codecs \<Rightarrow> HybridKeyPair \<Rightarrow> bytes list \<Rightarrow>
    DmSession \<Rightarrow> DmSession \<Rightarrow> bytes list \<Rightarrow> bytes list test" where
  "via_token P chk C bob [] alice bob_s out = effect (\<lambda>w. (out, w))"
| "via_token P chk C bob (m # ms) alice bob_s out =
     test_then (unwrapped_mut (DmSession_seal P chk m (public_key bob) alice)) (\<lambda>(f, alice).
     let token = to_token C f in
     test_then (unwrap (from_token C token)) (\<lambda>frame.
     test_then (unwrapped_self (DmSession_open P frame (private_key bob) bob_s)) (\<lambda>(opened, bob_s).
     via_token P chk C bob ms alice bob_s (out @ [opened]))))"

definition test_multi_message_in_epoch_roundtrip_via_token :: "prims \<Rightarrow> bool \<Rightarrow> codecs \<Rightarrow> unit test" where
  "test_multi_message_in_epoch_roundtrip_via_token P chk C =
     test_then (effect (hybrid_keypair P)) (\<lambda>bob.
     let alice = DmSession_new (lit ''bob''); bob_s = DmSession_new (lit ''alice'') in
     test_then (via_token P chk C bob [blit ''a'', blit ''b'', blit ''c''] alice bob_s []) (\<lambda>out.
     checks [out = [blit ''a'', blit ''b'', blit ''c'']]))"

definition test_loss_and_reorder_tolerant_within_epoch :: "prims \<Rightarrow> bool \<Rightarrow> unit test" where
  "test_loss_and_reorder_tolerant_within_epoch P chk =
     test_then (effect (hybrid_keypair P)) (\<lambda>bob.
     let alice = DmSession_new (lit ''bob''); bob_s = DmSession_new (lit ''alice'') in
     test_then (unwrapped_mut (DmSession_seal P chk (blit ''first'') (public_key bob) alice)) (\<lambda>(f0, alice).
     test_then (unwrapped_mut (DmSession_seal P chk (blit ''second'') (public_key bob) alice)) (\<lambda>(f1, alice).
     test_then (unwrapped_mut (DmSession_seal P chk (blit ''third'') (public_key bob) alice)) (\<lambda>(f2, alice).
     test_then (unwrapped_self (DmSession_open P f0 (private_key bob) bob_s)) (\<lambda>(o0, bob_s).
     test_then (checks [o0 = blit ''first'']) (\<lambda>_.
     test_then (unwrapped_self (DmSession_open P f2 (private_key bob) bob_s)) (\<lambda>(o2, bob_s).
     checks [o2 = blit ''third''])))))))"

text \<open>The frames that a \<open>map\<close> of \<open>seal\<close> collects.\<close>

fun seal_each :: "prims \<Rightarrow> bool \<Rightarrow> bytes \<Rightarrow> bytes list \<Rightarrow> DmSession \<Rightarrow> (SealedDmFrame list \<times> DmSession) test" where
  "seal_each P chk pk [] alice = effect (\<lambda>w. (([], alice), w))"
| "seal_each P chk pk (m # ms) alice =
     test_then (unwrapped_mut (DmSession_seal P chk m pk alice)) (\<lambda>(f, alice).
     test_then (seal_each P chk pk ms alice) (\<lambda>(fs, alice).
     effect (\<lambda>w. ((f # fs, alice), w))))"

definition test_kam_repeated_on_first_frames_then_stops :: "prims \<Rightarrow> bool \<Rightarrow> unit test" where
  "test_kam_repeated_on_first_frames_then_stops P chk =
     test_then (effect (hybrid_keypair P)) (\<lambda>bob.
     let alice = DmSession_new (lit ''bob'') in
     test_then (seal_each P chk (public_key bob) (map (\<lambda>i. into_bytes (lit ''m'' @ dec i)) [0..<5]) alice) (\<lambda>(frames, alice).
     checks
       [list_all (\<lambda>frame. fr_kam frame \<noteq> None) (take (unat KAM_REPEAT) frames),
        unat KAM_REPEAT < length frames \<and> fr_kam (frames ! unat KAM_REPEAT) = None,
        map fr_index frames = [0, 1, 2, 3, 4]]))"

definition test_reordered_kam_frame_establishes_epoch :: "prims \<Rightarrow> bool \<Rightarrow> unit test" where
  "test_reordered_kam_frame_establishes_epoch P chk =
     test_then (effect (hybrid_keypair P)) (\<lambda>bob.
     let alice = DmSession_new (lit ''bob''); bob_s = DmSession_new (lit ''alice'') in
     test_then (unwrapped_mut (DmSession_seal P chk (blit ''first'') (public_key bob) alice)) (\<lambda>(f0, alice).
     test_then (unwrapped_mut (DmSession_seal P chk (blit ''second'') (public_key bob) alice)) (\<lambda>(f1, alice).
     test_then (checks [fr_kam f1 \<noteq> None]) (\<lambda>_.
     test_then (unwrapped_self (DmSession_open P f1 (private_key bob) bob_s)) (\<lambda>(out, bob_s).
     checks [out = blit ''second''])))))"

section \<open>They pass\<close>

text \<open>The new conversation of every test.\<close>

lemma talk_new:
  assumes "prims_laws P"
  shows "talk P chk (public_key (fst (hybrid_keypair P w))) (private_key (fst (hybrid_keypair P w)))
      w (snd (hybrid_keypair P w)) (DmSession_new b) (DmSession_new a) [] DEFAULT_REKEY_MSG_BOUND 0 0"
    and "talk P chk (public_key (fst (hybrid_keypair P w))) (private_key (fst (hybrid_keypair P w)))
      w (snd (hybrid_keypair P w)) (DmSession_with_bounds b bound DEFAULT_REKEY_AGE_SECONDS) (DmSession_new a) [] bound 0 0"
  unfolding DmSession_new_def by (rule talk_start [OF later_keypair])+

lemma slots_default [simp]:
  "i < 10 \<Longrightarrow> talk_slot DEFAULT_REKEY_MSG_BOUND e i = (e, i)"
  by (simp add: talk_slot_def DEFAULT_REKEY_MSG_BOUND_def less_trans [of i 10 50])

lemma bound_pos [simp]: "0 < DEFAULT_REKEY_MSG_BOUND" "(0 :: u64) < 2" "(0 :: u64) < 5"
  by (simp_all add: DEFAULT_REKEY_MSG_BOUND_def)

lemma two_party_test_passes:
  assumes "prims_laws P" "steady_clock w"
  shows "passes (test_two_party_roundtrip_single_message P chk) w"
proof -
  let ?bob = "fst (hybrid_keypair P w)" and ?w1 = "snd (hybrid_keypair P w)"
  let ?A = "DmSession_new (lit ''bob'')" and ?B = "DmSession_new (lit ''alice'')"
  note pair = generated_pair [OF assms(1), of w]
  obtain f A w2 where s: "DmSession_seal P chk (blit ''hi bob'') (public_key ?bob) ?A ?w1 = (Ok f, A, w2)"
    "fr_epoch f = 0" "fr_index f = 0" "fr_kam f \<noteq> None"
    and t: "talk P chk (public_key ?bob) (private_key ?bob) w w2 A ?B [(f, blit ''hi bob'')] DEFAULT_REKEY_MSG_BOUND 0 1"
    by (rule talk_seal [OF talk_new(1) [OF assms(1)] pair assms(2), of "blit ''hi bob''" 0 0]) simp_all
  obtain B where "DmSession_open P f (private_key ?bob) ?B = (Ok (blit ''hi bob''), B)"
    by (rule talk_open [OF t pair, of f "blit ''hi bob''"]) (simp_all add: s)
  then show ?thesis
    using s by (simp add: test_two_party_roundtrip_single_message_def wp_rules Let_def)
qed

lemma via_token_out:
  assumes "talk P chk (public_key bob) (private_key bob) w0 w A B sent DEFAULT_REKEY_MSG_BOUND 0 (of_nat i)"
    and "seal_pair P (public_key bob) (private_key bob)" "steady_clock w0" "b64_laws C"
    and "i + length ms < 10" "length sent + length ms < 100" "list_all (\<lambda>m. length m < 100) ms"
    and "i = 0 \<or> fmlookup (ds_epoch_secrets B) 0 \<noteq> None"
  shows "wp (via_token P chk C bob ms A B out) (\<lambda>r _. r = out @ ms) w"
  using assms(1,5-8)
proof (induction ms arbitrary: i w A B sent out)
  case Nil
  then show ?case by (simp add: wp_rules)
next
  case (Cons m ms)
  have i: "i < 10" using Cons.prems(2) by simp
  then have "(of_nat i :: u64) < 10" by (simp add: word_less_nat_alt unat_of_nat)
  then have slot: "talk_slot DEFAULT_REKEY_MSG_BOUND 0 (of_nat i) = (0, of_nat i)" by simp
  obtain f A' w' where s: "DmSession_seal P chk m (public_key bob) A w = (Ok f, A', w')"
    "fr_epoch f = 0" "fr_index f = of_nat i" "frame_fits f"
    and t: "talk P chk (public_key bob) (private_key bob) w0 w' A' B ((f, m) # sent) DEFAULT_REKEY_MSG_BOUND 0 (of_nat i + 1)"
    by (rule talk_seal [OF Cons.prems(1) assms(2,3) bound_pos(1) _ _ slot, of m]) (use Cons.prems in auto)
  obtain B' where o: "DmSession_open P f (private_key bob) B = (Ok m, B')"
    and t': "talk P chk (public_key bob) (private_key bob) w0 w' A' B' ((f, m) # sent) DEFAULT_REKEY_MSG_BOUND 0 (of_nat i + 1)"
    and known: "fmlookup (ds_epoch_secrets B') (fr_epoch f) \<noteq> None"
    by (rule talk_open [OF t assms(2), of f m]) (use Cons.prems(5) s in auto)
  have "wp (via_token P chk C bob ms A' B' (out @ [m])) (\<lambda>r _. r = (out @ [m]) @ ms) w'"
    by (rule Cons.IH [where i = "Suc i" and sent = "(f, m) # sent"]) (use t' Cons.prems known s in \<open>simp_all add: add.commute\<close>)
  then show ?case
    using s o token_roundtrip [OF assms(4) s(4)] by (simp add: wp_rules Let_def)
qed

lemma multi_message_test_passes:
  assumes "prims_laws P" "steady_clock w" "b64_laws C"
  shows "passes (test_multi_message_in_epoch_roundtrip_via_token P chk C) w"
proof -
  let ?bob = "fst (hybrid_keypair P w)" and ?w1 = "snd (hybrid_keypair P w)"
  have "wp (via_token P chk C ?bob [blit ''a'', blit ''b'', blit ''c''] (DmSession_new (lit ''bob''))
      (DmSession_new (lit ''alice'')) []) (\<lambda>r _. r = [] @ [blit ''a'', blit ''b'', blit ''c'']) ?w1"
    by (rule via_token_out [OF _ generated_pair [OF assms(1)] assms(2,3), where i = 0 and sent = "[]"])
       (use talk_new(1) [OF assms(1)] in simp_all)
  then show ?thesis
    by (simp add: test_multi_message_in_epoch_roundtrip_via_token_def wp_rules Let_def del: via_token.simps)
       (erule wp_mono, simp add: wp_rules)
qed

lemma loss_test_passes:
  assumes "prims_laws P" "steady_clock w"
  shows "passes (test_loss_and_reorder_tolerant_within_epoch P chk) w"
proof -
  let ?pk = "public_key (fst (hybrid_keypair P w))" and ?sk = "private_key (fst (hybrid_keypair P w))"
  let ?w1 = "snd (hybrid_keypair P w)" and ?B = "DmSession_new (lit ''alice'')"
  let ?f = "blit ''first''" and ?s = "blit ''second''" and ?t = "blit ''third''"
  note pair = generated_pair [OF assms(1), of w]
  obtain f0 A0 w2 where s0: "DmSession_seal P chk ?f ?pk (DmSession_new (lit ''bob'')) ?w1 = (Ok f0, A0, w2)"
    "fr_epoch f0 = 0" "fr_index f0 = 0"
    and t0: "talk P chk ?pk ?sk w w2 A0 ?B [(f0, ?f)] DEFAULT_REKEY_MSG_BOUND 0 1"
    by (rule talk_seal [OF talk_new(1) [OF assms(1)] pair assms(2), of ?f 0 0]) simp_all
  obtain f1 A1 w3 where s1: "DmSession_seal P chk ?s ?pk A0 w2 = (Ok f1, A1, w3)"
    and t1: "talk P chk ?pk ?sk w w3 A1 ?B [(f1, ?s), (f0, ?f)] DEFAULT_REKEY_MSG_BOUND 0 2"
    by (rule talk_seal [OF t0 pair assms(2), of ?s 0 1]) simp_all
  obtain f2 A2 w4 where s2: "DmSession_seal P chk ?t ?pk A1 w3 = (Ok f2, A2, w4)"
    "fr_epoch f2 = 0" "fr_index f2 = 2"
    and t2: "talk P chk ?pk ?sk w w4 A2 ?B [(f2, ?t), (f1, ?s), (f0, ?f)] DEFAULT_REKEY_MSG_BOUND 0 3"
    by (rule talk_seal [OF t1 pair assms(2), of ?t 0 2]) simp_all
  obtain B0 where o0: "DmSession_open P f0 ?sk ?B = (Ok ?f, B0)"
    and t3: "talk P chk ?pk ?sk w w4 A2 B0 [(f2, ?t), (f1, ?s), (f0, ?f)] DEFAULT_REKEY_MSG_BOUND 0 3"
    by (rule talk_open [OF t2 pair, of f0 ?f]) (simp_all add: s0)
  obtain B2 where o2: "DmSession_open P f2 ?sk B0 = (Ok ?t, B2)"
    by (rule talk_open [OF t3 pair, of f2 ?t]) (simp_all add: s2)
  show ?thesis
    by (simp add: test_loss_and_reorder_tolerant_within_epoch_def wp_rules Let_def s0(1) s1 s2(1) o0 o2)
qed

lemma reordered_kam_test_passes:
  assumes "prims_laws P" "steady_clock w"
  shows "passes (test_reordered_kam_frame_establishes_epoch P chk) w"
proof -
  let ?pk = "public_key (fst (hybrid_keypair P w))" and ?sk = "private_key (fst (hybrid_keypair P w))"
  let ?w1 = "snd (hybrid_keypair P w)" and ?B = "DmSession_new (lit ''alice'')"
  let ?f = "blit ''first''" and ?s = "blit ''second''"
  note pair = generated_pair [OF assms(1), of w]
  obtain f0 A0 w2 where s0: "DmSession_seal P chk ?f ?pk (DmSession_new (lit ''bob'')) ?w1 = (Ok f0, A0, w2)"
    and t0: "talk P chk ?pk ?sk w w2 A0 ?B [(f0, ?f)] DEFAULT_REKEY_MSG_BOUND 0 1"
    by (rule talk_seal [OF talk_new(1) [OF assms(1)] pair assms(2), of ?f 0 0]) simp_all
  obtain f1 A1 w3 where s1: "DmSession_seal P chk ?s ?pk A0 w2 = (Ok f1, A1, w3)"
    "fr_index f1 = 1" "fr_kam f1 \<noteq> None"
    and t1: "talk P chk ?pk ?sk w w3 A1 ?B [(f1, ?s), (f0, ?f)] DEFAULT_REKEY_MSG_BOUND 0 2"
    by (rule talk_seal [OF t0 pair assms(2), of ?s 0 1]) simp_all
  obtain B1 where "DmSession_open P f1 ?sk ?B = (Ok ?s, B1)"
    by (rule talk_open [OF t1 pair, of f1 ?s]) (simp_all add: s1)
  then show ?thesis
    using s1 by (simp add: test_reordered_kam_frame_establishes_epoch_def wp_rules Let_def s0)
qed

lemma seal_each_frames:
  assumes "talk P chk pk sk w0 w A B sent DEFAULT_REKEY_MSG_BOUND 0 (of_nat i)"
    and "seal_pair P pk sk" "steady_clock w0"
    and "i + length ms < 10" "length sent + length ms < 100" "list_all (\<lambda>m. length m < 100) ms"
  shows "wp (seal_each P chk pk ms A)
    (\<lambda>(fs, A') _. map fr_index fs = map of_nat [i..<i + length ms] \<and>
       list_all (\<lambda>f. fr_kam f \<noteq> None \<longleftrightarrow> fr_index f < 3) fs) w"
  using assms(1,4-6)
proof (induction ms arbitrary: i w A sent)
  case Nil
  then show ?case by (simp add: wp_rules)
next
  case (Cons m ms)
  have "(of_nat i :: u64) < 10" using Cons.prems(2) by (simp add: word_less_nat_alt unat_of_nat)
  then have slot: "talk_slot DEFAULT_REKEY_MSG_BOUND 0 (of_nat i) = (0, of_nat i)" by simp
  obtain f A' w' where s: "DmSession_seal P chk m pk A w = (Ok f, A', w')"
    "fr_index f = of_nat i" "fr_kam f \<noteq> None \<longleftrightarrow> (of_nat i :: u64) < 3"
    and t: "talk P chk pk sk w0 w' A' B ((f, m) # sent) DEFAULT_REKEY_MSG_BOUND 0 (of_nat i + 1)"
    by (rule talk_seal [OF Cons.prems(1) assms(2,3) bound_pos(1) _ _ slot, of m]) (use Cons.prems in auto)
  have "wp (seal_each P chk pk ms A')
    (\<lambda>(fs, A') _. map fr_index fs = map of_nat [Suc i..<Suc i + length ms] \<and>
       list_all (\<lambda>f. fr_kam f \<noteq> None \<longleftrightarrow> fr_index f < 3) fs) w'"
    by (rule Cons.IH [where i = "Suc i" and sent = "(f, m) # sent"])
       (use t Cons.prems in \<open>simp_all add: add.commute\<close>)
  moreover have "[i..<i + length (m # ms)] = i # [Suc i..<Suc i + length ms]" by (simp add: upt_conv_Cons del: upt_Suc)
  ultimately show ?case
    using s by (auto simp: wp_rules simp del: upt_Suc elim!: wp_mono)
qed

lemma kam_repeat_test_passes:
  assumes "prims_laws P" "steady_clock w"
  shows "passes (test_kam_repeated_on_first_frames_then_stops P chk) w"
proof -
  let ?pk = "public_key (fst (hybrid_keypair P w))" and ?w1 = "snd (hybrid_keypair P w)"
  let ?ms = "map (\<lambda>i. into_bytes (lit ''m'' @ dec i)) [0..<5]"
  have m: "list_all (\<lambda>m. length m < 100) ?ms"
    by (simp add: upt_rec into_bytes_def utf8_char_def lit_def dec.simps)
  have "wp (seal_each P chk ?pk ?ms (DmSession_new (lit ''bob'')))
    (\<lambda>(fs, A') _. map fr_index fs = map of_nat [0..<0 + length ?ms] \<and>
       list_all (\<lambda>f. fr_kam f \<noteq> None \<longleftrightarrow> fr_index f < 3) fs) ?w1"
    by (rule seal_each_frames [OF _ generated_pair [OF assms(1)] assms(2) _ _ m, where sent = "[]"])
       (use talk_new(1) [OF assms(1)] in simp_all)
  then have "wp (seal_each P chk ?pk ?ms (DmSession_new (lit ''bob'')))
    (\<lambda>(fs, A') _. list_all (\<lambda>f. fr_kam f \<noteq> None) (take 3 fs) \<and> 3 < length fs \<and> fr_kam (fs ! 3) = None \<and>
       map fr_index fs = [0, 1, 2, 3, 4]) ?w1"
    by (rule wp_mono) (auto simp: upt_rec map_eq_Cons_conv)
  then show ?thesis
    by (simp add: test_kam_repeated_on_first_frames_then_stops_def wp_rules Let_def
        del: upt.simps upt_Suc upt_rec_numeral)
       (erule wp_mono, simp add: wp_rules KAM_REPEAT_def case_prod_unfold)
qed

section \<open>Re-keying, refusals and snapshots\<close>

definition test_auto_rekey_starts_new_epoch_with_pcs :: "prims \<Rightarrow> bool \<Rightarrow> unit test" where
  "test_auto_rekey_starts_new_epoch_with_pcs P chk =
     test_then (effect (hybrid_keypair P)) (\<lambda>bob.
     let alice = DmSession_with_bounds (lit ''bob'') 2 DEFAULT_REKEY_AGE_SECONDS;
         bob_s = DmSession_new (lit ''alice'') in
     test_then (unwrapped_mut (DmSession_seal P chk (blit ''e0m0'') (public_key bob) alice)) (\<lambda>(f0, alice).
     test_then (unwrapped_mut (DmSession_seal P chk (blit ''e0m1'') (public_key bob) alice)) (\<lambda>(f1, alice).
     test_then (unwrapped_mut (DmSession_seal P chk (blit ''e1m0'') (public_key bob) alice)) (\<lambda>(f2, alice).
     test_then (checks [(fr_epoch f0, fr_epoch f1) = (0, 0), fr_epoch f2 = 1, fr_kam f2 \<noteq> None]) (\<lambda>_.
     test_then (unwrapped_self (DmSession_open P f0 (private_key bob) bob_s)) (\<lambda>(o0, bob_s).
     test_then (checks [o0 = blit ''e0m0'']) (\<lambda>_.
     test_then (unwrapped_self (DmSession_open P f2 (private_key bob) bob_s)) (\<lambda>(o2, bob_s).
     test_then (checks [o2 = blit ''e1m0'']) (\<lambda>_.
     test_then (unwrap (ok_or () (epoch_secret_for_test alice 0))) (\<lambda>sec0.
     test_then (unwrap (ok_or () (epoch_secret_for_test alice 1))) (\<lambda>sec1.
     checks [sec0 \<noteq> sec1])))))))))))"

definition test_open_rejects_tampered_body :: "prims \<Rightarrow> bool \<Rightarrow> unit test" where
  "test_open_rejects_tampered_body P chk =
     test_then (effect (hybrid_keypair P)) (\<lambda>bob.
     let alice = DmSession_new (lit ''bob''); bob_s = DmSession_new (lit ''alice'') in
     test_then (unwrapped_mut (DmSession_seal P chk (blit ''authentic'') (public_key bob) alice)) (\<lambda>(frame, alice).
     checks [fst (DmSession_open P (frame\<lparr>fr_body := flip_last (fr_body frame)\<rparr>) (private_key bob) bob_s) =
       Err OpenFailed]))"

definition test_open_without_kam_for_unknown_epoch_errors :: "prims \<Rightarrow> bool \<Rightarrow> unit test" where
  "test_open_without_kam_for_unknown_epoch_errors P chk =
     test_then (effect (hybrid_keypair P)) (\<lambda>bob.
     let alice = DmSession_new (lit ''bob''); bob_s = DmSession_new (lit ''alice'') in
     test_then (unwrapped_mut (DmSession_seal P chk (blit ''x0'') (public_key bob) alice)) (\<lambda>(_, alice).
     test_then (unwrapped_mut (DmSession_seal P chk (blit ''x1'') (public_key bob) alice)) (\<lambda>(_, alice).
     test_then (unwrapped_mut (DmSession_seal P chk (blit ''x2'') (public_key bob) alice)) (\<lambda>(_, alice).
     test_then (unwrapped_mut (DmSession_seal P chk (blit ''x3'') (public_key bob) alice)) (\<lambda>(last, alice).
     checks [fr_kam last = None,
       fst (DmSession_open P last (private_key bob) bob_s) = Err (MissingEpochSecret 0)])))))"

definition test_snapshot_restore_preserves_state :: "prims \<Rightarrow> bool \<Rightarrow> codecs \<Rightarrow> unit test" where
  "test_snapshot_restore_preserves_state P chk C =
     test_then (effect (hybrid_keypair P)) (\<lambda>bob.
     let alice = DmSession_with_bounds (lit ''bob'') 5 DEFAULT_REKEY_AGE_SECONDS in
     test_then (unwrapped_mut (DmSession_seal P chk (blit ''one'') (public_key bob) alice)) (\<lambda>(_, alice).
     test_then (unwrapped_mut (DmSession_seal P chk (blit ''two'') (public_key bob) alice)) (\<lambda>(_, alice).
     let snap = DmSession_snapshot C alice in
     test_then (unwrap (DmSession_restore C snap)) (\<lambda>restored.
     test_then (checks
       [ds_peer restored = lit ''bob'', ds_rekey_msg_bound restored = 5,
        epoch_secret_for_test restored 0 = epoch_secret_for_test alice 0]) (\<lambda>_.
     test_then (unwrapped_mut (DmSession_seal P chk (blit ''three'') (public_key bob) restored)) (\<lambda>(frame, restored).
     test_then (checks [(fr_epoch frame, fr_index frame) = (0, 2)]) (\<lambda>_.
     let bob_s = DmSession_new (lit ''alice'') in
     test_then (unwrapped_self (DmSession_open P frame (private_key bob) bob_s)) (\<lambda>(out, bob_s).
     checks [out = blit ''three'']))))))))"

lemma slots_small [simp]:
  "talk_slot 2 0 0 = (0, 0)" "talk_slot 2 0 1 = (0, 1)" "talk_slot 2 0 2 = (1, 0)"
  "talk_slot 5 0 0 = (0, 0)" "talk_slot 5 0 1 = (0, 1)" "talk_slot 5 0 2 = (0, 2)"
  by (simp_all add: talk_slot_def)

lemma tampered_body_test_passes:
  assumes "prims_laws P" "steady_clock w" "gcm_tag_law P"
  shows "passes (test_open_rejects_tampered_body P chk) w"
proof -
  let ?pk = "public_key (fst (hybrid_keypair P w))" and ?sk = "private_key (fst (hybrid_keypair P w))"
  let ?w1 = "snd (hybrid_keypair P w)" and ?B = "DmSession_new (lit ''alice'')"
  let ?m = "blit ''authentic''"
  note pair = generated_pair [OF assms(1), of w]
  obtain f A w2 where s: "DmSession_seal P chk ?m ?pk (DmSession_new (lit ''bob'')) ?w1 = (Ok f, A, w2)"
    "fr_index f = 0" "16 \<le> length (fr_body f)"
    and t: "talk P chk ?pk ?sk w w2 A ?B [(f, ?m)] DEFAULT_REKEY_MSG_BOUND 0 1"
    by (rule talk_seal [OF talk_new(1) [OF assms(1)] pair assms(2), of ?m 0 0]) simp_all
  have "fst (DmSession_open P (f\<lparr>fr_body := flip_last (fr_body f)\<rparr>) ?sk ?B) = Err OpenFailed"
    by (rule net_changed_tag [OF talk_inv(1,3) [OF t pair] assms(3) _ flip_last_changes [OF s(3)], of ?m])
       (simp_all add: s(2))
  then show ?thesis by (simp add: test_open_rejects_tampered_body_def wp_rules Let_def s(1))
qed

lemma no_kam_test_passes:
  assumes "prims_laws P" "steady_clock w"
  shows "passes (test_open_without_kam_for_unknown_epoch_errors P chk) w"
proof -
  let ?pk = "public_key (fst (hybrid_keypair P w))" and ?sk = "private_key (fst (hybrid_keypair P w))"
  let ?w1 = "snd (hybrid_keypair P w)" and ?B = "DmSession_new (lit ''alice'')"
  let ?m0 = "blit ''x0''" and ?m1 = "blit ''x1''" and ?m2 = "blit ''x2''" and ?m3 = "blit ''x3''"
  note pair = generated_pair [OF assms(1), of w]
  obtain f0 A0 w2 where s0: "DmSession_seal P chk ?m0 ?pk (DmSession_new (lit ''bob'')) ?w1 = (Ok f0, A0, w2)"
    and t0: "talk P chk ?pk ?sk w w2 A0 ?B [(f0, ?m0)] DEFAULT_REKEY_MSG_BOUND 0 1"
    by (rule talk_seal [OF talk_new(1) [OF assms(1)] pair assms(2), of ?m0 0 0]) simp_all
  obtain f1 A1 w3 where s1: "DmSession_seal P chk ?m1 ?pk A0 w2 = (Ok f1, A1, w3)"
    and t1: "talk P chk ?pk ?sk w w3 A1 ?B [(f1, ?m1), (f0, ?m0)] DEFAULT_REKEY_MSG_BOUND 0 2"
    by (rule talk_seal [OF t0 pair assms(2), of ?m1 0 1]) simp_all
  obtain f2 A2 w4 where s2: "DmSession_seal P chk ?m2 ?pk A1 w3 = (Ok f2, A2, w4)"
    and t2: "talk P chk ?pk ?sk w w4 A2 ?B [(f2, ?m2), (f1, ?m1), (f0, ?m0)] DEFAULT_REKEY_MSG_BOUND 0 3"
    by (rule talk_seal [OF t1 pair assms(2), of ?m2 0 2]) simp_all
  obtain f3 A3 w5 where s3: "DmSession_seal P chk ?m3 ?pk A2 w4 = (Ok f3, A3, w5)"
    "fr_epoch f3 = 0" "fr_index f3 = 3" "fr_kam f3 = None"
    and t3: "talk P chk ?pk ?sk w w5 A3 ?B [(f3, ?m3), (f2, ?m2), (f1, ?m1), (f0, ?m0)] DEFAULT_REKEY_MSG_BOUND 0 4"
    by (rule talk_seal [OF t2 pair assms(2), of ?m3 0 3]) simp_all
  have "DmSession_open P f3 ?sk ?B = (Err (MissingEpochSecret 0), ?B)"
    using net_open [OF talk_inv(1,3,4) [OF t3 pair], of f3 ?m3] s3
    by (simp add: DmSession_new_def DmSession_with_bounds_def)
  then show ?thesis
    by (simp add: test_open_without_kam_for_unknown_epoch_errors_def wp_rules Let_def s0 s1 s2 s3)
qed

lemma talk_restores:
  assumes "talk P chk pk sk w0 w A B sent bound e i" "seal_pair P pk sk" "hex_laws C"
  shows "DmSession_restore C (DmSession_snapshot C A) = Ok A"
proof (rule restore_snapshot_state [OF assms(3)])
  show "session_wf A" using talk_inv(2) [OF assms(1,2)] by (simp add: run_inv_def)
  show "f64_finite (dr_epoch_started_at r)" if "ds_ratchet A = Some r" for r
  proof -
    have "dr_epoch_started_at r \<in> reading ` sset (clock w0)" using assms(1) that by (simp add: talk_def)
    moreover have "f64_finite (reading x)" for x by (cases x rule: reading.cases) (simp_all add: as_secs_f64_finite)
    ultimately show ?thesis by auto
  qed
qed

lemma snapshot_test_passes:
  assumes "prims_laws P" "steady_clock w" "hex_laws C"
  shows "passes (test_snapshot_restore_preserves_state P chk C) w"
proof -
  let ?pk = "public_key (fst (hybrid_keypair P w))" and ?sk = "private_key (fst (hybrid_keypair P w))"
  let ?w1 = "snd (hybrid_keypair P w)" and ?B = "DmSession_new (lit ''alice'')"
  let ?A = "DmSession_with_bounds (lit ''bob'') 5 DEFAULT_REKEY_AGE_SECONDS"
  let ?m0 = "blit ''one''" and ?m1 = "blit ''two''" and ?m2 = "blit ''three''"
  note pair = generated_pair [OF assms(1), of w]
  obtain f0 A0 w2 where s0: "DmSession_seal P chk ?m0 ?pk ?A ?w1 = (Ok f0, A0, w2)"
    and t0: "talk P chk ?pk ?sk w w2 A0 ?B [(f0, ?m0)] 5 0 1"
    by (rule talk_seal [OF talk_new(2) [OF assms(1)] pair assms(2), of 5 ?m0 0 0]) simp_all
  obtain f1 A1 w3 where s1: "DmSession_seal P chk ?m1 ?pk A0 w2 = (Ok f1, A1, w3)"
    and t1: "talk P chk ?pk ?sk w w3 A1 ?B [(f1, ?m1), (f0, ?m0)] 5 0 2"
    by (rule talk_seal [OF t0 pair assms(2), of ?m1 0 1]) simp_all
  obtain f2 A2 w4 where s2: "DmSession_seal P chk ?m2 ?pk A1 w3 = (Ok f2, A2, w4)"
    "fr_epoch f2 = 0" "fr_index f2 = 2"
    and t2: "talk P chk ?pk ?sk w w4 A2 ?B [(f2, ?m2), (f1, ?m1), (f0, ?m0)] 5 0 3"
    by (rule talk_seal [OF t1 pair assms(2), of ?m2 0 2]) simp_all
  obtain B where o: "DmSession_open P f2 ?sk ?B = (Ok ?m2, B)"
    by (rule talk_open [OF t2 pair, of f2 ?m2]) (simp_all add: s2)
  have kept: "ds_peer A1 = lit ''bob''" "ds_rekey_msg_bound A1 = 5"
    using seal_keeps [OF s0] seal_keeps [OF s1] by (simp_all add: keeps_def DmSession_with_bounds_def)
  show ?thesis
    by (simp add: test_snapshot_restore_preserves_state_def wp_rules Let_def s0 s1 s2 o kept
        talk_restores [OF t1 pair assms(3)])
qed

text \<open>
  That the secrets of two epochs differ is a statement about the entropy the test drew. These are
  the secrets that its sender holds after the three seals.
\<close>

definition auto_rekey_secrets :: "prims \<Rightarrow> bool \<Rightarrow> world \<Rightarrow> bytes option \<times> bytes option" where
  "auto_rekey_secrets P chk w =
     (let (bob, w1) = hybrid_keypair P w; alice = DmSession_with_bounds (lit ''bob'') 2 DEFAULT_REKEY_AGE_SECONDS;
          (r0, A0, w2) = DmSession_seal P chk (blit ''e0m0'') (public_key bob) alice w1;
          (r1, A1, w3) = DmSession_seal P chk (blit ''e0m1'') (public_key bob) A0 w2;
          (r2, A2, w4) = DmSession_seal P chk (blit ''e1m0'') (public_key bob) A1 w3
      in (epoch_secret_for_test A2 0, epoch_secret_for_test A2 1))"

lemma auto_rekey_test:
  assumes "prims_laws P" "steady_clock w"
  shows "\<exists>s0 s1. auto_rekey_secrets P chk w = (Some s0, Some s1) \<and>
    (passes (test_auto_rekey_starts_new_epoch_with_pcs P chk) w \<longleftrightarrow> s0 \<noteq> s1)"
proof -
  let ?pk = "public_key (fst (hybrid_keypair P w))" and ?sk = "private_key (fst (hybrid_keypair P w))"
  let ?w1 = "snd (hybrid_keypair P w)" and ?B = "DmSession_new (lit ''alice'')"
  let ?A = "DmSession_with_bounds (lit ''bob'') 2 DEFAULT_REKEY_AGE_SECONDS"
  let ?m0 = "blit ''e0m0''" and ?m1 = "blit ''e0m1''" and ?m2 = "blit ''e1m0''"
  note pair = generated_pair [OF assms(1), of w]
  obtain f0 A0 w2 where s0: "DmSession_seal P chk ?m0 ?pk ?A ?w1 = (Ok f0, A0, w2)" "fr_epoch f0 = 0" "fr_index f0 = 0"
    and t0: "talk P chk ?pk ?sk w w2 A0 ?B [(f0, ?m0)] 2 0 1"
    by (rule talk_seal [OF talk_new(2) [OF assms(1)] pair assms(2), of 2 ?m0 0 0]) simp_all
  obtain f1 A1 w3 where s1: "DmSession_seal P chk ?m1 ?pk A0 w2 = (Ok f1, A1, w3)" "fr_epoch f1 = 0"
    and t1: "talk P chk ?pk ?sk w w3 A1 ?B [(f1, ?m1), (f0, ?m0)] 2 0 2"
    by (rule talk_seal [OF t0 pair assms(2), of ?m1 0 1]) simp_all
  obtain f2 A2 w4 where s2: "DmSession_seal P chk ?m2 ?pk A1 w3 = (Ok f2, A2, w4)"
    "fr_epoch f2 = 1" "fr_index f2 = 0" "fr_kam f2 \<noteq> None"
    and t2: "talk P chk ?pk ?sk w w4 A2 ?B [(f2, ?m2), (f1, ?m1), (f0, ?m0)] 2 1 1"
    by (rule talk_seal [OF t1 pair assms(2), of ?m2 1 0]) simp_all
  obtain B0 where o0: "DmSession_open P f0 ?sk ?B = (Ok ?m0, B0)"
    and t3: "talk P chk ?pk ?sk w w4 A2 B0 [(f2, ?m2), (f1, ?m1), (f0, ?m0)] 2 1 1"
    by (rule talk_open [OF t2 pair, of f0 ?m0]) (simp_all add: s0)
  obtain B2 where o2: "DmSession_open P f2 ?sk B0 = (Ok ?m2, B2)"
    by (rule talk_open [OF t3 pair, of f2 ?m2]) (simp_all add: s2)
  obtain e0 e1 where "fmlookup (ds_epoch_secrets A2) 0 = Some e0" "fmlookup (ds_epoch_secrets A2) 1 = Some e1"
    using talk_inv(1) [OF t2 pair] s0 s2 by (auto simp: net_inv_def)
  then show ?thesis
    using s0 s1 s2
    by (simp add: test_auto_rekey_starts_new_epoch_with_pcs_def auto_rekey_secrets_def wp_rules Let_def o0 o2
        case_prod_unfold epoch_secret_for_test_def)
qed

end
