(* ===== verification/Integration_Tests.thy ===== *)
theory Integration_Tests
  imports Keys_Tests
begin

text \<open>
  The crate's integration tests, \<open>tests/integration.rs\<close>. What the tests ask of HKDF (that two
  keys differ, that a key has a given value) is left as the condition under which they pass.
\<close>

section \<open>Hybrid KEM\<close>

definition test_kem_wire_lengths_match_python :: "prims \<Rightarrow> unit test" where
  "test_kem_wire_lengths_match_python P =
     test_then (effect (hybrid_keypair P)) (\<lambda>kp.
     checks [length (public_key kp) = PUBLIC_KEY_LEN, length (private_key kp) = PRIVATE_KEY_LEN,
       PUBLIC_KEY_LEN = 1216, PRIVATE_KEY_LEN = 2432, CIPHERTEXT_LEN = 1120])"

definition test_kem_encap_decap_roundtrip_equal_secrets :: "prims \<Rightarrow> unit test" where
  "test_kem_encap_decap_roundtrip_equal_secrets P =
     test_then (effect (hybrid_keypair P)) (\<lambda>kp.
     test_then (unwrapped (hybrid_encap P (public_key kp))) (\<lambda>(ct, ss_enc).
     test_then (checks [length ct = CIPHERTEXT_LEN, length ss_enc = SHARED_SECRET_LEN]) (\<lambda>_.
     test_then (unwrap (hybrid_decap P ct (private_key kp))) (\<lambda>ss_dec.
     checks [ss_enc = ss_dec]))))"

definition test_kem_distinct_keypairs_distinct_secrets :: "prims \<Rightarrow> unit test" where
  "test_kem_distinct_keypairs_distinct_secrets P =
     test_then (effect (hybrid_keypair P)) (\<lambda>a.
     test_then (effect (hybrid_keypair P)) (\<lambda>b.
     test_then (unwrapped (hybrid_encap P (public_key a))) (\<lambda>(ct_a, ss_a).
     test_then (unwrapped (hybrid_encap P (public_key b))) (\<lambda>(ct_b, ss_b).
     checks [ss_a \<noteq> ss_b]))))"

definition test_kem_rejects_wrong_length_public_key :: "prims \<Rightarrow> unit test" where
  "test_kem_rejects_wrong_length_public_key P =
     (let bad = replicate (PUBLIC_KEY_LEN - 1) 0 in
      test_then (effect (hybrid_encap P bad)) (\<lambda>r. checks [is_err r]))"

definition test_kem_rejects_wrong_length_ciphertext :: "prims \<Rightarrow> unit test" where
  "test_kem_rejects_wrong_length_ciphertext P =
     test_then (effect (hybrid_keypair P)) (\<lambda>kp.
     let bad = replicate (CIPHERTEXT_LEN - 1) 0 in
     checks [is_err (hybrid_decap P bad (private_key kp))])"

section \<open>DM ratchet key schedule\<close>

definition ES :: bytes where "ES = map of_nat [0..<32]"

definition test_ratchet_derive_is_deterministic :: "prims \<Rightarrow> unit test" where
  "test_ratchet_derive_is_deterministic P =
     test_then (unwrap (derive_dm_message_key P ES 7 3)) (\<lambda>k1.
     test_then (unwrap (derive_dm_message_key P ES 7 3)) (\<lambda>k2.
     checks [k1 = k2, length k1 = 32]))"

definition test_ratchet_derive_index_distinct :: "prims \<Rightarrow> unit test" where
  "test_ratchet_derive_index_distinct P =
     test_then (unwrap (derive_dm_message_key P ES 7 3)) (\<lambda>k3.
     test_then (unwrap (derive_dm_message_key P ES 7 4)) (\<lambda>k4.
     checks [k3 \<noteq> k4]))"

definition test_ratchet_derive_epoch_distinct :: "prims \<Rightarrow> unit test" where
  "test_ratchet_derive_epoch_distinct P =
     test_then (unwrap (derive_dm_message_key P ES 0 0)) (\<lambda>a.
     test_then (unwrap (derive_dm_message_key P ES 1 0)) (\<lambda>b.
     checks [a \<noteq> b]))"

definition test_ratchet_rejects_wrong_length_secret :: "prims \<Rightarrow> unit test" where
  "test_ratchet_rejects_wrong_length_secret P =
     (let bad = replicate 31 0 in checks [is_err (derive_dm_message_key P bad 0 0)])"

definition python_cases :: "(u64 \<times> u64 \<times> rstr) list" where
  "python_cases =
     [(7, 3, lit ''abca41b038c1565004c201741f896ae0c122fd8f6716ba4b85c850e5d163e6bc''),
      (7, 4, lit ''ee18766d0fb4c31b03bb544a300232008fee43197d177d584bbed77ebd497834''),
      (0, 0, lit ''976feb338842bce61bde060cc8559d66472e1c1c9edcfba3ae70cabb39e3f39a''),
      (1, 0, lit ''5cf5ac603c0e9dd2165bf583930e5a2b5549e3b98fd1057de3fead1184610422'')]"

definition test_ratchet_parity_with_python :: "prims \<Rightarrow> codecs \<Rightarrow> unit test" where
  "test_ratchet_parity_with_python P C =
     for_each (\<lambda>(epoch, index, expected_hex).
       test_then (unwrap (derive_dm_message_key P ES epoch index)) (\<lambda>got.
       checks [hex_encode C got = expected_hex])) python_cases"

section \<open>The re-key decision\<close>

definition test_rekey_triggers_on_message_bound :: "unit test" where
  "test_rekey_triggers_on_message_bound = checks
     [\<not> should_rekey (DEFAULT_REKEY_MSG_BOUND - 1) (Fin 0) (Fin 0) DEFAULT_REKEY_MSG_BOUND DEFAULT_REKEY_AGE_SECONDS,
      should_rekey DEFAULT_REKEY_MSG_BOUND (Fin 0) (Fin 0) DEFAULT_REKEY_MSG_BOUND DEFAULT_REKEY_AGE_SECONDS,
      should_rekey (DEFAULT_REKEY_MSG_BOUND + 5) (Fin 0) (Fin 0) DEFAULT_REKEY_MSG_BOUND DEFAULT_REKEY_AGE_SECONDS]"

definition test_rekey_triggers_on_age_bound :: "unit test" where
  "test_rekey_triggers_on_age_bound =
     (let age = f64_of_nat (unat DEFAULT_REKEY_AGE_SECONDS) in checks
        [\<not> should_rekey 0 (Fin 0) (f64_sub age (Fin 1)) DEFAULT_REKEY_MSG_BOUND DEFAULT_REKEY_AGE_SECONDS,
         should_rekey 0 (Fin 0) age DEFAULT_REKEY_MSG_BOUND DEFAULT_REKEY_AGE_SECONDS])"

section \<open>They pass\<close>

lemma ES_length [simp]: "length ES = 32"
  by (simp add: ES_def)

lemma kem_length_tests_pass:
  "passes (test_kem_rejects_wrong_length_public_key P) w" "passes (test_kem_rejects_wrong_length_ciphertext P) w"
  by (simp_all add: test_kem_rejects_wrong_length_public_key_def test_kem_rejects_wrong_length_ciphertext_def
      wp_rules Let_def hybrid_encap_def hybrid_decap_def expect_len_def)

lemma kem_trip_tests_pass:
  assumes "prims_laws P"
  shows "passes (test_kem_wire_lengths_match_python P) w"
    and "passes (test_kem_encap_decap_roundtrip_equal_secrets P) w"
proof -
  let ?kp = "fst (hybrid_keypair P w)" and ?w1 = "snd (hybrid_keypair P w)"
  note pair = generated_pair [OF assms, of w]
  show "passes (test_kem_wire_lengths_match_python P) w"
    using dm_wrap.keys_sizes [OF pair] by (simp add: test_kem_wire_lengths_match_python_def wp_rules)
  obtain ct ss w2 where e: "hybrid_encap P (public_key ?kp) ?w1 = (Ok (ct, ss), w2)"
    using dm_wrap.encap_total [OF pair] by blast
  show "passes (test_kem_encap_decap_roundtrip_equal_secrets P) w"
    using dm_wrap.encap_sizes [OF pair e] dm_wrap.encap_decap [OF pair e]
    by (simp add: test_kem_encap_decap_roundtrip_equal_secrets_def wp_rules e)
qed

lemma ratchet_derive_tests_pass:
  "passes (test_ratchet_rejects_wrong_length_secret P) w"
  "kdf_sizes P \<Longrightarrow> passes (test_ratchet_derive_is_deterministic P) w"
  by (simp_all add: test_ratchet_rejects_wrong_length_secret_def test_ratchet_derive_is_deterministic_def
      wp_rules derive_dm_message_key_def Let_def)

text \<open>The remaining tests of the key schedule are statements about HKDF.\<close>

lemma more_literals: "u64_be 1 = [0, 0, 0, 0, 0, 0, 0, 1]" "u64_be 4 = [0, 0, 0, 0, 0, 0, 0, 4]"
  by (simp_all add: u64_be_def be_bytes_numeral)

lemma ratchet_distinct_tests:
  "passes (test_ratchet_derive_index_distinct P) w \<longleftrightarrow>
     hkdf_sha256 P (blit ''skchat/dm-epoch/'' @ [0, 0, 0, 0, 0, 0, 0, 7]) ES
       (blit ''skchat/dm-ratchet/msg/v1/'' @ [0, 0, 0, 0, 0, 0, 0, 3]) \<noteq>
     hkdf_sha256 P (blit ''skchat/dm-epoch/'' @ [0, 0, 0, 0, 0, 0, 0, 7]) ES
       (blit ''skchat/dm-ratchet/msg/v1/'' @ [0, 0, 0, 0, 0, 0, 0, 4])"
  "passes (test_ratchet_derive_epoch_distinct P) w \<longleftrightarrow>
     hkdf_sha256 P (blit ''skchat/dm-epoch/'' @ [0, 0, 0, 0, 0, 0, 0, 0]) ES
       (blit ''skchat/dm-ratchet/msg/v1/'' @ [0, 0, 0, 0, 0, 0, 0, 0]) \<noteq>
     hkdf_sha256 P (blit ''skchat/dm-epoch/'' @ [0, 0, 0, 0, 0, 0, 0, 1]) ES
       (blit ''skchat/dm-ratchet/msg/v1/'' @ [0, 0, 0, 0, 0, 0, 0, 0])"
  by (simp_all add: test_ratchet_derive_index_distinct_def test_ratchet_derive_epoch_distinct_def wp_rules
      derive_dm_message_key_def EPOCH_SALT_PREFIX_def MSG_INFO_PREFIX_def be_literals more_literals Let_def)

lemma python_parity_test:
  "passes (test_ratchet_parity_with_python P C) w \<longleftrightarrow>
     list_all (\<lambda>(epoch, index, expected). hex_encode C (hkdf_sha256 P (blit ''skchat/dm-epoch/'' @ u64_be epoch) ES
        (blit ''skchat/dm-ratchet/msg/v1/'' @ u64_be index)) = expected) python_cases"
  by (simp add: test_ratchet_parity_with_python_def python_cases_def wp_rules
      derive_dm_message_key_def EPOCH_SALT_PREFIX_def MSG_INFO_PREFIX_def Let_def)

lemma kem_distinct_test:
  assumes "prims_laws P"
  shows "let (a, w1) = hybrid_keypair P w; (b, w2) = hybrid_keypair P w1;
      (ra, w3) = hybrid_encap P (public_key a) w2; (rb, w4) = hybrid_encap P (public_key b) w3
    in \<exists>ca sa cb sb. ra = Ok (ca, sa) \<and> rb = Ok (cb, sb) \<and>
      (passes (test_kem_distinct_keypairs_distinct_secrets P) w \<longleftrightarrow> sa \<noteq> sb)"
proof -
  let ?a = "fst (hybrid_keypair P w)" and ?w1 = "snd (hybrid_keypair P w)"
  let ?b = "fst (hybrid_keypair P ?w1)" and ?w2 = "snd (hybrid_keypair P ?w1)"
  obtain ca sa w3 where a: "hybrid_encap P (public_key ?a) ?w2 = (Ok (ca, sa), w3)"
    using dm_wrap.encap_total [OF generated_pair [OF assms, of w]] by blast
  obtain cb sb w4 where b: "hybrid_encap P (public_key ?b) w3 = (Ok (cb, sb), w4)"
    using dm_wrap.encap_total [OF generated_pair [OF assms, of ?w1]] by blast
  show ?thesis
    by (simp add: test_kem_distinct_keypairs_distinct_secrets_def wp_rules a b case_prod_unfold Let_def)
qed

lemma rekey_trigger_tests_pass:
  "passes test_rekey_triggers_on_message_bound w" "passes test_rekey_triggers_on_age_bound w"
proof -
  have f: "round64 0 = Fin 0" "round64 604799 = Fin 604799" "round64 604800 = Fin 604800"
    "f64_of_nat 604800 = Fin 604800"
    using round64_of_int [of 0] round64_of_int [of 604799] round64_of_int [of 604800]
      f64_of_nat_exact [of 604800] by simp_all
  show "passes test_rekey_triggers_on_message_bound w" "passes test_rekey_triggers_on_age_bound w"
    by (simp_all add: test_rekey_triggers_on_message_bound_def test_rekey_triggers_on_age_bound_def wp_rules
        should_rekey_def Let_def DEFAULT_REKEY_AGE_SECONDS_def DEFAULT_REKEY_MSG_BOUND_def f64_sub_def f word_le_nat_alt)
qed

end
