(* ===== verification/Spec2Isabelle.thy ===== *)
theory Spec2Isabelle
  imports Keys_Correct Dm_Correct Envelope_Correct Services_Correct Wire_Correct
    Glue Services_Tests Route_Tests Session_Tests Integration_Tests
begin

text \<open>
  A verification development for the Rust crate \<open>sk_pqc\<close> (\<open>src/src/*.rs\<close>): hybrid
  X25519+ML-KEM-768 key encapsulation, epoch ratchets for direct messages and groups, message and
  routing envelopes, anonymous queue addressing, a crypto-suite registry with an honest
  self-report, and bindings for Dart, Python and WebAssembly.

  \<^bold>\<open>Parts and theories.\<close> Each theory follows the order of the module it models.
  \<^item> \<open>Prelude\<close>: words, bytes, \<open>Result\<close> with a third outcome \<open>Panic\<close>, big-endian integer codecs, the
    string operations of the standard library, decimal printing. \<open>Float64\<close>: the part of binary64
    that the re-key clock computes with (exact rationals rounded to nearest even). \<open>World\<close>: entropy
    and clock, and \<open>prims\<close>, the record of the third-party cryptography with the laws it documents.
    \<open>Codecs\<close>: base64 and hex likewise. \<open>Sample_Prims\<close>: an instance of all of them, for witnesses.
  \<^item> \<open>Kem\<close> is \<open>kem.rs\<close>. \<open>Sealing\<close> is the construction that \<open>ratchet.rs\<close>, \<open>group_ratchet.rs\<close>,
    \<open>pqdm.rs\<close> and \<open>pqroute.rs\<close> each write out (encapsulate, derive, AES-256-GCM), and \<open>Epoch_Keys\<close>
    the contract of an outbound key counter; both are locales with the client's lemmas.
  \<^item> \<open>Ratchet\<close> is \<open>ratchet.rs\<close>; \<open>Group_Ratchet\<close> is \<open>group_ratchet.rs\<close>.
  \<^item> \<open>Dm_Token\<close>, \<open>Dm_Session\<close> and \<open>Dm_Snapshot\<close> are \<open>dm_session.rs\<close>: the frame and its token, the
    session's seal and open, its persistence. \<open>Dm_Network\<close> puts sessions into runs: \<open>session_run\<close>
    is all that one session can go through, \<open>net_run\<close> a sender and a receiver over a network that
    loses, repeats and reorders frames, and \<open>dm_forgery\<close> says what an attacker would have to
    achieve. \<open>Dm_Channel\<close> is the abstract service, a set of known epochs, with the locale of its
    simulation; \<open>Dm_Types\<close> what the operations keep of a session that came from any JSON;
    \<open>Dm_Lifetime\<close> adds restarts to the runs, and the slot of a seal; \<open>Dm_History\<close> says what
    a session accumulates over its life (what it sent stays readable, epochs are bounded), \<open>Dm_Mail\<close>
    what a receiver of token strings makes of sent tokens and of arbitrary ones, and \<open>Dm_Talk\<close>
    steps through a conversation whose clock never spans a re-key age.
  \<^item> \<open>Json\<close> holds JSON values, the accessors of \<open>serde_json\<close> that the code calls and the canonical
    encoder of \<open>pqroute.rs\<close>; \<open>Json_Canonical\<close> a reader for its output. \<open>Pqdm\<close> and \<open>Pqroute\<close> are
    \<open>pqdm.rs\<close> and \<open>pqroute.rs\<close>.
  \<^item> \<open>Hash_Maps\<close> lists the entries of a hash map in an order left open; \<open>Suites\<close> is \<open>suites.rs\<close>,
    \<open>Report\<close> is \<open>report.rs\<close>, \<open>Anon_Queue\<close> is \<open>anon_queue.rs\<close>, \<open>Bindings\<close> is \<open>frb_api.rs\<close>,
    \<open>python.rs\<close> and \<open>wasm/src/lib.rs\<close>.
  \<^item> \<open>Frb_Wire\<close> is the part of \<open>frb_generated.rs\<close> that runs on every call from Dart: the dispatchers and
    wire functions, over the serialisation of \<open>Sse_Codec\<close> (locales for the contract of a codec, of
    two in sequence and of a vector) and the UTF-8 of \<open>Utf8\<close>. \<open>Glue\<close> has what is left of every
    module: the conversions between error enums, the serialised registry types, the registration
    of the Python module and the Dart objects.
  \<^item> \<open>Tampering\<close>: what becomes of a sealed text whose tag was changed, for every construction of the
    crate, from the law that the tag is a function of what it authenticates.
  \<^item> \<open>Test_Kit\<close> makes the crate's tests programs (they thread the world; a failed assertion and an
    \<open>unwrap\<close> of an error panic) with a calculus of weakest preconditions. \<open>Services_Tests\<close> (of
    \<open>suites.rs\<close>, \<open>report.rs\<close>, \<open>anon_queue.rs\<close>), \<open>Keys_Tests\<close> (\<open>ratchet.rs\<close>, \<open>group_ratchet.rs\<close>),
    \<open>Envelope_Tests\<close> (\<open>pqdm.rs\<close>), \<open>Route_Tests\<close> (\<open>pqroute.rs\<close>), \<open>Session_Tests\<close>
    (\<open>dm_session.rs\<close>) and \<open>Integration_Tests\<close> (\<open>tests/integration.rs\<close>) translate every test, named
    \<open>test_\<close> and its Rust name, and prove that it passes for all entropy, every lawful primitive
    and, where it reads the clock, every clock within stated bounds. A test that asks something of a primitive beyond its laws (a fixed HKDF value, two
    keys that differ, the AEAD refusing another key) is shown to pass exactly if that holds.
  \<^item> \<open>Keys_Correct\<close>, \<open>Dm_Correct\<close>, \<open>Envelope_Correct\<close>, \<open>Services_Correct\<close>, \<open>Wire_Correct\<close> and this
    theory state the properties, numbered, each with a witness where it has hypotheses.

  \<^bold>\<open>State and operations.\<close> A Rust struct is a record with the struct's fields (prefixed where two
  structs share a name), an enum a datatype with its variants, an \<open>impl\<close> method a definition
  named after the type and the method (\<open>DmSession_seal\<close>). Methods on \<open>&mut self\<close> return the new
  state also with an error, because the code may have assigned before it returned. Fixed-size
  arrays are byte lists with a length invariant. \<open>usize\<close> is a natural number, which is exact for
  a 64-bit \<open>usize\<close> (what the token cursor does with 32 bits is a property of its own); \<open>u64\<close> and
  \<open>u32\<close> counters and lengths are words. An argument \<open>chk\<close> says whether the build checks
  arithmetic overflow, so that \<open>+= 1\<close> either panics or wraps; \<open>unwrap\<close>, \<open>expect\<close>, slice indices
  and \<open>assert!\<close> that fail are \<open>Panic\<close>.

  \<^bold>\<open>What the properties show.\<close> Keys: what is encapsulated, wrapped or distributed is recovered by
  the holder of the private key, failures are exactly the documented ones, drawn message keys are
  pairwise derived from different inputs. Sessions: in all runs, restarts included, no (epoch,
  index) slot is sent twice, seals succeed or fail as documented and at the slot that state and
  clock give, tokens open in any order as the abstract channel says, what a receiver makes of any
  string is one of five outcomes, of which only a new epoch changes it, tokens and snapshots are
  read back exactly, epochs are no longer than their bound, and what was sent stays readable to
  whoever has the state. Envelopes: round trips, total outcomes, and two reductions: a downgrade
  or a rewritten header is refused unless the blob's own body is a forgery for the other
  associated data; a changed tag is always refused. Services: queue pairs, addresses, the registry
  and the report; which Dart messages run which call, and that the core and the three bindings
  exchange keys in every combination. Of the twelve tests of the session driver eleven pass, and
  the one on automatic re-keying passes exactly if the two secrets it drew differ. This theory adds
  what spans modules: the HKDF inputs of the whole crate are separated, and what is negotiated is
  what is reported.

  \<^bold>\<open>Bounds and fuel.\<close> Sessions are followed for fewer than \<open>2 ^ 64\<close> seals, the range of a
  counter; the behaviour at the end of the range is a property of its own. The redraw loop of
  \<open>new_queue_pair\<close> is a \<open>partial_function\<close>, and its result is stated for every entropy, the one
  on which it does not return included. The reader of canonical JSON has fuel; more than the
  text's length is proved enough. AES-GCM is assumed to encrypt below \<open>2 ^ 32\<close> bytes only.

  \<^bold>\<open>Not modelled.\<close> X25519, ML-KEM, HKDF, HMAC, AES-GCM, the constant-time comparison, base64, hex,
  the general parser and printer of \<open>serde_json\<close> and its decimal rendering of floats are third-party
  crates: parameters, with the laws that are used as hypotheses, all shown satisfiable together.
  One law idealises: the failure rate that ML-KEM documents is taken as zero. Confidentiality is
  outside a functional model. The module \<open>group_ratchet.rs\<close> wraps to one member; the loop over the
  members in \<open>distribute\<close> is its caller's. Of \<open>frb_generated.rs\<close> the message framing, the panic handler
  and the constructors of Dart objects belong to the \<open>flutter_rust_bridge\<close> library and its macros;
  the reply's status byte is kept as a constructor, and the memory that a length prefix reserves
  is not bounded. \<open>lib.rs\<close> is a list of modules. Zeroing of secrets on drop has no observable
  result.
\<close>

section \<open>Separation of the derived keys\<close>

text \<open>
  Every purpose for which the crate derives a key: the KEM's combiner over the two shared
  secrets, the four wrap keys over an encapsulated secret (two of them bound to associated data),
  and the two message-key schedules over an epoch secret.
\<close>

datatype key_use =
    CombineKey bytes
  | DmWrapKey bytes
  | GroupWrapKey bytes
  | SealKey bytes bytes
  | RouteKey bytes bytes
  | DmMessageKey bytes u64 u64
  | GroupMessageKey bytes u64 u64

fun kdf_input :: "key_use \<Rightarrow> bytes \<times> bytes \<times> bytes" where
  "kdf_input (CombineKey ikm) = ([], ikm, HKDF_INFO)"
| "kdf_input (DmWrapKey ss) = ([], ss, INFO_DM_WRAP)"
| "kdf_input (GroupWrapKey ss) = ([], ss, EPOCH_WRAP_INFO)"
| "kdf_input (SealKey ss aad) = ([], ss, PQDM_INFO_WRAP @ blit ''|'' @ aad)"
| "kdf_input (RouteKey ss aad) = ([], ss, ROUTE_INFO_WRAP @ blit ''|'' @ aad)"
| "kdf_input (DmMessageKey es epoch index) = dm_message_kdf_input es epoch index"
| "kdf_input (GroupMessageKey es epoch index) = group_message_kdf_input es epoch index"

definition derive_key :: "prims \<Rightarrow> key_use \<Rightarrow> bytes" where
  "derive_key P u = (case kdf_input u of (salt, ikm, info) \<Rightarrow> hkdf_sha256 P salt ikm info)"

lemma kdf_input_inject: "kdf_input u = kdf_input v \<longleftrightarrow> u = v"
  by (cases u; cases v)
     (auto simp: dm_message_kdf_input_def group_message_kdf_input_def key_labels
       blit_def)

text \<open>
  C14: all keys of the crate come from one HKDF whose input names the purpose: each deriving
  function computes \<open>derive_key\<close> of its use, and two uses have the same HKDF input only if they
  are the same purpose with the same secret, associated data, epoch and index.
\<close>
theorem key_uses_separated:
  "combine P a b = derive_key P (CombineKey (a @ b)) \<and>
   dm_wrap_key P ss = derive_key P (DmWrapKey ss) \<and>
   group_wrap_key P ss = derive_key P (GroupWrapKey ss) \<and>
   wrap_key P ss aad = derive_key P (SealKey ss aad) \<and>
   derive_wrap_key P ss aad = derive_key P (RouteKey ss aad) \<and>
   derive_dm_message_key P es e i =
     (if length es = 32 then Ok (derive_key P (DmMessageKey es e i)) else Err (BadSecretLen (length es))) \<and>
   derive_message_key_arr P es e i = derive_key P (GroupMessageKey es e i) \<and>
   (kdf_input u = kdf_input v \<longleftrightarrow> u = v)"
  by (simp add: derive_key_def combine_def dm_wrap_key_def group_wrap_key_def wrap_key_def
      derive_wrap_key_def derive_dm_message_key_eq derive_dm_message_key_bad_len group_key_eq
      kdf_input_inject Let_def)

section \<open>What is negotiated is what is reported\<close>

lemma negotiated_status:
  "suite_status (negotiate_suite l r) = (if l \<and> r then HybridPq else Classical)"
  "is_quantum_resistant (negotiate_suite l r) \<longleftrightarrow> l \<and> r"
  using get_suite_eq [of "negotiate_suite l r"]
  by (simp_all add: suite_status_def Registry_suite_status_def is_quantum_resistant_def
      Registry_is_quantum_resistant_def get_suite_def [symmetric] negotiate_suite_def
      HYBRID_SUITE_def CLASSICAL_SUITE_def CryptoSuite_is_quantum_resistant_def)

lemma negotiated_nonempty: "negotiate_suite l r \<noteq> []"
  by (simp add: negotiate_suite_def HYBRID_SUITE_def CLASSICAL_SUITE_def lit_def)

text \<open>
  C36: for the suite that \<open>negotiate_suite\<close> picks, the self-report of the conversation says
  hybrid and quantum-resistant exactly when both sides support the hybrid, and the report over
  that surface claims full resistance in that case only; it panics only over a peer's name that
  contains a forbidden word.
\<close>
theorem negotiated_is_reported:
  "case conversation_surface_for (negotiate_suite l r) kind peer of
     Ok s \<Rightarrow> sr_status s = SuiteStatus_as_str (if l \<and> r then HybridPq else Classical) \<and>
       (sr_quantum_resistant s \<longleftrightarrow> l \<and> r) \<and>
       (case Report_from_surfaces [s] of
          Ok rp \<Rightarrow> rp_honest_claim rp = (if l \<and> r then ALL_QR_CLAIM else NOT_QR_CLAIM)
        | _ \<Rightarrow> False)
   | Err e \<Rightarrow> False
   | Panic \<Rightarrow> \<not> is_honest_note peer"
proof (cases "conversation_surface_for (negotiate_suite l r) kind peer")
  case (Ok s)
  then have s: "sr_status s = SuiteStatus_as_str (if l \<and> r then HybridPq else Classical)"
    "sr_quantum_resistant s \<longleftrightarrow> l \<and> r"
    by (auto simp: conversation_surface_spec negotiated_nonempty negotiated_status surface_of_def
        Let_def split: if_splits)
  have "assert_all_honest [s] = Ok ()"
    using built_surfaceD(2) [OF Ok] by (intro assert_all_honest_Ok) simp
  then have "case Report_from_surfaces [s] of
      Ok rp \<Rightarrow> rp_honest_claim rp = (if l \<and> r then ALL_QR_CLAIM else NOT_QR_CLAIM) | _ \<Rightarrow> False"
    using s by (cases "l \<and> r")
      (auto simp: Report_from_surfaces_def Let_def honest_claim_def count_where_def
        simp del: assert_all_honest.simps)
  then show ?thesis using s by (simp only: Ok res.case simp_thms)
qed (auto simp: conversation_surface_spec Let_def split: if_splits)

section \<open>Changed tags\<close>

text \<open>
  C7: AES-GCM's tag being a function of key, nonce, associated data and encrypted text, nothing the
  crate sealed opens once its last 16 bytes were changed: a wrapped epoch secret (direct or group),
  a sealed message, a routed envelope and a session frame are each refused with the documented
  error, whatever the change. No assumption on forgeries is made.
\<close>
theorem changed_tags_refused:
  assumes "seal_pair P pk sk" "gcm_tag_law P"
  shows "(wrap_dm_epoch_secret P es pk w = (Ok p, w') \<and> changed_tag p p' \<longrightarrow>
       unwrap_dm_epoch_secret P p' sk = Err UnwrapFailed) \<and>
    (wrap_epoch_secret P es pk w = (Ok g, w') \<and> changed_tag g g' \<longrightarrow>
       unwrap_epoch_secret P g' sk = Err GUnwrapFailed) \<and>
    (seal P J pt pk a b w = (Ok s, w') \<and> changed_tag s s' \<longrightarrow>
       open_sealed P J dbg s' sk a b HYBRID_SUITE = Err (DowngradeDetected (downgrade_text dbg HYBRID_SUITE))) \<and>
    (seal_routed P J meta content pk hdr w = (Ok r, w') \<and> changed_tag r r' \<and>
       serde_laws J \<and> routable J meta hdr content \<longrightarrow>
       open_routed P J r' sk = Err (RouteOpen open_failed_text)) \<and>
    (net_run P chk pk sk n A B sent \<and> n < 2 ^ 64 \<and> (f, m) \<in> set sent \<and> changed_tag (fr_body f) body \<and>
       (fmlookup (ds_epoch_secrets B) (fr_epoch f) \<noteq> None \<or> fr_index f < 3) \<longrightarrow>
       fst (DmSession_open P (f\<lparr>fr_body := body\<rparr>) sk B) = Err OpenFailed)"
proof (intro conjI impI; elim conjE)
  assume r: "seal_routed P J meta content pk hdr w = (Ok r, w')" "changed_tag r r'"
    and laws: "serde_laws J" "routable J meta hdr content"
  have "from_slice J (canonical J hdr) = Inr hdr"
    using laws by (intro serde_canonical) (simp_all add: routable_def)
  then show "open_routed P J r' sk = Err (RouteOpen open_failed_text)"
    by (rule routed_changed_tag [OF assms r routable_lengths(3) [OF laws(2)]])
next
  assume run: "net_run P chk pk sk n A B sent" "n < 2 ^ 64" and f: "(f, m) \<in> set sent" "changed_tag (fr_body f) body"
    and known: "fmlookup (ds_epoch_secrets B) (fr_epoch f) \<noteq> None \<or> fr_index f < 3"
  have "kdf_sizes P" using assms(1) by (simp add: seal_pair_def kem_pair_def)
  with net_run_inv [OF run assms(1)] assms(2) f known
  show "fst (DmSession_open P (f\<lparr>fr_body := body\<rparr>) sk B) = Err OpenFailed" by (blast intro: net_changed_tag)
qed (use assms in \<open>blast intro: dm_payload_changed_tag group_payload_changed_tag sealed_changed_tag\<close>)+

theorem changed_tags_refused_witness:
  "\<exists>f A w'. DmSession_seal sample_prims True [1] (public_key sample_keys) (DmSession_new (lit ''bob''))
       (sample_world 3 0) = (Ok f, A, w') \<and>
     fst (DmSession_open sample_prims (f\<lparr>fr_body := flip_last (fr_body f)\<rparr>) (private_key sample_keys)
       (DmSession_new (lit ''alice''))) = Err OpenFailed"
proof -
  let ?pk = "public_key sample_keys" and ?sk = "private_key sample_keys" and ?w = "sample_world 3 0"
  let ?B = "DmSession_new (lit ''alice'')"
  have t0: "talk sample_prims True ?pk ?sk ?w ?w (DmSession_new (lit ''bob'')) ?B [] DEFAULT_REKEY_MSG_BOUND 0 0"
    unfolding DmSession_new_def by (rule talk_start) simp
  obtain f A w' where f: "DmSession_seal sample_prims True [1] ?pk (DmSession_new (lit ''bob'')) ?w = (Ok f, A, w')"
    "fr_index f = 0" "16 \<le> length (fr_body f)"
    and t: "talk sample_prims True ?pk ?sk ?w w' A ?B [(f, [1])] DEFAULT_REKEY_MSG_BOUND 0 1"
    by (rule talk_seal [OF t0 sample_seal_pair sample_steady, of "[1]" 0 0]) simp_all
  have "net_run sample_prims True ?pk ?sk 1 A ?B [(f, [1])]" using t by (simp add: talk_def)
  with flip_last_changes [OF f(3)] have "fst (DmSession_open sample_prims (f\<lparr>fr_body := flip_last (fr_body f)\<rparr>) ?sk ?B) = Err OpenFailed"
    by (intro changed_tags_refused [OF sample_seal_pair sample_tag_law, THEN conjunct2, THEN conjunct2,
          THEN conjunct2, THEN conjunct2, THEN mp, of True 1 A _ "[(f, [1])]" f "[1]"]) (simp add: f(2))
  with f(1) show ?thesis by blast
qed

section \<open>The tests of the session driver\<close>

text \<open>
  C27: the twelve unit tests of the session driver, for all entropy, all primitives and codecs with
  the documented laws (the AAD vector takes hex to be lower-case, the malformed token needs
  base64 to refuse its text), and every clock of which no two readings are a re-key age apart:
  eleven of them pass; the one on automatic re-keying passes exactly if the two epoch secrets that
  its sender drew differ.
\<close>
theorem session_tests_pass:
  assumes "prims_laws P" "gcm_tag_law P" "b64_laws C" "hex_laws C" "steady_clock w"
    and "hex_encode C = sample_hex_encode" "b64_decode C (lit ''!!!not-base64!!!'') = Inl e"
  shows "list_all (\<lambda>t. passes t w)
    [test_parity_frame_aad_vector C,
     test_token_roundtrip_with_and_without_kam C,
     test_from_token_rejects_bad_input C,
     test_two_party_roundtrip_single_message P chk,
     test_multi_message_in_epoch_roundtrip_via_token P chk C,
     test_loss_and_reorder_tolerant_within_epoch P chk,
     test_kam_repeated_on_first_frames_then_stops P chk,
     test_reordered_kam_frame_establishes_epoch P chk,
     test_open_rejects_tampered_body P chk,
     test_open_without_kam_for_unknown_epoch_errors P chk,
     test_snapshot_restore_preserves_state P chk C] \<and>
    (\<exists>s0 s1. auto_rekey_secrets P chk w = (Some s0, Some s1) \<and>
      (passes (test_auto_rekey_starts_new_epoch_with_pcs P chk) w \<longleftrightarrow> s0 \<noteq> s1))"
  using assms
  by (simp add: frame_aad_test_passes token_test_passes bad_token_test_passes auto_rekey_test
      two_party_test_passes multi_message_test_passes loss_test_passes kam_repeat_test_passes
      reordered_kam_test_passes tampered_body_test_passes no_kam_test_passes snapshot_test_passes)

theorem session_tests_pass_witness:
  "passes (test_from_token_rejects_bad_input sample_codecs) (sample_world 3 7) \<and>
   passes (test_snapshot_restore_preserves_state sample_prims True sample_codecs) (sample_world 3 7) \<and>
   (\<exists>s0 s1. auto_rekey_secrets sample_prims True (sample_world 3 7) = (Some s0, Some s1) \<and>
     (passes (test_auto_rekey_starts_new_epoch_with_pcs sample_prims True) (sample_world 3 7) \<longleftrightarrow> s0 \<noteq> s1))"
proof -
  have "hex_encode sample_codecs = sample_hex_encode" by (simp add: sample_codecs_def)
  moreover have "b64_decode sample_codecs (lit ''!!!not-base64!!!'') = Inl (lit ''bad digit'')"
    by (simp add: sample_codecs_def lit_def hex_value_def)
  ultimately show ?thesis
    using session_tests_pass [OF sample_prims_laws sample_tag_law sample_codecs_laws(1,3) sample_steady,
        of _ 3 7 True] by simp
qed

end
